(* ===== verification/Lcom_Prelude.thy ===== *)
theory Lcom_Prelude
  imports Main "HOL-Library.Word"
begin

unbundle bit_operations_syntax

text \<open>
  Shared vocabulary of the development: the machine integers of the C sources, the
  faults that undefined behaviour or a kernel panic stand for, the result type of
  code that can fault, the loop combinators the \<open>for\<close> loops are translated to, and
  the generic lemmas on lists, results and words that the component theories use.

  Conventions.  \<open>uint8_t\<close>, \<open>uint16_t\<close> and \<open>uint32_t\<close> are words of that width.
  C \<open>int\<close> is \<open>int\<close>; the places where the sources can leave the range of a 32-bit
  \<open>int\<close> are named in the header of the root theory.  A pointer to a heap block or to
  a sprite is the list of its bytes, and \<open>NULL\<close> is the empty block, since every
  access through either of them is out of range.
\<close>

section \<open>Types\<close>

type_synonym u8 = "8 word"
type_synonym u16 = "16 word"
type_synonym u32 = "32 word"

datatype fault =
    Out_Of_Bounds     \<comment> \<open>access outside an allocated block or array\<close>
  | Uninitialised     \<comment> \<open>use of an automatic object that was never assigned\<close>
  | Division_By_Zero
  | Panic             \<comment> \<open>the kernel service \<open>panic()\<close>, which does not return\<close>

type_synonym 'a result = "fault + 'a"

text \<open>
  \<open>'a run\<close> is the outcome of code that may also poll forever: \<open>None\<close> when it does not
  return.
\<close>

type_synonym 'a run = "(fault + 'a) option"

section \<open>Sequencing\<close>

definition andthen :: "'e + 'a \<Rightarrow> ('a \<Rightarrow> 'e + 'b) \<Rightarrow> 'e + 'b" where
  "andthen m f = (case m of Inl e \<Rightarrow> Inl e | Inr a \<Rightarrow> f a)"

definition run_then :: "('e + 'a) option \<Rightarrow> ('a \<Rightarrow> ('e + 'b) option) \<Rightarrow> ('e + 'b) option" where
  "run_then m f = (case m of None \<Rightarrow> None | Some (Inl e) \<Rightarrow> Some (Inl e) | Some (Inr a) \<Rightarrow> f a)"

text \<open>A \<open>for\<close> loop over the listed values of its counter, left at the first fault.\<close>

primrec for_each :: "'i list \<Rightarrow> ('i \<Rightarrow> 's \<Rightarrow> 'e + 's) \<Rightarrow> 's \<Rightarrow> 'e + 's" where
  "for_each [] body s = Inr s"
| "for_each (i # is) body s = andthen (body i s) (for_each is body)"

section \<open>C integer arithmetic\<close>

text \<open>C division truncates towards zero; a zero divisor traps.\<close>

definition c_div :: "int \<Rightarrow> int \<Rightarrow> int" where
  "c_div a b = sgn a * sgn b * (\<bar>a\<bar> div \<bar>b\<bar>)"

text \<open>\<open>BIT(n)\<close> of \<open>utils.h\<close>, on a byte.\<close>

definition BIT :: "nat \<Rightarrow> u8" where
  "BIT n = push_bit n 1"

text \<open>The bytes of a \<open>uint32_t\<close> in memory (the i386 is little endian).\<close>

definition le_bytes :: "u32 \<Rightarrow> u8 list" where
  "le_bytes c = [ucast c, ucast (drop_bit 8 c), ucast (drop_bit 16 c), ucast (drop_bit 24 c)]"

text \<open>\<open>memcpy\<close> of \<open>src\<close> to \<open>dst + off\<close>, and of three bytes from \<open>src + off\<close>.\<close>

definition memcpy_to :: "u8 list \<Rightarrow> int \<Rightarrow> u8 list \<Rightarrow> u8 list result" where
  "memcpy_to dst off src =
     (if 0 \<le> off \<and> off + int (length src) \<le> int (length dst)
      then Inr (take (nat off) dst @ src @ drop (nat off + length src) dst)
      else Inl Out_Of_Bounds)"

definition read_bytes :: "u8 list \<Rightarrow> int \<Rightarrow> nat \<Rightarrow> u8 list result" where
  "read_bytes src off n =
     (if 0 \<le> off \<and> off + int n \<le> int (length src)
      then Inr (take n (drop (nat off) src)) else Inl Out_Of_Bounds)"

section \<open>Invariants of step relations\<close>

text \<open>
  The contract of an invariant: one step keeps it.  Every state a run reaches then has it.
\<close>

locale step_invariant =
  fixes step :: "'s \<Rightarrow> 's \<Rightarrow> bool" and inv :: "'s \<Rightarrow> bool"
  assumes step_keeps: "inv s \<Longrightarrow> step s t \<Longrightarrow> inv t"
begin

lemma run_keeps: "step\<^sup>*\<^sup>* s t \<Longrightarrow> inv s \<Longrightarrow> inv t"
  by (induction rule: rtranclp_induct) (blast intro: step_keeps)+

end

text \<open>
  A step relation that refines another one through a function: each concrete step is an abstract step
  or leaves the abstract state alone.
\<close>

locale simulation = step_invariant step inv
  for step :: "'s \<Rightarrow> 's \<Rightarrow> bool" and inv :: "'s \<Rightarrow> bool" +
  fixes astep :: "'a \<Rightarrow> 'a \<Rightarrow> bool" and abs_of :: "'s \<Rightarrow> 'a"
  assumes simulates: "inv s \<Longrightarrow> step s t \<Longrightarrow> abs_of t = abs_of s \<or> astep (abs_of s) (abs_of t)"
begin

lemma run_simulates: "step\<^sup>*\<^sup>* s t \<Longrightarrow> inv s \<Longrightarrow> astep\<^sup>*\<^sup>* (abs_of s) (abs_of t)"
proof (induction rule: rtranclp_induct)
  case (step t u)
  then have "abs_of u = abs_of t \<or> astep (abs_of t) (abs_of u)" using run_keeps simulates by blast
  with step show ?case by (metis rtranclp.rtrancl_into_rtrancl)
qed simp

text \<open>What every abstract run keeps, every concrete run keeps.\<close>

lemma transfer:
  assumes "step\<^sup>*\<^sup>* s t" and "inv s" and "step_invariant astep ainv" and "ainv (abs_of s)"
  shows "ainv (abs_of t)"
  using step_invariant.run_keeps [OF assms(3) run_simulates [OF assms(1,2)] assms(4)] .

end

section \<open>Lemmas\<close>

named_theorems res_simps \<open>rewriting of sequenced results\<close>

lemma andthen_Inr [simp, res_simps]: "andthen (Inr a) f = f a"
  by (simp add: andthen_def)

lemma andthen_Inl [simp, res_simps]: "andthen (Inl e) f = Inl e"
  by (simp add: andthen_def)

lemma andthen_eq_Inr [res_simps]: "andthen m f = Inr b \<longleftrightarrow> (\<exists>a. m = Inr a \<and> f a = Inr b)"
  by (cases m) auto

lemma andthen_eq_Inl [res_simps]:
  "andthen m f = Inl e \<longleftrightarrow> m = Inl e \<or> (\<exists>a. m = Inr a \<and> f a = Inl e)"
  by (cases m) auto

lemma andthen_assoc: "andthen (andthen m f) g = andthen m (\<lambda>a. andthen (f a) g)"
  by (cases m) auto

lemma andthen_cong [fundef_cong]:
  "m = m' \<Longrightarrow> (\<And>a. m' = Inr a \<Longrightarrow> f a = f' a) \<Longrightarrow> andthen m f = andthen m' f'"
  by (cases m') auto

lemma run_then_simps [simp, res_simps]:
  "run_then None f = None"
  "run_then (Some (Inl e)) f = Some (Inl e)"
  "run_then (Some (Inr a)) f = f a"
  by (simp_all add: run_then_def)

lemma run_then_eq_Inr [res_simps]:
  "run_then m f = Some (Inr b) \<longleftrightarrow> (\<exists>a. m = Some (Inr a) \<and> f a = Some (Inr b))"
  by (simp add: run_then_def split: option.splits sum.splits)

lemma for_each_append:
  "for_each (xs @ ys) body s = andthen (for_each xs body s) (for_each ys body)"
proof (induction xs arbitrary: s)
  case Nil
  then show ?case by simp
next
  case (Cons x xs)
  then have "for_each (xs @ ys) body = (\<lambda>t. andthen (for_each xs body t) (for_each ys body))"
    by (intro ext)
  then show ?case by (simp add: andthen_assoc)
qed

lemma for_each_first_fault:
  assumes "i < n" and "\<And>m. m < i \<Longrightarrow> body m s = Inr s" and "body i s = Inl e"
  shows "for_each [0..<n] body s = Inl e"
proof -
  have skip: "for_each [a..<i] body s = Inr s" for a
    using assms(2) by (induction "i - a" arbitrary: a) (simp_all add: upt_conv_Cons)
  have "[0..<n] = [0..<i] @ i # [Suc i..<n]" using assms(1) upt_add_eq_append [of 0 i "n - i"] by (simp add: upt_conv_Cons)
  then show ?thesis by (simp add: for_each_append skip assms(3))
qed

text \<open>The loop rule: an invariant indexed by the part of the range already done.\<close>

lemma for_each_rule:
  assumes "I [] s"
    and "\<And>pre i post s. is = pre @ i # post \<Longrightarrow> I pre s \<Longrightarrow>
           \<exists>s'. body i s = Inr s' \<and> I (pre @ [i]) s'"
  shows "\<exists>s'. for_each is body s = Inr s' \<and> I is s'"
  using assms
proof (induction "is" arbitrary: s rule: rev_induct)
  case Nil
  then show ?case by simp
next
  case (snoc i "is")
  have "\<exists>s'. for_each is body s = Inr s' \<and> I is s'"
  proof (rule snoc.IH)
    show "I [] s" by (rule snoc.prems)
    show "\<exists>s'. body j t = Inr s' \<and> I (pre @ [j]) s'"
      if "is = pre @ j # post" "I pre t" for pre j post t
      using snoc.prems(2) [of pre j "post @ [i]" t] that by simp
  qed
  then obtain t where t: "for_each is body s = Inr t" "I is t" by blast
  from snoc.prems(2) [of "is" i "[]" t] t(2)
  obtain u where "body i t = Inr u" "I (is @ [i]) u" by auto
  with t(1) show ?case by (simp add: for_each_append)
qed

text \<open>A property every completed iteration keeps holds at the end.\<close>

lemma for_each_preserves:
  assumes "for_each is body s = Inr s'" and "P s"
    and "\<And>i t t'. i \<in> set is \<Longrightarrow> P t \<Longrightarrow> body i t = Inr t' \<Longrightarrow> P t'"
  shows "P s'"
  using assms
proof (induction "is" arbitrary: s)
  case Nil
  then show ?case by simp
next
  case (Cons i "is")
  from Cons.prems(1) obtain t where t: "body i s = Inr t" "for_each is body t = Inr s'"
    by (auto simp: andthen_eq_Inr)
  have "P t" using Cons.prems(2,3) t(1) by auto
  with t(2) show ?case
    using Cons.prems(3) by (intro Cons.IH [of t]) auto
qed

lemma c_div_nonneg: "0 \<le> a \<Longrightarrow> 0 < b \<Longrightarrow> c_div a b = a div b"
  by (cases "a = 0") (simp_all add: c_div_def)

lemma c_div_neg: "a < 0 \<Longrightarrow> 0 < b \<Longrightarrow> c_div a b = - (- a div b)"
  by (simp add: c_div_def)

lemma length_le_bytes [simp]: "length (le_bytes c) = 4"
  by (simp add: le_bytes_def)

lemma memcpy_to_length: "memcpy_to dst off src = Inr d \<Longrightarrow> length d = length dst"
  by (auto simp: memcpy_to_def split: if_splits)

lemma memcpy_to_ok:
  "0 \<le> off \<Longrightarrow> off + int (length src) \<le> int (length dst) \<Longrightarrow>
   memcpy_to dst off src = Inr (take (nat off) dst @ src @ drop (nat off + length src) dst)"
  by (simp add: memcpy_to_def)

lemma memcpy_to_nth:
  assumes "memcpy_to dst off src = Inr d" and "k < length dst"
  shows "d ! k = (if nat off \<le> k \<and> k < nat off + length src then src ! (k - nat off) else dst ! k)"
  using assms by (auto simp: memcpy_to_def nth_append min_def split: if_splits)

text \<open>A decidable fact about a byte is checked on its 256 values.\<close>

lemma all_u8:
  assumes "list_all P (map word_of_nat [0..<256])"
  shows "P (b :: u8)"
proof -
  have "unat b < 256" using unsigned_less [of b, where ?'a = nat] by simp
  then have "unat b \<in> {0..<256}"
    unfolding atLeastLessThan_iff by (intro conjI le0)
  moreover have "\<forall>n\<in>{0..<256}. P (word_of_nat n)"
    using assms by (simp add: list_all_iff)
  ultimately have "P (word_of_nat (unat b))" by blast
  then show ?thesis by simp
qed

lemma ucast_u8_u32 [simp]: "ucast (ucast (b :: u8) :: u32) = b"
  by (rule ucast_up_ucast_id) (simp add: is_up)

lemma uint_ucast_u8_u32 [simp]: "uint (ucast (b :: u8) :: u32) = uint b"
  by (rule uint_up_ucast) (simp add: is_up)

lemma uint_u8_bound: "uint (b :: u8) \<le> 255" "0 \<le> uint (b :: u8)"
  using uint_bounded [of b] by auto

lemma cell_index:
  fixes x j d :: int
  assumes "x \<in> {j * d..<j * d + d}"
  shows "x div d = j"
proof -
  have "((x - j * d) + j * d) div d = j + (x - j * d) div d" using assms by (intro div_mult_self1) auto
  moreover have "(x - j * d) div d = 0" using assms by (intro div_pos_pos_trivial) auto
  ultimately show ?thesis by simp
qed

lemma uint_u16: "0 \<le> z \<Longrightarrow> z \<le> 65535 \<Longrightarrow> uint (word_of_int z :: u16) = z"
  by (simp add: uint_word_of_int)

lemma uint_u16_bound: "uint (b :: u16) \<le> 65535" "0 \<le> uint (b :: u16)"
  using uint_bounded [of b] by auto

lemma memcpy_to_read_same:
  assumes "memcpy_to dst off src = Inr d"
  shows "take (length src) (drop (nat off) d) = src"
  using assms by (auto simp: memcpy_to_def split: if_splits)

lemma memcpy_to_read_other:
  assumes "memcpy_to dst off src = Inr d"
    and "m + n \<le> nat off \<or> nat off + length src \<le> m"
  shows "take n (drop m d) = take n (drop m dst)"
proof (rule nth_equalityI)
  have len: "length d = length dst"
    using assms(1) by (rule memcpy_to_length)
  then show "length (take n (drop m d)) = length (take n (drop m dst))" by simp
  fix k assume "k < length (take n (drop m d))"
  then have k: "k < n" "m + k < length dst" by (auto simp: len)
  then have "d ! (m + k) = dst ! (m + k)"
    using memcpy_to_nth [OF assms(1), of "m + k"] assms(2) by auto
  with k len show "take n (drop m d) ! k = take n (drop m dst) ! k" by simp
qed

lemma for_each_faults:
  assumes "P s" and "i \<in> set is"
    and "\<And>j t t'. P t \<Longrightarrow> body j t = Inr t' \<Longrightarrow> P t'"
    and "\<And>t. P t \<Longrightarrow> \<exists>e. body i t = Inl e"
  shows "\<exists>e. for_each is body s = Inl e"
  using assms(1,2)
proof (induction "is" arbitrary: s)
  case Nil
  then show ?case by simp
next
  case (Cons j js)
  show ?case
  proof (cases "body j s")
    case (Inl e)
    then show ?thesis by simp
  next
    case (Inr t)
    with Cons.prems assms(4) [of s] have "i \<in> set js" by auto
    with Cons.IH [of t] assms(3) [OF Cons.prems(1) Inr] Inr show ?thesis by simp
  qed
qed

lemma upto_split_nth:
  assumes "[a..b] = pre @ x # post"
  shows "x = a + int (length pre)"
proof -
  have "length pre < length [a..b]" by (simp only: assms) simp
  then have "a + int (length pre) \<le> b" by simp
  then have "[a..b] ! length pre = a + int (length pre)" by (rule nth_upto)
  then show ?thesis by (simp only: assms nth_append_length)
qed

lemma set_takeWhile_upto:
  "a \<le> n \<Longrightarrow> set (takeWhile (\<lambda>i. i \<noteq> n) [a..b]) = {i. a \<le> i \<and> i \<le> b \<and> i < (n :: int)}"
proof (induction "nat (b + 1 - a)" arbitrary: a)
  case 0
  then show ?case by (auto simp: upto.simps [of a b])
next
  case (Suc k)
  then have ab: "a \<le> b" by simp
  show ?case
  proof (cases "a = n")
    case True
    then show ?thesis unfolding upto_rec1 [OF ab] by auto
  next
    case False
    have "set (takeWhile (\<lambda>i. i \<noteq> n) [a + 1..b]) = {i. a + 1 \<le> i \<and> i \<le> b \<and> i < n}"
      by (rule Suc.hyps(1)) (use False Suc.prems Suc.hyps(2) in auto)
    then have "set (takeWhile (\<lambda>i. i \<noteq> n) [a..b]) = insert a {i. a + 1 \<le> i \<and> i \<le> b \<and> i < n}"
      using False by (simp only: upto_rec1 [OF ab] takeWhile.simps) simp
    also have "\<dots> = {i. a \<le> i \<and> i \<le> b \<and> i < n}" using False Suc.prems ab by auto
    finally show ?thesis .
  qed
qed

lemma u8_high_bit: "8 \<le> n \<Longrightarrow> \<not> bit (b :: u8) n"
  using bit_imp_le_length [of b n] by auto

lemma div_step:
  assumes "0 < (q :: int)"
  shows "(c + 1) div q = c div q + (if (c + 1) mod q = 0 then 1 else 0)"
proof -
  define m where "m = c mod q"
  have m: "0 \<le> m" "m < q" using assms by (simp_all add: m_def)
  have "c + 1 = (m + 1) + c div q * q" by (simp add: m_def)
  then have "(c + 1) div q = (m + 1) div q + c div q" using assms by (metis div_mult_self1 less_irrefl add.commute)
  moreover have "(c + 1) mod q = (m + 1) mod q" by (simp add: m_def mod_simps)
  moreover have "(m + 1) div q = (if m + 1 = q then 1 else 0)" "(m + 1) mod q = (if m + 1 = q then 0 else m + 1)"
    using m by (auto simp: div_pos_pos_trivial mod_pos_pos_trivial)
  ultimately show ?thesis using m by auto
qed

end
