(* ===== verification/Kernel_Env.thy ===== *)
theory Kernel_Env
  imports Lcom_Prelude
begin

text \<open>
  What the program calls and the repository does not contain: the MINIX kernel calls,
  the LCOM framework and the C library.  They are the fields of a record \<open>'w kernel\<close>
  over an abstract world \<open>'w\<close> (the devices, the other processes, the random generator),
  and every definition that uses them takes that record as its argument.  The IPC macros
  the sources use come from the MINIX headers of the repository and are translated.

  \<open>sim_kernel\<close> is a concrete environment, a script of port reads, messages and random
  numbers with a log of what was written; the witnesses run the program in it.
\<close>

unbundle bit_operations_syntax

section \<open>Messages\<close>

text \<open>The part of \<open>message\<close> the interrupt loops read.\<close>

record message =
  m_source :: int
  interrupts :: u32

definition HARDWARE :: int where "HARDWARE = -1"
definition MAX_NR_TASKS :: int where "MAX_NR_TASKS = 1023"
definition NOTIFY :: int where "NOTIFY = 4"
definition IRQ_REENABLE :: int where "IRQ_REENABLE = 0x001"
definition IRQ_EXCLUSIVE :: int where "IRQ_EXCLUSIVE = 0x002"
definition IRQ_SETPOLICY :: u32 where "IRQ_SETPOLICY = 1"
definition OK :: int where "OK = 0"

text \<open>\<open>e & (2 ^ 15 - 1)\<close> on a signed value is the remainder modulo \<open>2 ^ 15\<close>.\<close>

definition ENDPOINT_P :: "int \<Rightarrow> int" where
  "ENDPOINT_P e = (e + MAX_NR_TASKS) mod 2 ^ 15 - MAX_NR_TASKS"

definition is_ipc_notify :: "u32 \<Rightarrow> bool" where
  "is_ipc_notify ipc_status \<longleftrightarrow> uint (ipc_status AND 0x3F) = NOTIFY"

section \<open>Images and video modes\<close>

text \<open>
  \<open>enum xpm_image_type\<close> and the fields of \<open>xpm_image_t\<close> and \<open>vbe_mode_info_t\<close> the program reads.  An
  \<open>xpm_map_t\<close> is one of the static arrays of \<open>pixmap.h\<close>, named by a string.
\<close>

datatype xpm_image_type =
    XPM_INDEXED | XPM_1_5_5_5 | XPM_5_6_5 | XPM_8_8_8 | XPM_8_8_8_8
  | XPM_GRAY_1_5_5_5 | XPM_GRAY_5_6_5 | XPM_GRAY_8_8_8 | XPM_GRAY_8_8_8_8 | INVALID_XPM

record xpm_image =
  width :: u16
  height :: u16

type_synonym xpm_map = string

record vbe_mode_info =
  XResolution :: u16
  YResolution :: u16
  BitsPerPixel :: u8
  RedMaskSize :: u8
  RedFieldPosition :: u8
  GreenMaskSize :: u8
  GreenFieldPosition :: u8
  BlueMaskSize :: u8
  BlueFieldPosition :: u8
  PhysBasePtr :: u32

section \<open>Timer status fields\<close>

text \<open>
  \<open>enum timer_init\<close>, \<open>enum timer_status_field\<close> and \<open>union timer_status_field_val\<close>; the
  driver stores the member its field selects.  A C enumeration object can hold a value
  that is no enumerator, so \<open>in_mode\<close> is the integer stored.
\<close>

datatype timer_init = INVAL_val | LSB_only | MSB_only | MSB_after_LSB

fun timer_init_val :: "timer_init \<Rightarrow> int" where
  "timer_init_val INVAL_val = 0"
| "timer_init_val LSB_only = 1"
| "timer_init_val MSB_only = 2"
| "timer_init_val MSB_after_LSB = 3"

datatype timer_status_field = tsf_all | tsf_initial | tsf_mode | tsf_base

datatype timer_status_field_val = Byte u8 | In_mode int | Count_mode u8 | Bcd bool

section \<open>Mouse packets\<close>

text \<open>\<open>struct packet\<close> of the framework's \<open>lab4.h\<close>.\<close>

record packet =
  pkt_bytes :: "u8 list"
  rb :: bool
  mb :: bool
  lb :: bool
  delta_x :: int
  delta_y :: int
  x_ov :: bool
  y_ov :: bool

section \<open>The environment\<close>

text \<open>
  Return codes are first in the results.  \<open>driver_receive\<close> returns the code, the message
  and the IPC status; \<open>malloc\<close> and \<open>vm_map_phys\<close> return the (indeterminate) contents of
  the block they deliver; \<open>indeterminate\<close> is what an uninitialised byte happens to hold.
\<close>

record 'w kernel =
  sys_inb :: "int \<Rightarrow> 'w \<Rightarrow> (int \<times> u32) \<times> 'w"
  sys_outb :: "int \<Rightarrow> u8 \<Rightarrow> 'w \<Rightarrow> int \<times> 'w"
  sys_irqsetpolicy :: "int \<Rightarrow> int \<Rightarrow> int \<Rightarrow> 'w \<Rightarrow> (int \<times> int) \<times> 'w"
  sys_irqrmpolicy :: "int \<Rightarrow> 'w \<Rightarrow> (int \<times> int) \<times> 'w"
  tickdelay :: "u32 \<Rightarrow> 'w \<Rightarrow> 'w"
  micros_to_ticks :: "u32 \<Rightarrow> u32"
  driver_receive :: "'w \<Rightarrow> (int \<times> message \<times> u32) \<times> 'w"
  sleep :: "u32 \<Rightarrow> 'w \<Rightarrow> 'w"
  rand :: "'w \<Rightarrow> int \<times> 'w"
  srand_time :: "'w \<Rightarrow> 'w"
  malloc :: "nat \<Rightarrow> 'w \<Rightarrow> (nat \<Rightarrow> u8) option \<times> 'w"
  sys_privctl_add_mem :: "u32 \<Rightarrow> u32 \<Rightarrow> 'w \<Rightarrow> int \<times> 'w"
  vm_map_phys :: "u32 \<Rightarrow> nat \<Rightarrow> 'w \<Rightarrow> (nat \<Rightarrow> u8) option \<times> 'w"
  sys_int86 :: "u16 \<Rightarrow> u16 \<Rightarrow> u8 \<Rightarrow> 'w \<Rightarrow> int \<times> 'w"
  vbe_get_mode_info :: "u16 \<Rightarrow> vbe_mode_info \<Rightarrow> 'w \<Rightarrow> (int \<times> vbe_mode_info) \<times> 'w"
  xpm_load :: "xpm_map \<Rightarrow> xpm_image_type \<Rightarrow> 'w \<Rightarrow> (u8 list \<times> xpm_image) \<times> 'w"
  mouse_enable_data_reporting :: "'w \<Rightarrow> int \<times> 'w"
  vg_exit :: "'w \<Rightarrow> int \<times> 'w"
  kbd_print_scancode :: "bool \<Rightarrow> u8 \<Rightarrow> u8 list \<Rightarrow> 'w \<Rightarrow> 'w"
  kbd_print_no_sysinb :: "int \<Rightarrow> 'w \<Rightarrow> 'w"
  timer_print_config :: "u8 \<Rightarrow> timer_status_field \<Rightarrow> timer_status_field_val \<Rightarrow> 'w \<Rightarrow> int \<times> 'w"
  timer_print_elapsed_time :: "'w \<Rightarrow> 'w"
  mouse_print_packet :: "packet \<Rightarrow> 'w \<Rightarrow> 'w"
  minix_get_dflt_kbc_cmd_byte :: "'w \<Rightarrow> u8 \<times> 'w"
  indeterminate :: "'w \<Rightarrow> u8"

text \<open>
  A port trace: an observation of the world that records every \<open>sys_outb\<close> and that no
  other call of the drivers changes.
\<close>

definition io_traced :: "'w kernel \<Rightarrow> ('w \<Rightarrow> (int \<times> u8) list) \<Rightarrow> bool" where
  "io_traced K tr \<longleftrightarrow>
     (\<forall>p v w. tr (snd (sys_outb K p v w)) = tr w @ [(p, v)]) \<and>
     (\<forall>p w. tr (snd (sys_inb K p w)) = tr w) \<and>
     (\<forall>t w. tr (tickdelay K t w) = tr w)"

text \<open>An observation that the port accesses and the delays between them leave alone.\<close>

definition ports_quiet :: "'w kernel \<Rightarrow> ('w \<Rightarrow> 'o) \<Rightarrow> bool" where
  "ports_quiet K obs \<longleftrightarrow> (\<forall>p w. obs (snd (sys_inb K p w)) = obs w) \<and> (\<forall>p v w. obs (snd (sys_outb K p v w)) = obs w) \<and>
     (\<forall>t w. obs (tickdelay K t w) = obs w)"

section \<open>The contract of an interrupt line\<close>

text \<open>
  What every subscribe/unsubscribe pair promises: \<open>*bit_no\<close> is the value that was passed to
  the kernel in the hook argument, the hook the kernel stores is kept in the driver, and it
  is the one passed back when the line is released.
\<close>

locale irq_line =
  fixes subscribe :: "'w kernel \<Rightarrow> 'd \<Rightarrow> 'w \<Rightarrow> (int \<times> u8 \<times> 'd) \<times> 'w"
    and unsubscribe :: "'w kernel \<Rightarrow> 'd \<Rightarrow> 'w \<Rightarrow> (int \<times> 'd) \<times> 'w"
    and hook :: "'d \<Rightarrow> int" and set_hook :: "int \<Rightarrow> 'd \<Rightarrow> 'd"
    and irq policy line :: int
  assumes subscribe_call: "subscribe K d w = (case sys_irqsetpolicy K irq policy line w of
      ((r, h), w') \<Rightarrow> ((if r \<noteq> 0 then 1 else 0, word_of_int line, set_hook h d), w'))"
    and unsubscribe_call: "unsubscribe K d w = (case sys_irqrmpolicy K (hook d) w of
      ((r, h), w') \<Rightarrow> ((if r \<noteq> 0 then 1 else 0, set_hook h d), w'))"
    and hook_set: "hook (set_hook h d) = h"
    and set_set: "set_hook h (set_hook h' d) = set_hook h d"
begin

lemma subscribe_unsubscribe:
  assumes "sys_irqsetpolicy K irq policy line w = ((0, h), w1)"
    and "sys_irqrmpolicy K h w1 = ((0, h'), w2)"
  shows "subscribe K d w = ((0, word_of_int line, set_hook h d), w1) \<and>
    unsubscribe K (set_hook h d) w1 = ((0, set_hook h' d), w2)"
  using assms by (simp add: subscribe_call unsubscribe_call hook_set set_set)

lemma subscribe_fails:
  "sys_irqsetpolicy K irq policy line w = ((r, h), w1) \<Longrightarrow> r \<noteq> 0 \<Longrightarrow>
   fst (fst (subscribe K d w)) = 1"
  by (simp add: subscribe_call)

end

section \<open>A scripted environment\<close>

record sim =
  sim_in :: "(int \<times> u32) list"
  sim_msgs :: "(int \<times> message \<times> u32) list"
  sim_rand :: "int list"
  sim_out :: "(int \<times> u8) list"

definition no_message :: "int \<times> message \<times> u32" where
  "no_message = (1, \<lparr>m_source = 0, interrupts = 0\<rparr>, 0)"

definition sim_kernel :: "sim kernel" where
  "sim_kernel = \<lparr>
     sys_inb = (\<lambda>p w. case sim_in w of [] \<Rightarrow> ((1, 0), w) | r # rs \<Rightarrow> (r, w\<lparr>sim_in := rs\<rparr>)),
     sys_outb = (\<lambda>p v w. (0, w\<lparr>sim_out := sim_out w @ [(p, v)]\<rparr>)),
     sys_irqsetpolicy = (\<lambda>irq pol hook w. ((0, hook), w)),
     sys_irqrmpolicy = (\<lambda>hook w. ((0, hook), w)),
     tickdelay = (\<lambda>t w. w),
     micros_to_ticks = (\<lambda>m. m div 16667),
     driver_receive = (\<lambda>w. case sim_msgs w of [] \<Rightarrow> (no_message, w)
                            | m # ms \<Rightarrow> (m, w\<lparr>sim_msgs := ms\<rparr>)),
     sleep = (\<lambda>s w. w),
     rand = (\<lambda>w. case sim_rand w of [] \<Rightarrow> (0, w) | r # rs \<Rightarrow> (r, w\<lparr>sim_rand := rs\<rparr>)),
     srand_time = (\<lambda>w. w),
     malloc = (\<lambda>n w. (Some (\<lambda>_. 0), w)),
     sys_privctl_add_mem = (\<lambda>b l w. (0, w)),
     vm_map_phys = (\<lambda>b n w. (Some (\<lambda>_. 0), w)),
     sys_int86 = (\<lambda>ax bx intno w. (0, w)),
     vbe_get_mode_info = (\<lambda>m i w. ((0, i), w)),
     xpm_load = (\<lambda>m t w. (([], \<lparr>width = 0, height = 0\<rparr>), w)),
     mouse_enable_data_reporting = (\<lambda>w. (0, w)),
     vg_exit = (\<lambda>w. (0, w)),
     kbd_print_scancode = (\<lambda>mk n bs w. w),
     kbd_print_no_sysinb = (\<lambda>n w. w),
     timer_print_config = (\<lambda>t f v w. (0, w)),
     timer_print_elapsed_time = (\<lambda>w. w),
     mouse_print_packet = (\<lambda>p w. w),
     minix_get_dflt_kbc_cmd_byte = (\<lambda>w. (0x47, w)),
     indeterminate = (\<lambda>w. 0)\<rparr>"

definition sim0 :: sim where
  "sim0 = \<lparr>sim_in = [], sim_msgs = [], sim_rand = [], sim_out = []\<rparr>"

section \<open>Lemmas\<close>

lemma io_tracedD:
  assumes "io_traced K tr"
  shows "tr (snd (sys_outb K p v w)) = tr w @ [(p, v)]"
    and "tr (snd (sys_inb K p w)) = tr w"
    and "tr (tickdelay K t w) = tr w"
  using assms by (auto simp: io_traced_def)

lemma sim_kernel_simps:
  "sys_inb sim_kernel p w = (case sim_in w of [] \<Rightarrow> ((1, 0), w) | r # rs \<Rightarrow> (r, w\<lparr>sim_in := rs\<rparr>))"
  "sys_outb sim_kernel p v w = (0, w\<lparr>sim_out := sim_out w @ [(p, v)]\<rparr>)"
  "sys_irqsetpolicy sim_kernel irq pol hook w = ((0, hook), w)"
  "sys_irqrmpolicy sim_kernel hook w = ((0, hook), w)"
  "tickdelay sim_kernel t w = w"
  "driver_receive sim_kernel w =
     (case sim_msgs w of [] \<Rightarrow> (no_message, w) | m # ms \<Rightarrow> (m, w\<lparr>sim_msgs := ms\<rparr>))"
  "sleep sim_kernel s w = w"
  "rand sim_kernel w = (case sim_rand w of [] \<Rightarrow> (0, w) | r # rs \<Rightarrow> (r, w\<lparr>sim_rand := rs\<rparr>))"
  "srand_time sim_kernel w = w"
  "indeterminate sim_kernel w = 0"
  by (simp_all add: sim_kernel_def)

lemma sim_kernel_traced: "io_traced sim_kernel sim_out"
  by (simp add: io_traced_def sim_kernel_def split: list.split)

lemma ENDPOINT_P_task: "- MAX_NR_TASKS \<le> e \<Longrightarrow> e < 2 ^ 15 - MAX_NR_TASKS \<Longrightarrow> ENDPOINT_P e = e"
  by (simp add: ENDPOINT_P_def MAX_NR_TASKS_def)

end
