(* ===== verification/Utils.thy ===== *)
theory Utils
  imports Kernel_Env
begin

text \<open>
  \<open>proj/src/utils.c\<close>: the two halves of a 16-bit value and the byte-wide port read.  A
  pointer argument is the option of the cell it points to, \<open>None\<close> being \<open>NULL\<close>.  The
  locale \<open>byte_access\<close> is what the timer drivers rely on, \<open>port_reader\<close> what the polling
  loops rely on; every copy of \<open>utils.c\<close> in the repository is an instance of both.
\<close>

unbundle bit_operations_syntax

definition util_get_LSB :: "u16 \<Rightarrow> u8 option \<Rightarrow> int \<times> u8 option" where
  "util_get_LSB val lsb = (case lsb of None \<Rightarrow> (1, None) | Some _ \<Rightarrow> (0, Some (ucast val)))"

definition util_get_MSB :: "u16 \<Rightarrow> u8 option \<Rightarrow> int \<times> u8 option" where
  "util_get_MSB val msb =
     (case msb of None \<Rightarrow> (1, None)
      | Some _ \<Rightarrow> (let val = drop_bit 8 val in (0, Some (ucast val))))"

text \<open>\<open>*value\<close> keeps its old contents when the kernel call fails.\<close>

definition util_sys_inb :: "'w kernel \<Rightarrow> int \<Rightarrow> u8 \<Rightarrow> 'w \<Rightarrow> (int \<times> u8) \<times> 'w" where
  "util_sys_inb K port old w =
     (case sys_inb K port w of ((aux, byt32), w') \<Rightarrow>
        if aux \<noteq> 0 then ((1, old), w') else ((0, ucast byt32), w'))"

section \<open>The contracts\<close>

locale byte_access =
  fixes get_lsb get_msb :: "u16 \<Rightarrow> u8 option \<Rightarrow> int \<times> u8 option"
  assumes lsb_null: "get_lsb v None = (1, None)"
    and msb_null: "get_msb v None = (1, None)"
    and lsb_store: "get_lsb v (Some b) = (0, Some (ucast v))"
    and msb_store: "get_msb v (Some b) = (0, Some (ucast (drop_bit 8 v)))"
begin

lemma halves_recombine:
  assumes "get_lsb v (Some a) = (r, Some l)" and "get_msb v (Some b) = (r', Some m)"
  shows "uint l + 256 * uint m = uint v"
proof -
  from assms have l: "l = ucast v" and m: "m = ucast (drop_bit 8 v)"
    by (simp_all add: lsb_store msb_store)
  have lo: "uint l = uint v mod 256"
    by (simp add: l unsigned_ucast_eq take_bit_eq_mod)
  have "0 \<le> uint v div 256 \<and> uint v div 256 < 256"
    using uint_u16_bound [of v] by presburger
  then have hi: "uint m = uint v div 256"
    by (simp add: m unsigned_ucast_eq drop_bit_eq_div uint_div take_bit_eq_mod mod_pos_pos_trivial)
  show ?thesis by (simp add: lo hi)
qed

lemma store_succeeds: "fst (get_lsb v (Some b)) = 0" "fst (get_msb v (Some b)) = 0"
  by (simp_all add: lsb_store msb_store)

end

locale port_reader =
  fixes read :: "'w kernel \<Rightarrow> int \<Rightarrow> u8 \<Rightarrow> 'w \<Rightarrow> (int \<times> u8) \<times> 'w"
  assumes read_ok: "sys_inb K p w = ((0, v), w') \<Longrightarrow> read K p old w = ((0, ucast v), w')"
    and read_fail: "sys_inb K p w = ((r, v), w') \<Longrightarrow> r \<noteq> 0 \<Longrightarrow> read K p old w = ((1, old), w')"
begin

lemma read_world: "snd (read K p old w) = snd (sys_inb K p w)"
proof -
  obtain r v w' where s: "sys_inb K p w = ((r, v), w')"
    by (metis prod.exhaust)
  show ?thesis
  proof (cases "r = 0")
    case True
    then show ?thesis using read_ok [of K p w v w' old] s by simp
  next
    case False
    then show ?thesis using read_fail [of K p w r v w' old] s by simp
  qed
qed

lemma read_traced: "io_traced K tr \<Longrightarrow> tr (snd (read K p old w)) = tr w"
  by (simp add: read_world io_tracedD)

end

interpretation proj_bytes: byte_access util_get_LSB util_get_MSB
  by unfold_locales (simp_all add: util_get_LSB_def util_get_MSB_def)

interpretation proj_port: port_reader util_sys_inb
  by unfold_locales (simp_all add: util_sys_inb_def)

end
