(* ===== verification/Rtc.thy ===== *)
theory Rtc
  imports Utils
begin

text \<open>
  \<open>proj/src/rtc.c\<close>: the real-time clock.  \<open>get_date\<close> selects each register through port
  \<open>0x70\<close>, reads it through port \<open>0x71\<close> and stores the decoded value.  The lemmas show
  that the decoding inverts binary-coded decimal and that, on a clock whose data port
  returns the selected register, \<open>get_date\<close> leaves the calendar date in \<open>date\<close>.
\<close>

unbundle bit_operations_syntax

definition IRQ8 :: int where "IRQ8 = 8"
definition RTC_ADDR_REG :: int where "RTC_ADDR_REG = 0x70"
definition RTC_DATA_REG :: int where "RTC_DATA_REG = 0x71"
definition REG_YEAR :: u8 where "REG_YEAR = 0x09"
definition REG_MONTH :: u8 where "REG_MONTH = 0x08"
definition REG_DAY :: u8 where "REG_DAY = 0x07"
definition REG_HOUR :: u8 where "REG_HOUR = 0x04"
definition REG_MINUTE :: u8 where "REG_MINUTE = 0x02"
definition REG_SECOND :: u8 where "REG_SECOND = 0x00"

lemmas rtc_consts = IRQ8_def RTC_ADDR_REG_def RTC_DATA_REG_def REG_YEAR_def REG_MONTH_def
  REG_DAY_def REG_HOUR_def REG_MINUTE_def REG_SECOND_def

record Date =
  day :: u32
  month :: u32
  year :: u32
  hour :: u32
  minute :: u32
  second :: u32

record rtc =
  date :: Date
  rtc_hook_id :: int

definition rtc_subscribe :: "'w kernel \<Rightarrow> rtc \<Rightarrow> 'w \<Rightarrow> (int \<times> rtc) \<times> 'w" where
  "rtc_subscribe K d w =
     (case sys_irqsetpolicy K IRQ8 IRQ_REENABLE (rtc_hook_id d) w of ((r, h), w') \<Rightarrow>
        ((if r \<noteq> OK then 1 else 0, d\<lparr>rtc_hook_id := h\<rparr>), w'))"

definition rtc_unsubscribe :: "'w kernel \<Rightarrow> rtc \<Rightarrow> 'w \<Rightarrow> (int \<times> rtc) \<times> 'w" where
  "rtc_unsubscribe K d w =
     (case sys_irqrmpolicy K (rtc_hook_id d) w of ((r, h), w') \<Rightarrow>
        ((if r \<noteq> OK then 1 else 0, d\<lparr>rtc_hook_id := h\<rparr>), w'))"

definition convert_bcd_to_dec :: "u8 \<Rightarrow> u32" where
  "convert_bcd_to_dec bcd = ucast (drop_bit 4 (bcd AND 0xF0)) * 10 + ucast (bcd AND 0x0F)"

text \<open>The pair of calls \<open>get_date\<close> makes for each register; both results are ignored.\<close>

definition read_rtc_reg :: "'w kernel \<Rightarrow> u8 \<Rightarrow> u8 \<Rightarrow> 'w \<Rightarrow> u8 \<times> 'w" where
  "read_rtc_reg K reg old w =
     (case sys_outb K RTC_ADDR_REG reg w of (_, w1) \<Rightarrow>
      case util_sys_inb K RTC_DATA_REG old w1 of ((_, v), w2) \<Rightarrow> (v, w2))"

definition get_date :: "'w kernel \<Rightarrow> rtc \<Rightarrow> 'w \<Rightarrow> (int \<times> rtc) \<times> 'w" where
  "get_date K d w =
     (case read_rtc_reg K REG_YEAR 0 w of (yr, w1) \<Rightarrow>
      case read_rtc_reg K REG_MONTH 0 w1 of (mo, w2) \<Rightarrow>
      case read_rtc_reg K REG_DAY 0 w2 of (dy, w3) \<Rightarrow>
      case read_rtc_reg K REG_HOUR 0 w3 of (hr, w4) \<Rightarrow>
      case read_rtc_reg K REG_MINUTE 0 w4 of (mi, w5) \<Rightarrow>
      case read_rtc_reg K REG_SECOND 0 w5 of (se, w6) \<Rightarrow>
        ((0, d\<lparr>date := (date d)\<lparr>
           year := convert_bcd_to_dec yr,
           month := convert_bcd_to_dec mo,
           day := convert_bcd_to_dec dy,
           hour := convert_bcd_to_dec hr,
           minute := convert_bcd_to_dec mi,
           second := convert_bcd_to_dec se\<rparr>\<rparr>), w6))"

text \<open>Reference encoding: two decimal digits, one per nibble.\<close>

definition bcd_encode :: "nat \<Rightarrow> u8" where
  "bcd_encode n = of_nat (16 * (n div 10) + n mod 10)"

text \<open>
  The documented behaviour of the MC146818 the code relies on: after the address port
  was written, the data port returns that register, here from a register file \<open>regs\<close>.
\<close>

definition rtc_chip :: "'w kernel \<Rightarrow> (u8 \<Rightarrow> u8) \<Rightarrow> bool" where
  "rtc_chip K regs \<longleftrightarrow>
     (\<forall>r w. \<exists>w'. sys_inb K RTC_DATA_REG (snd (sys_outb K RTC_ADDR_REG r w)) = ((0, ucast (regs r)), w'))"

text \<open>A clock that remembers the last register selected.\<close>

definition clock_regs :: "u8 \<Rightarrow> u8" where
  "clock_regs r = (if r = REG_YEAR then 0x21 else if r = REG_MONTH then 0x05
     else if r = REG_DAY then 0x31 else if r = REG_HOUR then 0x19
     else if r = REG_MINUTE then 0x59 else 0x08)"

definition clock_kernel :: "sim kernel" where
  "clock_kernel = sim_kernel\<lparr>sys_inb := (\<lambda>p w. ((0, if sim_out w = [] then 0
     else ucast (clock_regs (snd (last (sim_out w))))), w))\<rparr>"

section \<open>Lemmas\<close>

lemma uint_high_nibble: "uint (drop_bit 4 (b AND 0xF0) :: u8) = uint b div 16"
  by (rule all_u8 [where b = b]) code_simp

lemma uint_low_nibble: "uint (b AND 0x0F :: u8) = uint b mod 16"
  by (rule all_u8 [where b = b]) code_simp

lemma uint_convert_bcd: "uint (convert_bcd_to_dec b) = 10 * (uint b div 16) + uint b mod 16"
proof -
  have "0 \<le> uint b div 16" "uint b div 16 \<le> 15" "0 \<le> uint b mod 16" "uint b mod 16 \<le> 15"
    using uint_u8_bound [of b] by presburger+
  then show ?thesis
    using uint_high_nibble [of b] uint_low_nibble [of b]
    by (simp add: convert_bcd_to_dec_def uint_word_ariths del: drop_bit_and)
qed

lemma uint_bcd_encode: "n < 100 \<Longrightarrow> uint (bcd_encode n) = 16 * (int n div 10) + int n mod 10"
proof -
  assume "n < 100"
  then have "n div 10 < 10" "n mod 10 < 10" by simp_all
  then have "16 * (n div 10) + n mod 10 < 256" by linarith
  then have "unat (bcd_encode n) = 16 * (n div 10) + n mod 10"
    by (simp only: bcd_encode_def unat_of_nat) simp
  then have "int (unat (bcd_encode n)) = 16 * (int n div 10) + int n mod 10"
    by (simp add: zdiv_int zmod_int)
  then show ?thesis by simp
qed

lemma bcd_round_trip: "n < 100 \<Longrightarrow> uint (convert_bcd_to_dec (bcd_encode n)) = int n"
proof -
  assume n: "n < 100"
  have "(16 * (int n div 10) + int n mod 10) div 16 = int n div 10"
    and "(16 * (int n div 10) + int n mod 10) mod 16 = int n mod 10"
    by simp_all
  with n show ?thesis by (simp add: uint_convert_bcd uint_bcd_encode)
qed

lemma bcd_bound: "uint (convert_bcd_to_dec b) \<le> 165"
  unfolding uint_convert_bcd using uint_u8_bound [of b] by presburger

lemma read_rtc_reg_chip:
  assumes "rtc_chip K regs"
  shows "fst (read_rtc_reg K r old w) = regs r"
proof -
  obtain w' where "sys_inb K RTC_DATA_REG (snd (sys_outb K RTC_ADDR_REG r w)) = ((0, ucast (regs r)), w')"
    using assms by (auto simp: rtc_chip_def)
  then show ?thesis
    by (simp add: read_rtc_reg_def util_sys_inb_def split_beta)
qed

text \<open>C24: On a clock chip whose registers hold the two-digit date in binary-coded decimal,
  \<open>get_date\<close> stores that date.\<close>

lemma get_date_reads_clock:
  assumes "rtc_chip K regs"
    and "regs REG_YEAR = bcd_encode y" "regs REG_MONTH = bcd_encode mo" "regs REG_DAY = bcd_encode dd"
    and "regs REG_HOUR = bcd_encode hh" "regs REG_MINUTE = bcd_encode mi" "regs REG_SECOND = bcd_encode ss"
    and "\<forall>n\<in>{y, mo, dd, hh, mi, ss}. n < 100"
  shows "\<exists>d' w'. get_date K d w = ((0, d'), w') \<and> rtc_hook_id d' = rtc_hook_id d \<and>
    uint (year (date d')) = int y \<and> uint (month (date d')) = int mo \<and> uint (day (date d')) = int dd \<and>
    uint (hour (date d')) = int hh \<and> uint (minute (date d')) = int mi \<and> uint (second (date d')) = int ss"
  using assms(2-8) by (simp add: get_date_def split_beta read_rtc_reg_chip [OF assms(1)] bcd_round_trip)

theorem get_date_reads_clock_witness:
  "\<exists>d' w'. get_date clock_kernel \<lparr>date = \<lparr>day = 0, month = 0, year = 0, hour = 0, minute = 0, second = 0\<rparr>, rtc_hook_id = 3\<rparr> sim0
     = ((0, d'), w') \<and> uint (year (date d')) = 21 \<and> uint (month (date d')) = 5 \<and> uint (hour (date d')) = 19"
proof -
  have "rtc_chip clock_kernel clock_regs"
    by (simp add: rtc_chip_def clock_kernel_def sim_kernel_def)
  from get_date_reads_clock [OF this, of 21 5 31 19 59 8
      "\<lparr>date = \<lparr>day = 0, month = 0, year = 0, hour = 0, minute = 0, second = 0\<rparr>, rtc_hook_id = 3\<rparr>" sim0]
  show ?thesis by (auto simp: clock_regs_def rtc_consts bcd_encode_def)
qed

end
