(* ===== verification/I8042.thy ===== *)
theory I8042
  imports Utils
begin

text \<open>
  \<open>proj/src/i8042.h\<close>: the keyboard controller's ports, status bits and commands, and the
  contract of the polling loops that the keyboard and mouse drivers write over them: read
  the status register until a bit of it says so, then go on.  The contract is the locale
  \<open>kbc_poller\<close>; each polling loop of the drivers is an instance of it.
\<close>

unbundle bit_operations_syntax

section \<open>Constants\<close>

definition WAIT_KBC :: u32 where "WAIT_KBC = 20000"
definition DELAY_US :: u32 where "DELAY_US = 20000"
definition IRQ0 :: int where "IRQ0 = 0"
definition IRQ1 :: int where "IRQ1 = 1"
definition IRQ12 :: int where "IRQ12 = 12"
definition P_KEY_BREAKCODE :: u8 where "P_KEY_BREAKCODE = 0x99"
definition I_KEY_BREAKCODE :: u8 where "I_KEY_BREAKCODE = 0x97"
definition E_KEY_BREAKCODE :: u8 where "E_KEY_BREAKCODE = 0x92"
definition STATUS_REGISTER :: int where "STATUS_REGISTER = 0x64"
definition STATUS_KBC :: int where "STATUS_KBC = 0x64"
definition INPUT_BUFFER_COMMANDS :: int where "INPUT_BUFFER_COMMANDS = 0x64"
definition INPUT_BUFFER_ARGUMENTS :: int where "INPUT_BUFFER_ARGUMENTS = 0x60"
definition OUTPUT_BUFFER :: int where "OUTPUT_BUFFER = 0x60"
definition OUT_BUFF :: u8 where "OUT_BUFF = BIT 0"
definition IN_BUFF :: u8 where "IN_BUFF = BIT 1"
definition KBC_PAR_ERR :: u8 where "KBC_PAR_ERR = BIT 7"
definition KBC_TO_ERR :: u8 where "KBC_TO_ERR = BIT 6"
definition READ_COMMAND :: u8 where "READ_COMMAND = 0x20"
definition WRITE_COMMAND :: u8 where "WRITE_COMMAND = 0x60"
definition ISSUE_COMMAND_TO_THE_MOUSE :: u8 where "ISSUE_COMMAND_TO_THE_MOUSE = 0xD4"
definition ENABLE_MOUSE_DATA :: u8 where "ENABLE_MOUSE_DATA = 0xF4"
definition DISABLE_MOUSE_DATA :: u8 where "DISABLE_MOUSE_DATA = 0xF5"
definition SET_STREAM_MODE :: u8 where "SET_STREAM_MODE = 0xEA"
definition SET_REMOTE_MODE :: u8 where "SET_REMOTE_MODE = 0xF0"
definition READ_DATA_MOUSE :: u8 where "READ_DATA_MOUSE = 0xEB"
definition ESCAPE :: u8 where "ESCAPE = 0x81"
definition IS_OK :: u8 where "IS_OK = 0xFA"

lemmas i8042_ports = STATUS_REGISTER_def STATUS_KBC_def INPUT_BUFFER_COMMANDS_def
  INPUT_BUFFER_ARGUMENTS_def OUTPUT_BUFFER_def
lemmas i8042_bits = OUT_BUFF_def IN_BUFF_def KBC_PAR_ERR_def KBC_TO_ERR_def BIT_def
lemmas i8042_cmds = READ_COMMAND_def WRITE_COMMAND_def ISSUE_COMMAND_TO_THE_MOUSE_def
  ENABLE_MOUSE_DATA_def DISABLE_MOUSE_DATA_def SET_STREAM_MODE_def SET_REMOTE_MODE_def
  READ_DATA_MOUSE_def ESCAPE_def IS_OK_def

text \<open>The three status tests of the drivers.\<close>

definition out_full :: "u8 \<Rightarrow> bool" where
  "out_full stat \<longleftrightarrow> stat AND OUT_BUFF \<noteq> 0"

definition in_free :: "u8 \<Rightarrow> bool" where
  "in_free stat \<longleftrightarrow> stat AND IN_BUFF = 0"

definition line_ok :: "u8 \<Rightarrow> bool" where
  "line_ok stat \<longleftrightarrow> stat AND (KBC_PAR_ERR OR KBC_TO_ERR) = 0"

section \<open>Status sequences\<close>

text \<open>
  The world after \<open>i\<close> unsuccessful polls, when each poll reads the status port and then
  waits (\<open>pause\<close>), and what it means that the controller becomes ready after \<open>n\<close> of them.
\<close>

fun polled :: "'w kernel \<Rightarrow> ('w \<Rightarrow> 'w) \<Rightarrow> nat \<Rightarrow> 'w \<Rightarrow> 'w" where
  "polled K pause 0 w = w"
| "polled K pause (Suc i) w = polled K pause i (pause (snd (sys_inb K 0x64 w)))"

definition status_of :: "'w kernel \<Rightarrow> 'w \<Rightarrow> u8" where
  "status_of K w = ucast (snd (fst (sys_inb K 0x64 w)))"

fun ready_after :: "'w kernel \<Rightarrow> ('w \<Rightarrow> 'w) \<Rightarrow> (u8 \<Rightarrow> bool) \<Rightarrow> nat \<Rightarrow> 'w \<Rightarrow> bool" where
  "ready_after K pause ready 0 w \<longleftrightarrow>
     fst (fst (sys_inb K 0x64 w)) = 0 \<and> ready (status_of K w)"
| "ready_after K pause ready (Suc n) w \<longleftrightarrow>
     fst (fst (sys_inb K 0x64 w)) = 0 \<and> \<not> ready (status_of K w) \<and>
     ready_after K pause ready n (pause (snd (sys_inb K 0x64 w)))"

text \<open>The world after the poll that found the controller ready.\<close>

definition ready_world :: "'w kernel \<Rightarrow> ('w \<Rightarrow> 'w) \<Rightarrow> nat \<Rightarrow> 'w \<Rightarrow> 'w" where
  "ready_world K pause n w = snd (sys_inb K 0x64 (polled K pause n w))"

section \<open>The contract of a polling loop\<close>

locale kbc_poller =
  fixes K :: "'w kernel" and pause :: "'w \<Rightarrow> 'w" and ready :: "u8 \<Rightarrow> bool"
    and poll :: "'w \<Rightarrow> 'r option" and go_on :: "u8 \<Rightarrow> 'w \<Rightarrow> 'r option"
    and give_up :: "'w \<Rightarrow> 'r"
  assumes poll_step:
    "poll w = (case sys_inb K 0x64 w of ((r, v), w') \<Rightarrow>
       if r \<noteq> 0 then Some (give_up w')
       else if ready (ucast v) then go_on (ucast v) w' else poll (pause w'))"
begin

lemma poll_fails:
  "fst (fst (sys_inb K 0x64 w)) \<noteq> 0 \<Longrightarrow> poll w = Some (give_up (snd (sys_inb K 0x64 w)))"
  by (simp add: poll_step [of w] split_beta)

lemma poll_ready:
  "ready_after K pause ready n w \<Longrightarrow>
   poll w = go_on (status_of K (polled K pause n w)) (ready_world K pause n w)"
proof (induction n arbitrary: w)
  case 0
  then show ?case
    by (simp add: poll_step [of w] split_beta status_of_def ready_world_def)
next
  case (Suc n)
  then have "poll w = poll (pause (snd (sys_inb K 0x64 w)))"
    by (simp add: poll_step [of w] split_beta status_of_def)
  also have "\<dots> = go_on (status_of K (polled K pause n (pause (snd (sys_inb K 0x64 w)))))
      (ready_world K pause n (pause (snd (sys_inb K 0x64 w))))"
    using Suc by simp
  finally show ?case by (simp add: ready_world_def)
qed

end

section \<open>Lemmas\<close>

lemma util_status_case:
  "(case util_sys_inb K 0x64 old w of ((r, stat), w1) \<Rightarrow> if r \<noteq> 0 then f w1 else g stat w1) =
   (case sys_inb K 0x64 w of ((r, v), w1) \<Rightarrow> if r \<noteq> 0 then f w1 else g (ucast v) w1)"
  by (simp add: util_sys_inb_def split_beta)

lemma polled_traced:
  assumes "io_traced K tr" and "\<And>w. tr (pause w) = tr w"
  shows "tr (polled K pause n w) = tr w"
  using assms by (induction n arbitrary: w) (simp_all add: io_tracedD)

lemma ready_world_traced:
  assumes "io_traced K tr" and "\<And>w. tr (pause w) = tr w"
  shows "tr (ready_world K pause n w) = tr w"
  using assms by (simp add: ready_world_def io_tracedD polled_traced)

end
