(* ===== verification/Keyboard.thy ===== *)
theory Keyboard
  imports I8042
begin

text \<open>
  \<open>proj/src/keyboard.c\<close>: the keyboard driver.  The record holds the file's globals;
  \<open>printf\<close> is the only effect left out.
\<close>

unbundle bit_operations_syntax

record keyboard =
  hook_id_kbd :: int
  scancode :: u8
  bytes :: int
  scancodes :: "u8 list"
  makecode :: bool

definition keyboard_init :: keyboard where
  "keyboard_init = \<lparr>hook_id_kbd = 0, scancode = 0, bytes = 1, scancodes = [0, 0], makecode = False\<rparr>"

text \<open>The result is the return code, \<open>*bit_no\<close> and the driver.\<close>

definition kbc_subscribe :: "'w kernel \<Rightarrow> keyboard \<Rightarrow> 'w \<Rightarrow> (int \<times> u8 \<times> keyboard) \<times> 'w" where
  "kbc_subscribe K k w =
     (let k1 = k\<lparr>hook_id_kbd := 1\<rparr>; bit_no = word_of_int (hook_id_kbd k1) in
      case sys_irqsetpolicy K IRQ1 (IRQ_REENABLE OR IRQ_EXCLUSIVE) (hook_id_kbd k1) w of ((r, h), w') \<Rightarrow>
        ((if r \<noteq> OK then 1 else 0, bit_no, k1\<lparr>hook_id_kbd := h\<rparr>), w'))"

definition kbc_unsubscribe :: "'w kernel \<Rightarrow> keyboard \<Rightarrow> 'w \<Rightarrow> (int \<times> keyboard) \<times> 'w" where
  "kbc_unsubscribe K k w =
     (case sys_irqrmpolicy K (hook_id_kbd k) w of ((r, h), w') \<Rightarrow>
        ((if r \<noteq> OK then 1 else 0, k\<lparr>hook_id_kbd := h\<rparr>), w'))"

text \<open>
  The interrupt handler ignores the results of both reads: after a failed status read
  \<open>st\<close> is indeterminate.  Its two last branches differ in a message only.
\<close>

definition kbc_ih :: "'w kernel \<Rightarrow> keyboard \<Rightarrow> 'w \<Rightarrow> keyboard \<times> 'w" where
  "kbc_ih K k w =
     (case util_sys_inb K 0x64 (indeterminate K w) w of ((_, st), w1) \<Rightarrow>
        if st AND OUT_BUFF \<noteq> 0 then
          (case util_sys_inb K 0x60 (scancode k) w1 of ((_, sc), w2) \<Rightarrow> (k\<lparr>scancode := sc\<rparr>, w2))
        else (k, w1))"

definition printSC :: "'w kernel \<Rightarrow> keyboard \<Rightarrow> 'w \<Rightarrow> bool \<times> keyboard \<times> 'w" where
  "printSC K k w =
     (if scancode k = 0xE0 then
        (False, k\<lparr>scancodes := (scancodes k)[0 := scancode k], bytes := 2\<rparr>, w)
      else
        let k1 = (if scancode k AND 0x80 = 0 then k\<lparr>makecode := True\<rparr> else k);
            k2 = (if bytes k1 = 2 then k1\<lparr>scancodes := (scancodes k1)[1 := scancode k1]\<rparr>
                  else k1\<lparr>scancodes := (scancodes k1)[0 := scancode k1]\<rparr>);
            w1 = kbd_print_scancode K (makecode k2) (word_of_int (bytes k2)) (scancodes k2) w
        in (True, k2\<lparr>bytes := 1, scancodes := (scancodes k2)[0 := 0, 1 := 0], makecode := False\<rparr>, w1))"

partial_function (option) writeCommand :: "'w kernel \<Rightarrow> u8 \<Rightarrow> int \<Rightarrow> 'w \<Rightarrow> (u8 \<times> 'w) option" where
  "writeCommand K cmd port w =
     (case util_sys_inb K STATUS_KBC (indeterminate K w) w of ((r, stat), w1) \<Rightarrow>
        if r \<noteq> 0 then Some (1, w1)
        else if in_free stat then
          (case sys_outb K port cmd w1 of (ro, w2) \<Rightarrow>
             if ro \<noteq> 0 then Some (0, w2)
             else writeCommand K cmd port (tickdelay K (micros_to_ticks K DELAY_US) w2))
        else writeCommand K cmd port (tickdelay K (micros_to_ticks K DELAY_US) w1))"

text \<open>What \<open>readData\<close> does once the output buffer is full.\<close>

definition readData_byte :: "'w kernel \<Rightarrow> keyboard \<Rightarrow> u8 \<Rightarrow> 'w \<Rightarrow> (u8 \<times> keyboard) \<times> 'w" where
  "readData_byte K k stat w =
     (case util_sys_inb K OUTPUT_BUFFER (scancode k) w of ((r, sc), w1) \<Rightarrow>
        if r \<noteq> 0 then ((0, k), w1)
        else if line_ok stat then ((1, k\<lparr>scancode := sc\<rparr>), w1)
        else ((0, k\<lparr>scancode := sc\<rparr>), w1))"

partial_function (option) readData :: "'w kernel \<Rightarrow> keyboard \<Rightarrow> 'w \<Rightarrow> ((u8 \<times> keyboard) \<times> 'w) option" where
  "readData K k w =
     (case util_sys_inb K STATUS_KBC (indeterminate K w) w of ((r, stat), w1) \<Rightarrow>
        if r \<noteq> 0 then Some ((0, k), w1)
        else if out_full stat then Some (readData_byte K k stat w1)
        else readData K k (tickdelay K (micros_to_ticks K DELAY_US) w1))"

definition kbcEnableInterrutpt :: "'w kernel \<Rightarrow> keyboard \<Rightarrow> 'w \<Rightarrow> ((u8 \<times> keyboard) \<times> 'w) option" where
  "kbcEnableInterrutpt K k w =
     (case sys_outb K STATUS_KBC READ_COMMAND w of (r, w1) \<Rightarrow>
      if r \<noteq> 0 then Some ((1, k), w1)
      else (case readData K k w1 of None \<Rightarrow> None
       | Some ((_, k1), w2) \<Rightarrow>
           (case sys_outb K STATUS_KBC WRITE_COMMAND w2 of (r2, w3) \<Rightarrow>
            if r2 \<noteq> 0 then Some ((1, k1), w3)
            else (case sys_outb K INPUT_BUFFER_ARGUMENTS (scancode k1 OR BIT 0) w3 of (r3, w4) \<Rightarrow>
              if r3 \<noteq> 0 then Some ((1, k1), w4) else Some ((0, k1), w4)))))"

section \<open>The polling contract\<close>

interpretation readData_loop: kbc_poller K "tickdelay K (micros_to_ticks K DELAY_US)" out_full
    "readData K k" "\<lambda>stat w. Some (readData_byte K k stat w)" "\<lambda>w. ((0, k), w)"
  for K k
  by unfold_locales
    (subst readData.simps, simp only: STATUS_KBC_def util_status_case)

interpretation kbd_line: irq_line kbc_subscribe kbc_unsubscribe hook_id_kbd
    "\<lambda>h. hook_id_kbd_update (\<lambda>_. h)" IRQ1 "IRQ_REENABLE OR IRQ_EXCLUSIVE" 1
  by unfold_locales (simp_all add: kbc_subscribe_def kbc_unsubscribe_def Let_def OK_def split_beta)

section \<open>Scancode streams\<close>

text \<open>
  A key as the keyboard sends it, the print call it deserves, and the driver fed with one
  byte, as the interrupt loop feeds it.
\<close>

datatype key = Plain u8 | Extended u8

fun key_bytes :: "key \<Rightarrow> u8 list" where
  "key_bytes (Plain b) = [b]"
| "key_bytes (Extended b) = [0xE0, b]"

fun key_code :: "key \<Rightarrow> u8" where
  "key_code (Plain b) = b"
| "key_code (Extended b) = b"

fun print_key :: "'w kernel \<Rightarrow> key \<Rightarrow> 'w \<Rightarrow> 'w" where
  "print_key K (Plain b) w = kbd_print_scancode K (b AND 0x80 = 0) 1 [b, 0] w"
| "print_key K (Extended b) w = kbd_print_scancode K (b AND 0x80 = 0) 2 [0xE0, b] w"

definition feed :: "'w kernel \<Rightarrow> u8 \<Rightarrow> keyboard \<times> 'w \<Rightarrow> keyboard \<times> 'w" where
  "feed K b = (\<lambda>(k, w). snd (printSC K (k\<lparr>scancode := b\<rparr>) w))"

definition kbd_idle :: "keyboard \<Rightarrow> bool" where
  "kbd_idle k \<longleftrightarrow> bytes k = 1 \<and> scancodes k = [0, 0] \<and> \<not> makecode k"

section \<open>Lemmas\<close>

lemma feed_key:
  assumes "kbd_idle k" and "key_code key \<noteq> 0xE0"
  shows "fold (feed K) (key_bytes key) (k, w) = (k\<lparr>scancode := key_code key\<rparr>, print_key K key w)"
  using assms by (cases key) (auto simp: kbd_idle_def feed_def printSC_def Let_def)

text \<open>C27: A stream of one-byte and of \<open>0xE0\<close>-prefixed scancodes fed to \<open>printSC\<close> byte by byte is printed
  key by key, each with its bytes, its length and its make/break flag, and leaves the driver idle.\<close>

lemma scancode_stream_printed:
  assumes "kbd_idle k" and "\<forall>key\<in>set ks. key_code key \<noteq> 0xE0"
  shows "snd (fold (feed K) (concat (map key_bytes ks)) (k, w)) = fold (print_key K) ks w \<and>
    kbd_idle (fst (fold (feed K) (concat (map key_bytes ks)) (k, w)))"
  using assms
proof (induction ks arbitrary: k w)
  case Nil
  then show ?case by simp
next
  case (Cons key ks)
  have "kbd_idle (k\<lparr>scancode := key_code key\<rparr>)"
    using Cons.prems(1) by (simp add: kbd_idle_def)
  with Cons show ?case by (simp add: feed_key)
qed

text \<open>C31: When the status port can be read and every write succeeds, \<open>writeCommand\<close> never returns: it
  leaves its loop only through a failing system call.\<close>

lemma writeCommand_diverges:
  assumes st: "\<And>w. fst (fst (sys_inb K 0x64 w)) = 0" and out: "\<And>p v w. fst (sys_outb K p v w) = 0"
  shows "writeCommand K cmd port w = None"
proof (rule ccontr)
  assume "writeCommand K cmd port w \<noteq> None"
  then obtain y where "writeCommand K cmd port w = Some y" by blast
  then have "(\<forall>w. fst (fst (sys_inb K 0x64 w)) = 0) \<and> (\<forall>p v w. fst (sys_outb K p v w) = 0) \<longrightarrow> False"
  proof (rule writeCommand.raw_induct [where P = "\<lambda>K cmd port w y.
      (\<forall>w. fst (fst (sys_inb K 0x64 w)) = 0) \<and> (\<forall>p v w. fst (sys_outb K p v w) = 0) \<longrightarrow> False", rotated], goal_cases)
    case (1 f K cmd port w y)
    then show ?case
      by (auto simp: util_sys_inb_def STATUS_KBC_def split_beta split: if_splits)
  qed
  with st out show False by blast
qed

text \<open>When the controller delivers its command byte after any number of polls, \<open>kbcEnableInterrutpt\<close>
  succeeds and writes back that byte with the keyboard-interrupt bit set.\<close>

lemma kbcEnable_sequence:
  assumes out: "\<And>p v w. fst (sys_outb K p v w) = 0" and tr: "io_traced K tr"
    and "ready_after K (tickdelay K (micros_to_ticks K DELAY_US)) out_full n (snd (sys_outb K 0x64 0x20 w))"
    and "sys_inb K 0x60 (ready_world K (tickdelay K (micros_to_ticks K DELAY_US)) n (snd (sys_outb K 0x64 0x20 w))) = ((0, c), u)"
  shows "\<exists>k' w'. kbcEnableInterrutpt K k w = Some ((0, k'), w') \<and>
    tr w' = tr w @ [(0x64, 0x20), (0x64, 0x60), (0x60, ucast c OR 1)]"
proof -
  let ?p = "tickdelay K (micros_to_ticks K DELAY_US)"
  have t1: "tr u = tr w @ [(0x64, 0x20)]"
    using assms(4) io_tracedD [OF tr] ready_world_traced [OF tr, of ?p] by (metis snd_conv)
  have "\<exists>r. readData K k (snd (sys_outb K 0x64 0x20 w)) = Some ((r, k\<lparr>scancode := ucast c\<rparr>), u)"
    using readData_loop.poll_ready [OF assms(3), of k] assms(4)
    by (simp add: readData_byte_def util_sys_inb_def OUTPUT_BUFFER_def)
  then show ?thesis
    using t1 out io_tracedD(1) [OF tr]
    by (auto simp: kbcEnableInterrutpt_def split_beta i8042_ports i8042_cmds BIT_def)
qed

text \<open>An environment that records each printed byte with its make flag.\<close>

definition printing_kernel :: "sim kernel" where
  "printing_kernel = sim_kernel\<lparr>kbd_print_scancode := (\<lambda>mk n bs w.
     w\<lparr>sim_out := sim_out w @ map (\<lambda>b. (if mk then 1 else 0, b)) (take (unat n) bs)\<rparr>)\<rparr>"

theorem scancode_stream_printed_witness:
  "sim_out (snd (fold (feed printing_kernel) [0x1C, 0xE0, 0x4B, 0xE0, 0xCB, 0x9C] (keyboard_init, sim0))) =
     [(1, 0x1C), (1, 0xE0), (1, 0x4B), (0, 0xE0), (0, 0xCB), (0, 0x9C)] \<and>
   kbd_idle (fst (fold (feed printing_kernel) [0x1C, 0xE0, 0x4B, 0xE0, 0xCB, 0x9C] (keyboard_init, sim0)))"
proof -
  let ?ks = "[Plain 0x1C, Extended 0x4B, Extended 0xCB, Plain 0x9C]"
  have p: "sim_out (fold (print_key printing_kernel) ?ks sim0) = [(1, 0x1C), (1, 0xE0), (1, 0x4B), (0, 0xE0), (0, 0xCB), (0, 0x9C)]"
    by code_simp
  show ?thesis
    using scancode_stream_printed [of keyboard_init ?ks printing_kernel sim0] p by (simp add: kbd_idle_def keyboard_init_def)
qed

theorem writeCommand_diverges_witness:
  "writeCommand (sim_kernel\<lparr>sys_inb := (\<lambda>p w. ((0, 0), w))\<rparr>) 0xAE 0x64 sim0 = None"
  by (rule writeCommand_diverges) (simp_all add: sim_kernel_def)

theorem kbcEnable_sequence_witness:
  "\<exists>k' w'. kbcEnableInterrutpt sim_kernel keyboard_init (sim0\<lparr>sim_in := [(0, 0), (0, 0x11), (0, 0x46)]\<rparr>) = Some ((0, k'), w') \<and>
    sim_out w' = [(0x64, 0x20), (0x64, 0x60), (0x60, 0x47)]"
proof -
  have "\<exists>k' w'. kbcEnableInterrutpt sim_kernel keyboard_init (sim0\<lparr>sim_in := [(0, 0), (0, 0x11), (0, 0x46)]\<rparr>) = Some ((0, k'), w') \<and>
    sim_out w' = sim_out (sim0\<lparr>sim_in := [(0, 0), (0, 0x11), (0, 0x46)]\<rparr>) @
      [(0x64, 0x20), (0x64, 0x60), (0x60, ucast (0x46 :: u32) OR 1)]"
    by (rule kbcEnable_sequence [OF _ sim_kernel_traced,
          where n = 1 and u = "sim0\<lparr>sim_out := [(0x64, 0x20)]\<rparr>"])
      (simp_all add: sim_kernel_simps sim0_def ready_world_def status_of_def out_full_def i8042_bits)
  then show ?thesis by (simp add: sim0_def)
qed

end
