(* ===== verification/Mouse_Driver.thy ===== *)
theory Mouse_Driver
  imports I8042
begin

text \<open>
  \<open>proj/src/mouse.c\<close>: the PS/2 mouse driver.  The interrupt handler reads one byte per
  interrupt; \<open>print_mouse_packet\<close> synchronises on the first byte and assembles three
  bytes into a packet; commands go through \<open>write_argument_to_mouse\<close>.
\<close>

unbundle bit_operations_syntax

record mouse_driver =
  packet1 :: packet
  read_packet :: u8
  is_sync :: bool
  counter :: int
  hook_id_mouse :: int
  total_packets :: u32
  reading_error :: bool

definition packet_zero :: packet where
  "packet_zero = \<lparr>pkt_bytes = [0, 0, 0], rb = False, mb = False, lb = False,
     delta_x = 0, delta_y = 0, x_ov = False, y_ov = False\<rparr>"

definition mouse_driver_init :: mouse_driver where
  "mouse_driver_init = \<lparr>packet1 = packet_zero, read_packet = 0, is_sync = False, counter = 0,
     hook_id_mouse = 0, total_packets = 0, reading_error = False\<rparr>"

definition mouse_subscribe :: "'w kernel \<Rightarrow> mouse_driver \<Rightarrow> 'w \<Rightarrow> (int \<times> u8 \<times> mouse_driver) \<times> 'w" where
  "mouse_subscribe K d w =
     (let d1 = d\<lparr>hook_id_mouse := 2\<rparr>; bit_no = word_of_int (hook_id_mouse d1) in
      case sys_irqsetpolicy K IRQ12 (IRQ_REENABLE OR IRQ_EXCLUSIVE) (hook_id_mouse d1) w of ((r, h), w') \<Rightarrow>
        ((if r \<noteq> 0 then 1 else 0, bit_no, d1\<lparr>hook_id_mouse := h\<rparr>), w'))"

definition mouse_unsubscribe :: "'w kernel \<Rightarrow> mouse_driver \<Rightarrow> 'w \<Rightarrow> (int \<times> mouse_driver) \<times> 'w" where
  "mouse_unsubscribe K d w =
     (case sys_irqrmpolicy K (hook_id_mouse d) w of ((r, h), w') \<Rightarrow>
        ((if r \<noteq> OK then 1 else 0, d\<lparr>hook_id_mouse := h\<rparr>), w'))"

text \<open>
  \<open>write_argument_to_mouse\<close>: its first loop waits for a free input buffer and issues
  \<open>0xD4\<close>; its second one sends the argument and repeats until the byte read back is the
  acknowledgement.
\<close>

definition issue_command :: "'w kernel \<Rightarrow> 'w \<Rightarrow> int \<times> 'w" where
  "issue_command K w =
     (case sys_outb K INPUT_BUFFER_COMMANDS ISSUE_COMMAND_TO_THE_MOUSE w of (r, w1) \<Rightarrow>
        (if r \<noteq> 0 then 1 else 0, w1))"

partial_function (option) issue_loop :: "'w kernel \<Rightarrow> 'w \<Rightarrow> (int \<times> 'w) option" where
  "issue_loop K w =
     (case util_sys_inb K STATUS_REGISTER (indeterminate K w) w of ((r, status), w1) \<Rightarrow>
        if r \<noteq> 0 then Some (1, w1)
        else if in_free status then Some (issue_command K w1)
        else issue_loop K w1)"

partial_function (option) argument_loop :: "'w kernel \<Rightarrow> u8 \<Rightarrow> 'w \<Rightarrow> (int \<times> 'w) option" where
  "argument_loop K argument w =
     (case util_sys_inb K STATUS_REGISTER (indeterminate K w) w of ((r, status), w1) \<Rightarrow>
        if r \<noteq> 0 then Some (1, w1)
        else if in_free status then
          (case sys_outb K INPUT_BUFFER_ARGUMENTS argument w1 of (ro, w2) \<Rightarrow>
             if ro \<noteq> 0 then Some (1, w2)
             else (case util_sys_inb K OUTPUT_BUFFER (indeterminate K w2) w2 of ((ra, acknow), w3) \<Rightarrow>
               if ra \<noteq> 0 then Some (1, w3)
               else if acknow = IS_OK then Some (0, w3)
               else argument_loop K argument w3))
        else argument_loop K argument w1)"

definition write_argument_to_mouse :: "'w kernel \<Rightarrow> u8 \<Rightarrow> 'w \<Rightarrow> (int \<times> 'w) option" where
  "write_argument_to_mouse K argument w =
     (case issue_loop K w of None \<Rightarrow> None
      | Some (r, w1) \<Rightarrow> if r \<noteq> 0 then Some (1, w1) else argument_loop K argument w1)"

text \<open>\<open>enable_mouse_data\<close> and \<open>disable_mouse_data\<close> send two commands each.\<close>

definition enable_mouse_data :: "'w kernel \<Rightarrow> 'w \<Rightarrow> (int \<times> 'w) option" where
  "enable_mouse_data K w =
     (case write_argument_to_mouse K SET_STREAM_MODE w of None \<Rightarrow> None
      | Some (r, w1) \<Rightarrow> if r \<noteq> 0 then Some (1, w1) else
        (case write_argument_to_mouse K ENABLE_MOUSE_DATA w1 of None \<Rightarrow> None
         | Some (r2, w2) \<Rightarrow> if r2 \<noteq> 0 then Some (1, w2) else Some (0, w2)))"

definition disable_mouse_data :: "'w kernel \<Rightarrow> 'w \<Rightarrow> (int \<times> 'w) option" where
  "disable_mouse_data K w =
     (case write_argument_to_mouse K DISABLE_MOUSE_DATA w of None \<Rightarrow> None
      | Some (r, w1) \<Rightarrow> if r \<noteq> 0 then Some (1, w1) else
        (case write_argument_to_mouse K SET_STREAM_MODE w1 of None \<Rightarrow> None
         | Some (r2, w2) \<Rightarrow> if r2 \<noteq> 0 then Some (1, w2) else Some (0, w2)))"

definition kbc_read_byte :: "'w kernel \<Rightarrow> mouse_driver \<Rightarrow> u8 \<Rightarrow> 'w \<Rightarrow> (int \<times> mouse_driver) \<times> 'w" where
  "kbc_read_byte K d stat w =
     (case util_sys_inb K OUTPUT_BUFFER (read_packet d) w of ((r, b), w1) \<Rightarrow>
        if r \<noteq> OK then ((1, d), w1)
        else if line_ok stat then ((0, d\<lparr>read_packet := b\<rparr>), w1)
        else ((1, d\<lparr>read_packet := b\<rparr>), w1))"

partial_function (option) kbc_read :: "'w kernel \<Rightarrow> mouse_driver \<Rightarrow> 'w \<Rightarrow> ((int \<times> mouse_driver) \<times> 'w) option" where
  "kbc_read K d w =
     (case util_sys_inb K STATUS_REGISTER (indeterminate K w) w of ((r, stat), w1) \<Rightarrow>
        if r \<noteq> 0 then Some ((1, d), w1)
        else if out_full stat then Some (kbc_read_byte K d stat w1)
        else kbc_read K d w1)"

text \<open>Leaving the loop of \<open>mouse_ih\<close> by \<open>break\<close> reaches its last two statements.\<close>

definition mouse_ih_broken :: "mouse_driver \<Rightarrow> mouse_driver" where
  "mouse_ih_broken d = d\<lparr>reading_error := True, counter := counter d + 1\<rparr>"

definition mouse_ih_byte :: "'w kernel \<Rightarrow> mouse_driver \<Rightarrow> u8 \<Rightarrow> 'w \<Rightarrow> mouse_driver \<times> 'w" where
  "mouse_ih_byte K d stat w =
     (case util_sys_inb K OUTPUT_BUFFER (read_packet d) w of ((r, b), w1) \<Rightarrow>
        let d1 = d\<lparr>read_packet := b\<rparr> in
        if r \<noteq> 0 then (mouse_ih_broken d, w1)
        else if line_ok stat then
          (if reading_error d1 then d1\<lparr>counter := counter d1 + 1\<rparr> else d1, w1)
        else (mouse_ih_broken d1, w1))"

partial_function (option) mouse_ih :: "'w kernel \<Rightarrow> mouse_driver \<Rightarrow> 'w \<Rightarrow> (mouse_driver \<times> 'w) option" where
  "mouse_ih K d w =
     (case util_sys_inb K STATUS_REGISTER (indeterminate K w) w of ((r, stat), w1) \<Rightarrow>
        if r \<noteq> 0 then Some (mouse_ih_broken d, w1)
        else if out_full stat then Some (mouse_ih_byte K d stat w1)
        else mouse_ih K d (tickdelay K (micros_to_ticks K WAIT_KBC) w1))"

text \<open>The third byte: the fields of \<open>packet1\<close> in the order the code assigns them.\<close>

definition parse_packet :: "packet \<Rightarrow> packet" where
  "parse_packet p =
     (let b0 = pkt_bytes p ! 0; b1 = pkt_bytes p ! 1; b2 = pkt_bytes p ! 2 in
      p\<lparr>y_ov := (b0 AND 0x80 \<noteq> 0),
        x_ov := (b0 AND 0x40 \<noteq> 0),
        delta_y := (if b0 AND 0x20 \<noteq> 0 then uint b2 - 256 else uint b2),
        delta_x := (if b0 AND 0x10 \<noteq> 0 then uint b1 - 256 else uint b1),
        mb := (b0 AND 0x04 \<noteq> 0),
        rb := (b0 AND 0x02 \<noteq> 0),
        lb := (b0 AND 0x01 \<noteq> 0)\<rparr>)"

definition store_byte :: "mouse_driver \<Rightarrow> nat \<Rightarrow> mouse_driver" where
  "store_byte d i =
     d\<lparr>packet1 := (packet1 d)\<lparr>pkt_bytes := (pkt_bytes (packet1 d))[i := read_packet d]\<rparr>\<rparr>"

definition print_mouse_packet :: "mouse_driver \<Rightarrow> mouse_driver" where
  "print_mouse_packet d =
     (if \<not> is_sync d \<and> read_packet d AND 0x08 = 0 then d
      else let d1 = (if \<not> is_sync d then d\<lparr>is_sync := True\<rparr> else d) in
        if counter d1 = 0 then (store_byte d1 0)\<lparr>counter := counter d1 + 1\<rparr>
        else if counter d1 = 1 then (store_byte d1 1)\<lparr>counter := counter d1 + 1\<rparr>
        else if counter d1 = 2 then
          (let d2 = (store_byte d1 2)\<lparr>counter := 0\<rparr> in
           d2\<lparr>packet1 := parse_packet (packet1 d2), total_packets := total_packets d2 + 1\<rparr>)
        else d1)"

text \<open>
  What the interrupt loops do with a mouse interrupt after the handler ran
  (\<open>proj.c\<close>, and \<open>lab4.c\<close> in each of its tests): whether the packet routine is called, or
  the rest of the iteration is skipped by \<open>continue\<close>.
\<close>

datatype mouse_event = Skip_Iteration | Error_Cleared | Byte_Accepted

definition mouse_dispatch :: "mouse_driver \<Rightarrow> mouse_event \<times> mouse_driver" where
  "mouse_dispatch d =
     (if reading_error d \<and> counter d \<noteq> 2 then (Skip_Iteration, d)
      else if reading_error d \<and> counter d = 2 then (Error_Cleared, d\<lparr>reading_error := False\<rparr>)
      else (Byte_Accepted, print_mouse_packet d))"

section \<open>Reference definitions\<close>

text \<open>What \<open>argument_loop\<close> does once the input buffer is free.\<close>

definition send_argument :: "'w kernel \<Rightarrow> u8 \<Rightarrow> 'w \<Rightarrow> (int \<times> 'w) option" where
  "send_argument K argument w =
     (case sys_outb K INPUT_BUFFER_ARGUMENTS argument w of (ro, w2) \<Rightarrow>
        if ro \<noteq> 0 then Some (1, w2)
        else (case util_sys_inb K OUTPUT_BUFFER (indeterminate K w2) w2 of ((ra, acknow), w3) \<Rightarrow>
          if ra \<noteq> 0 then Some (1, w3)
          else if acknow = IS_OK then Some (0, w3)
          else argument_loop K argument w3))"

text \<open>
  A responsive controller: port writes succeed, the input buffer frees after finitely
  many polls, and the byte read back after an argument is the acknowledgement.
\<close>

definition kbc_responsive :: "'w kernel \<Rightarrow> bool" where
  "kbc_responsive K \<longleftrightarrow>
     (\<forall>p v w. fst (sys_outb K p v w) = 0) \<and>
     (\<forall>w. \<exists>n. ready_after K id in_free n w) \<and>
     (\<forall>a w. fst (sys_inb K 0x60 (snd (sys_outb K 0x60 a w))) = (0, 0xFA))"

definition ack_kernel :: "sim kernel" where
  "ack_kernel = sim_kernel\<lparr>sys_inb := (\<lambda>p w. ((0, if p = 0x60 then 0xFA else 0), w))\<rparr>"

text \<open>The driver after one good byte, and the bytes a PS/2 mouse sends for a movement.\<close>

definition accept_byte :: "u8 \<Rightarrow> mouse_driver \<Rightarrow> mouse_driver" where
  "accept_byte b d = snd (mouse_dispatch (d\<lparr>read_packet := b\<rparr>))"

definition ps2_header :: "bool \<Rightarrow> bool \<Rightarrow> bool \<Rightarrow> int \<Rightarrow> int \<Rightarrow> u8" where
  "ps2_header l r m dx dy =
     0x08 OR (if l then 0x01 else 0) OR (if r then 0x02 else 0) OR (if m then 0x04 else 0)
       OR (if dx < 0 then 0x10 else 0) OR (if dy < 0 then 0x20 else 0)"

record ps2_event =
  ev_l :: bool
  ev_r :: bool
  ev_m :: bool
  ev_dx :: int
  ev_dy :: int

definition ps2_packet :: "ps2_event \<Rightarrow> u8 list" where
  "ps2_packet e = [ps2_header (ev_l e) (ev_r e) (ev_m e) (ev_dx e) (ev_dy e),
     word_of_int (ev_dx e), word_of_int (ev_dy e)]"

definition in_range :: "ps2_event \<Rightarrow> bool" where
  "in_range e \<longleftrightarrow> -256 \<le> ev_dx e \<and> ev_dx e \<le> 255 \<and> -256 \<le> ev_dy e \<and> ev_dy e \<le> 255"

text \<open>The record the packet of an event is decoded to.\<close>

definition decoded :: "ps2_event \<Rightarrow> packet \<Rightarrow> packet" where
  "decoded e p = p\<lparr>pkt_bytes := ps2_packet e, rb := ev_r e, mb := ev_m e, lb := ev_l e,
     delta_x := ev_dx e, delta_y := ev_dy e, x_ov := False, y_ov := False\<rparr>"

text \<open>One mouse interrupt; the world may change in any way before the next one.\<close>

inductive mouse_irq :: "'w kernel \<Rightarrow> mouse_driver \<times> 'w \<Rightarrow> mouse_driver \<times> 'w \<Rightarrow> bool" for K where
  mouse_irqI: "mouse_ih K d w = Some (d1, w1) \<Longrightarrow> mouse_dispatch d1 = (ev, d2) \<Longrightarrow>
     mouse_irq K (d, w) (d2, w2)"

inductive_cases mouse_irqE: "mouse_irq K (d, w) (d2, w2)"

definition wedged :: "mouse_driver \<Rightarrow> bool" where
  "wedged d \<longleftrightarrow> reading_error d \<and> counter d \<ge> 3"

definition assembling :: "mouse_driver \<Rightarrow> bool" where
  "assembling d \<longleftrightarrow> \<not> reading_error d \<and> counter d \<in> {0, 1, 2} \<and> length (pkt_bytes (packet1 d)) = 3"

section \<open>The polling loops\<close>

interpretation issue: kbc_poller K id in_free "issue_loop K"
    "\<lambda>_ w. Some (issue_command K w)" "\<lambda>w. (1, w)" for K
  by unfold_locales
    (subst issue_loop.simps, simp only: STATUS_REGISTER_def util_status_case id_apply)

interpretation argument: kbc_poller K id in_free "argument_loop K a"
    "\<lambda>_. send_argument K a" "\<lambda>w. (1, w)" for K a
  by unfold_locales
    (subst argument_loop.simps, simp only: STATUS_REGISTER_def util_status_case send_argument_def id_apply)

interpretation kbc_read_loop: kbc_poller K id out_full "kbc_read K d"
    "\<lambda>stat w. Some (kbc_read_byte K d stat w)" "\<lambda>w. ((1, d), w)" for K d
  by unfold_locales
    (subst kbc_read.simps, simp only: STATUS_REGISTER_def util_status_case id_apply)

interpretation mouse_ih_loop: kbc_poller K "tickdelay K (micros_to_ticks K WAIT_KBC)" out_full "mouse_ih K d"
    "\<lambda>stat w. Some (mouse_ih_byte K d stat w)" "\<lambda>w. (mouse_ih_broken d, w)" for K d
  by unfold_locales
    (subst mouse_ih.simps, simp only: STATUS_REGISTER_def util_status_case)

interpretation mouse_line: irq_line mouse_subscribe mouse_unsubscribe hook_id_mouse
    "\<lambda>h. hook_id_mouse_update (\<lambda>_. h)" IRQ12 "IRQ_REENABLE OR IRQ_EXCLUSIVE" 2
  by unfold_locales (simp_all add: mouse_subscribe_def mouse_unsubscribe_def Let_def OK_def split_beta)

section \<open>What the commands leave alone\<close>

lemma ports_quietD:
  assumes "ports_quiet K obs"
  shows "obs (snd (sys_inb K p w)) = obs w" "obs (snd (sys_outb K p v w)) = obs w" "obs (tickdelay K t w) = obs w"
    "obs (snd (util_sys_inb K p b w)) = obs w"
  using assms by (simp_all add: ports_quiet_def util_sys_inb_def split_beta)

lemma mouse_ih_quiet:
  assumes "ports_quiet K obs" and "mouse_ih K d w = Some y"
  shows "obs (snd y) = obs w"
  using mouse_ih.raw_induct [where P = "\<lambda>K d w y. ports_quiet K obs \<longrightarrow> obs (snd y) = obs w", OF _ assms(2)] assms(1)
  by (fastforce simp: split_beta ports_quietD mouse_ih_byte_def Let_def split: if_splits)

lemma issue_loop_quiet:
  assumes "ports_quiet K obs" and "issue_loop K w = Some y"
  shows "obs (snd y) = obs w"
  using issue_loop.raw_induct [where P = "\<lambda>K w y. ports_quiet K obs \<longrightarrow> obs (snd y) = obs w", OF _ assms(2)] assms(1)
  by (fastforce simp: split_beta ports_quietD issue_command_def split: if_splits)

lemma argument_loop_quiet:
  assumes "ports_quiet K obs" and "argument_loop K a w = Some y"
  shows "obs (snd y) = obs w"
  using argument_loop.raw_induct [where P = "\<lambda>K a w y. ports_quiet K obs \<longrightarrow> obs (snd y) = obs w", OF _ assms(2)] assms(1)
  by (fastforce simp: split_beta ports_quietD split: if_splits)

lemma mouse_data_quiet:
  assumes "ports_quiet K obs"
  shows "disable_mouse_data K w = Some y \<Longrightarrow> obs (snd y) = obs w" "enable_mouse_data K w = Some y \<Longrightarrow> obs (snd y) = obs w"
proof -
  have arg: "obs (snd y) = obs u" if "write_argument_to_mouse K a u = Some y" for a u y
    using that by (auto simp: write_argument_to_mouse_def dest!: issue_loop_quiet [OF assms] argument_loop_quiet [OF assms]
        split: option.splits if_splits)
  show "disable_mouse_data K w = Some y \<Longrightarrow> obs (snd y) = obs w" "enable_mouse_data K w = Some y \<Longrightarrow> obs (snd y) = obs w"
    by (auto simp: disable_mouse_data_def enable_mouse_data_def dest!: arg split: option.splits if_splits)
qed

section \<open>Commands\<close>

lemma ack_kernel_responsive: "kbc_responsive ack_kernel"
proof -
  have "ready_after ack_kernel id in_free 0 w" for w
    by (simp add: ack_kernel_def sim_kernel_def status_of_def in_free_def)
  then have "\<exists>n. ready_after ack_kernel id in_free n w" for w
    by blast
  then show ?thesis
    by (simp add: kbc_responsive_def) (simp add: ack_kernel_def sim_kernel_def)
qed

lemma kbc_responsiveD:
  assumes "kbc_responsive K"
  shows "fst (sys_outb K p v w) = 0" "\<exists>n. ready_after K id in_free n w"
    "fst (sys_inb K 0x60 (snd (sys_outb K 0x60 a w))) = (0, 0xFA)"
  using assms unfolding kbc_responsive_def by blast+

lemma ack_kernel_traced: "io_traced ack_kernel sim_out"
  by (simp add: io_traced_def ack_kernel_def sim_kernel_def)

lemma issue_loop_responsive:
  assumes K: "kbc_responsive K" and tr: "io_traced K tr"
  shows "\<exists>w'. issue_loop K w = Some (0, w') \<and> tr w' = tr w @ [(0x64, 0xD4)]"
proof -
  obtain n where "ready_after K id in_free n w"
    using kbc_responsiveD(2) [OF K] by blast
  then have "issue_loop K w = Some (issue_command K (ready_world K id n w))"
    by (rule issue.poll_ready)
  moreover have "tr (ready_world K id n w) = tr w"
    by (rule ready_world_traced [OF tr]) simp
  ultimately show ?thesis
    using kbc_responsiveD(1) [OF K] io_tracedD(1) [OF tr]
    by (simp add: issue_command_def split_beta i8042_ports i8042_cmds)
qed

lemma argument_loop_responsive:
  assumes K: "kbc_responsive K" and tr: "io_traced K tr"
  shows "\<exists>w'. argument_loop K a w = Some (0, w') \<and> tr w' = tr w @ [(0x60, a)]"
proof -
  obtain n where n: "ready_after K id in_free n w"
    using kbc_responsiveD(2) [OF K] by blast
  let ?w = "ready_world K id n w"
  have "argument_loop K a w = send_argument K a ?w"
    using n by (rule argument.poll_ready)
  moreover have "fst (sys_outb K 0x60 a ?w) = 0"
    and ack: "fst (sys_inb K 0x60 (snd (sys_outb K 0x60 a ?w))) = (0, 0xFA)"
    using kbc_responsiveD [OF K] by blast+
  moreover have "util_sys_inb K 0x60 old (snd (sys_outb K 0x60 a ?w)) =
      ((0, 0xFA), snd (sys_inb K 0x60 (snd (sys_outb K 0x60 a ?w))))" for old
    using ack by (simp add: util_sys_inb_def split_beta)
  moreover have "tr ?w = tr w"
    by (rule ready_world_traced [OF tr]) simp
  ultimately show ?thesis
    using io_tracedD(1,2) [OF tr]
    by (simp add: send_argument_def split_beta i8042_ports i8042_cmds)
qed

lemma write_argument_responsive:
  assumes "kbc_responsive K" and "io_traced K tr"
  shows "\<exists>w'. write_argument_to_mouse K a w = Some (0, w') \<and> tr w' = tr w @ [(0x64, 0xD4), (0x60, a)]"
proof -
  from issue_loop_responsive [OF assms] obtain w1
    where w1: "issue_loop K w = Some (0, w1)" "tr w1 = tr w @ [(0x64, 0xD4)]" by blast
  from argument_loop_responsive [OF assms] obtain w2
    where "argument_loop K a w1 = Some (0, w2)" "tr w2 = tr w1 @ [(0x60, a)]" by blast
  with w1 show ?thesis by (simp add: write_argument_to_mouse_def)
qed

lemma two_arguments_responsive:
  assumes "kbc_responsive K" and "io_traced K tr"
  shows "\<exists>w1 w2. write_argument_to_mouse K a w = Some (0, w1) \<and> write_argument_to_mouse K b w1 = Some (0, w2) \<and>
    tr w2 = tr w @ [(0x64, 0xD4), (0x60, a), (0x64, 0xD4), (0x60, b)]"
proof -
  from write_argument_responsive [OF assms] obtain w1
    where 1: "write_argument_to_mouse K a w = Some (0, w1)" "tr w1 = tr w @ [(0x64, 0xD4), (0x60, a)]" by blast
  from write_argument_responsive [OF assms] obtain w2
    where "write_argument_to_mouse K b w1 = Some (0, w2)" "tr w2 = tr w1 @ [(0x64, 0xD4), (0x60, b)]" by blast
  with 1 show ?thesis by auto
qed

lemma enable_responsive:
  assumes "kbc_responsive K" and "io_traced K tr"
  shows "\<exists>w'. enable_mouse_data K w = Some (0, w')"
  using two_arguments_responsive [OF assms, of "0xEA" w "0xF4"] by (auto simp: enable_mouse_data_def i8042_cmds)

lemma disable_responsive:
  assumes "kbc_responsive K" and "io_traced K tr"
  shows "\<exists>w'. disable_mouse_data K w = Some (0, w') \<and>
    tr w' = tr w @ [(0x64, 0xD4), (0x60, 0xF5), (0x64, 0xD4), (0x60, 0xEA)]"
  using two_arguments_responsive [OF assms, of "0xF5" w "0xEA"] by (auto simp: disable_mouse_data_def i8042_cmds)

section \<open>Packets\<close>

lemma header_bits:
  "ps2_header l r m dx dy AND 0x08 \<noteq> 0"
  "ps2_header l r m dx dy AND 0x01 \<noteq> 0 \<longleftrightarrow> l"
  "ps2_header l r m dx dy AND 0x02 \<noteq> 0 \<longleftrightarrow> r"
  "ps2_header l r m dx dy AND 0x04 \<noteq> 0 \<longleftrightarrow> m"
  "ps2_header l r m dx dy AND 0x10 \<noteq> 0 \<longleftrightarrow> dx < 0"
  "ps2_header l r m dx dy AND 0x20 \<noteq> 0 \<longleftrightarrow> dy < 0"
  "ps2_header l r m dx dy AND 0x40 = 0"
  "ps2_header l r m dx dy AND 0x80 = 0"
  by (auto simp: ps2_header_def)

lemma signed9:
  assumes "-256 \<le> n" and "n \<le> 255"
  shows "(if n < 0 then uint (word_of_int n :: u8) - 256 else uint (word_of_int n :: u8)) = n"
proof (cases "n < 0")
  case True
  have "n mod 256 = (n + 256) mod 256" by simp
  also have "\<dots> = n + 256" using True assms by (intro mod_pos_pos_trivial) auto
  finally show ?thesis using True by (simp add: uint_word_of_int)
next
  case False
  then have "n mod 256 = n" using assms by (intro mod_pos_pos_trivial) auto
  then show ?thesis using False by (simp add: uint_word_of_int)
qed

lemma accept_assembling: "assembling d \<Longrightarrow> assembling (accept_byte b d)"
  by (auto simp: assembling_def accept_byte_def mouse_dispatch_def print_mouse_packet_def
      store_byte_def parse_packet_def Let_def)

lemma uint_u8_above: "- 256 \<le> uint (b :: u8)"
  using uint_u8_bound(2) [of b] by linarith

lemma parse_packet_bounds:
  "-256 \<le> delta_x (parse_packet p) \<and> delta_x (parse_packet p) \<le> 255"
  "-256 \<le> delta_y (parse_packet p) \<and> delta_y (parse_packet p) \<le> 255"
  using uint_u8_bound(1) [of "pkt_bytes p ! 1"] uint_u8_bound(1) [of "pkt_bytes p ! 2"]
  by (simp_all add: parse_packet_def Let_def uint_u8_above)

text \<open>One good byte at each of the three positions of a packet.\<close>

lemma accept_at:
  assumes "\<not> reading_error d"
  shows "counter d = 0 \<Longrightarrow> b AND 0x08 \<noteq> 0 \<Longrightarrow> accept_byte b d =
      d\<lparr>read_packet := b, is_sync := True, packet1 := (packet1 d)\<lparr>pkt_bytes := (pkt_bytes (packet1 d))[0 := b]\<rparr>, counter := 1\<rparr>"
    and "counter d = 1 \<Longrightarrow> is_sync d \<Longrightarrow> accept_byte b d =
      d\<lparr>read_packet := b, packet1 := (packet1 d)\<lparr>pkt_bytes := (pkt_bytes (packet1 d))[1 := b]\<rparr>, counter := 2\<rparr>"
    and "counter d = 2 \<Longrightarrow> is_sync d \<Longrightarrow> accept_byte b d =
      d\<lparr>read_packet := b, packet1 := parse_packet ((packet1 d)\<lparr>pkt_bytes := (pkt_bytes (packet1 d))[2 := b]\<rparr>),
        counter := 0, total_packets := total_packets d + 1\<rparr>"
  using assms by (simp_all add: accept_byte_def mouse_dispatch_def print_mouse_packet_def store_byte_def Let_def)

lemma three_bytes:
  assumes "assembling d" and "counter d = 0" and "b0 AND 0x08 \<noteq> 0"
  shows "accept_byte b2 (accept_byte b1 (accept_byte b0 d)) =
    d\<lparr>read_packet := b2, is_sync := True,
      packet1 := parse_packet ((packet1 d)\<lparr>pkt_bytes := [b0, b1, b2]\<rparr>),
      total_packets := total_packets d + 1\<rparr>"
proof -
  obtain x y z where p: "pkt_bytes (packet1 d) = [x, y, z]"
    using assms(1) by (auto simp: assembling_def length_Suc_conv numeral_3_eq_3)
  have e: "\<not> reading_error d" using assms(1) by (simp add: assembling_def)
  have "accept_byte b0 d = d\<lparr>read_packet := b0, is_sync := True, packet1 := (packet1 d)\<lparr>pkt_bytes := [b0, y, z]\<rparr>, counter := 1\<rparr>"
    using accept_at(1) [OF e assms(2,3)] by (simp add: p)
  then show ?thesis using e assms(2) by (simp add: accept_at)
qed

lemma parse_ps2_packet:
  "in_range e \<Longrightarrow> parse_packet (p\<lparr>pkt_bytes := ps2_packet e\<rparr>) = decoded e p"
  using signed9 [of "ev_dx e"] signed9 [of "ev_dy e"]
  by (simp add: in_range_def parse_packet_def decoded_def Let_def ps2_packet_def header_bits)

lemma one_event:
  assumes "assembling d" and "counter d = 0" and "in_range e"
  shows "fold accept_byte (ps2_packet e) d =
    d\<lparr>read_packet := word_of_int (ev_dy e), is_sync := True,
      packet1 := decoded e (packet1 d), total_packets := total_packets d + 1\<rparr>"
proof -
  have "fold accept_byte (ps2_packet e) d =
    d\<lparr>read_packet := word_of_int (ev_dy e), is_sync := True,
      packet1 := parse_packet ((packet1 d)\<lparr>pkt_bytes := ps2_packet e\<rparr>),
      total_packets := total_packets d + 1\<rparr>"
    using three_bytes [OF assms(1,2) header_bits(1)] by (simp add: ps2_packet_def)
  then show ?thesis by (simp add: parse_ps2_packet assms(3))
qed

lemma event_stream:
  assumes "assembling d" and "counter d = 0" and "\<forall>e\<in>set es. in_range e"
  shows "assembling (fold accept_byte (concat (map ps2_packet es)) d) \<and>
    counter (fold accept_byte (concat (map ps2_packet es)) d) = 0 \<and>
    total_packets (fold accept_byte (concat (map ps2_packet es)) d) = total_packets d + of_nat (length es)"
  using assms
proof (induction es arbitrary: d)
  case Nil
  then show ?case by simp
next
  case (Cons e es)
  let ?d = "fold accept_byte (ps2_packet e) d"
  have d: "?d = d\<lparr>read_packet := word_of_int (ev_dy e), is_sync := True,
      packet1 := decoded e (packet1 d), total_packets := total_packets d + 1\<rparr>"
    using Cons.prems by (intro one_event) auto
  then have "assembling ?d" "counter ?d = 0"
    using Cons.prems by (simp_all add: assembling_def decoded_def ps2_packet_def)
  from Cons.IH [OF this] Cons.prems(3) d show ?case
    by (simp add: add.assoc)
qed

section \<open>Errors\<close>

definition irq_outcome :: "mouse_driver \<Rightarrow> mouse_driver \<Rightarrow> bool" where
  "irq_outcome d d1 \<longleftrightarrow> (\<exists>b. d1 = mouse_ih_broken d \<or> d1 = mouse_ih_broken (d\<lparr>read_packet := b\<rparr>) \<or>
     d1 = (if reading_error d then d\<lparr>read_packet := b, counter := counter d + 1\<rparr> else d\<lparr>read_packet := b\<rparr>))"

lemma mouse_ih_byte_outcome: "irq_outcome d (fst (mouse_ih_byte K d stat w))"
  by (auto simp: irq_outcome_def mouse_ih_byte_def split_beta Let_def)

lemma mouse_ih_outcome:
  assumes "mouse_ih K d w = Some y"
  shows "irq_outcome d (fst y)"
  using assms
proof (rule mouse_ih.raw_induct [where P = "\<lambda>K d w y. irq_outcome d (fst y)", rotated])
  fix f :: "'a kernel \<Rightarrow> mouse_driver \<Rightarrow> 'a \<Rightarrow> (mouse_driver \<times> 'a) option" and K d w y
  assume "\<And>K d w y. f K d w = Some y \<Longrightarrow> irq_outcome d (fst y)"
    and "(case util_sys_inb K STATUS_REGISTER (indeterminate K w) w of ((r, stat), w1) \<Rightarrow>
        if r \<noteq> 0 then Some (mouse_ih_broken d, w1)
        else if out_full stat then Some (mouse_ih_byte K d stat w1)
        else f K d (tickdelay K (micros_to_ticks K WAIT_KBC) w1)) = Some y"
  then show "irq_outcome d (fst y)"
    by (auto simp: split_beta mouse_ih_byte_outcome split: if_splits) (auto simp: irq_outcome_def)
qed

lemma wedged_irq:
  assumes "wedged d" and "mouse_irq K (d, w) (d2, w2)"
  shows "wedged d2 \<and> packet1 d2 = packet1 d \<and> total_packets d2 = total_packets d"
  using assms
  by (auto elim!: mouse_irqE dest!: mouse_ih_outcome
      simp: irq_outcome_def wedged_def mouse_dispatch_def mouse_ih_broken_def split: if_splits)

interpretation wedged_run: step_invariant "mouse_irq K"
    "\<lambda>(d, w). wedged d \<and> packet1 d = p \<and> total_packets d = n" for K p n
  by unfold_locales (auto dest: wedged_irq)


section \<open>Properties\<close>

text \<open>C23: On a responsive controller the command sequence of \<open>disable_mouse_data\<close> terminates
  with success, and the bytes written are exactly \<open>0xD4, 0xF5, 0xD4, 0xEA\<close> on their ports.\<close>

lemma disable_mouse_data_acknowledged:
  assumes "kbc_responsive K" and "io_traced K tr"
  shows "\<exists>w'. disable_mouse_data K w = Some (0, w') \<and>
    tr w' = tr w @ [(0x64, 0xD4), (0x60, 0xF5), (0x64, 0xD4), (0x60, 0xEA)]"
  using assms by (rule disable_responsive)

theorem disable_mouse_data_acknowledged_witness:
  "\<exists>w'. disable_mouse_data ack_kernel sim0 = Some (0, w') \<and>
    sim_out w' = [(0x64, 0xD4), (0x60, 0xF5), (0x64, 0xD4), (0x60, 0xEA)]"
  using disable_mouse_data_acknowledged [OF ack_kernel_responsive ack_kernel_traced, of sim0]
  by (simp add: sim0_def)

definition nacks :: "nat \<Rightarrow> (int \<times> u32) list" where
  "nacks k = concat (replicate k [(0, 0), (0, 0xFE)]) @ [(0, 0), (0, 0xFA)]"

lemma argument_loop_nacks:
  "argument_loop sim_kernel a (w\<lparr>sim_in := nacks k\<rparr>) =
     Some (0, w\<lparr>sim_in := [], sim_out := sim_out w @ replicate (Suc k) (0x60, a)\<rparr>)"
proof (induction k arbitrary: w)
  case 0
  show ?case
    by (subst argument_loop.simps)
      (simp add: nacks_def util_sys_inb_def sim_kernel_simps in_free_def i8042_ports i8042_bits i8042_cmds)
next
  case (Suc k)
  let ?w = "w\<lparr>sim_out := sim_out w @ [(0x60, a)]\<rparr>"
  have "argument_loop sim_kernel a (w\<lparr>sim_in := nacks (Suc k)\<rparr>) =
      argument_loop sim_kernel a (?w\<lparr>sim_in := nacks k\<rparr>)"
    by (subst argument_loop.simps)
      (simp add: nacks_def util_sys_inb_def sim_kernel_simps in_free_def i8042_ports i8042_bits i8042_cmds)
  also have "\<dots> = Some (0, ?w\<lparr>sim_in := [], sim_out := sim_out ?w @ replicate (Suc k) (0x60, a)\<rparr>)"
    by (rule Suc.IH)
  finally show ?case by simp
qed

text \<open>After each of \<open>k\<close> negative acknowledgements \<open>write_argument_to_mouse\<close> writes the argument
  again without the \<open>0xD4\<close> prefix, so that the repeated byte is addressed to the keyboard.\<close>

lemma nack_resends_bare_argument:
  "map_option (\<lambda>(r, w). (r, sim_out w)) (write_argument_to_mouse sim_kernel a (sim0\<lparr>sim_in := (0, 0) # nacks k\<rparr>)) =
     Some (0, (0x64, 0xD4) # replicate (Suc k) (0x60, a))"
proof -
  have "issue_loop sim_kernel (sim0\<lparr>sim_in := (0, 0) # nacks k\<rparr>) =
      Some (0, (sim0\<lparr>sim_out := [(0x64, 0xD4)]\<rparr>)\<lparr>sim_in := nacks k\<rparr>)"
    by (subst issue_loop.simps)
      (simp add: sim0_def issue_command_def util_sys_inb_def sim_kernel_simps in_free_def i8042_ports i8042_bits i8042_cmds)
  then show ?thesis
    by (simp add: write_argument_to_mouse_def argument_loop_nacks)
qed

text \<open>C14: Decoding inverts the PS/2 encoding: after the bytes of any sequence of movement packets the
  driver has counted all of them and holds the buttons and the signed displacement of the last.\<close>

lemma ps2_stream_decoded:
  assumes "assembling d" and "counter d = 0" and "\<forall>e\<in>set (es @ [e]). in_range e"
  shows "let d' = fold accept_byte (concat (map ps2_packet (es @ [e]))) d in
    total_packets d' = total_packets d + of_nat (Suc (length es)) \<and> counter d' = 0 \<and>
    lb (packet1 d') = ev_l e \<and> rb (packet1 d') = ev_r e \<and> mb (packet1 d') = ev_m e \<and>
    delta_x (packet1 d') = ev_dx e \<and> delta_y (packet1 d') = ev_dy e \<and>
    \<not> x_ov (packet1 d') \<and> \<not> y_ov (packet1 d')"
proof -
  let ?d = "fold accept_byte (concat (map ps2_packet es)) d"
  have "assembling ?d" "counter ?d = 0" "total_packets ?d = total_packets d + of_nat (length es)"
    using event_stream [OF assms(1,2), of es] assms(3) by auto
  with one_event [of ?d e] assms(3) show ?thesis
    by (simp add: Let_def decoded_def)
qed

theorem ps2_stream_decoded_witness:
  "let d' = fold accept_byte [0x09, 5, 7, 0x38, 0xFD, 0x80] mouse_driver_init in
    total_packets d' = 2 \<and> lb (packet1 d') = False \<and> delta_x (packet1 d') = -3 \<and> delta_y (packet1 d') = -128"
proof -
  let ?es = "[\<lparr>ev_l = True, ev_r = False, ev_m = False, ev_dx = 5, ev_dy = 7\<rparr>]"
  let ?e = "\<lparr>ev_l = False, ev_r = False, ev_m = False, ev_dx = -3, ev_dy = -128\<rparr>"
  have "concat (map ps2_packet (?es @ [?e])) = [0x09, 5, 7, 0x38, 0xFD, 0x80]"
    by (simp add: ps2_packet_def ps2_header_def)
  then show ?thesis
    using ps2_stream_decoded [of mouse_driver_init ?es ?e]
    by (simp add: assembling_def mouse_driver_init_def packet_zero_def in_range_def Let_def)
qed

text \<open>When the controller delivers a byte after any number of empty polls and reports no line
  error, \<open>mouse_ih\<close> returns, and all it changes is \<open>read_packet\<close>, now that byte.\<close>

lemma mouse_ih_delivers:
  assumes "ready_after K (tickdelay K (micros_to_ticks K WAIT_KBC)) out_full n w"
    and "line_ok (status_of K (polled K (tickdelay K (micros_to_ticks K WAIT_KBC)) n w))"
    and "sys_inb K 0x60 (ready_world K (tickdelay K (micros_to_ticks K WAIT_KBC)) n w) = ((0, v), w1)"
    and "\<not> reading_error d"
  shows "mouse_ih K d w = Some (d\<lparr>read_packet := ucast v\<rparr>, w1)"
  using mouse_ih_loop.poll_ready [OF assms(1), of d] assms(2-4)
  by (simp add: mouse_ih_byte_def OUTPUT_BUFFER_def util_sys_inb_def)

text \<open>C22: A read error on the third byte of a packet disables the mouse for good: after any number of
  further interrupts, whatever the controller does, the driver is still in the error state, the
  counter is at least 3 and no packet has been completed.  The claim is about runs in which \<open>counter\<close>, a C
  \<open>int\<close> that each error increments, does not overflow.\<close>

lemma third_byte_error_wedges:
  assumes "assembling d" and "counter d = 2"
    and "mouse_ih K d w = Some (d1, w1)" and "reading_error d1"
    and "(mouse_irq K)\<^sup>*\<^sup>* (snd (mouse_dispatch d1), w1) (d', w')"
  shows "reading_error d' \<and> counter d' \<ge> 3 \<and> total_packets d' = total_packets d \<and> packet1 d' = packet1 d"
proof -
  have "wedged (snd (mouse_dispatch d1)) \<and> packet1 (snd (mouse_dispatch d1)) = packet1 d
      \<and> total_packets (snd (mouse_dispatch d1)) = total_packets d"
    using mouse_ih_outcome [OF assms(3)] assms(1,2,4)
    by (auto simp: irq_outcome_def mouse_dispatch_def mouse_ih_broken_def wedged_def assembling_def)
  with wedged_run.run_keeps [OF assms(5), of "packet1 d" "total_packets d"] show ?thesis
    by (simp add: wedged_def)
qed

theorem third_byte_error_wedges_witness:
  "(let d = mouse_driver_init\<lparr>counter := 2\<rparr> in
     \<exists>d1 w1. mouse_ih sim_kernel d (sim0\<lparr>sim_in := [(0, 0xA1), (0, 0x08)]\<rparr>) = Some (d1, w1) \<and>
       reading_error (snd (mouse_dispatch d1)) \<and> counter (snd (mouse_dispatch d1)) \<ge> 3)"
proof -
  let ?d = "mouse_driver_init\<lparr>counter := 2\<rparr>"
  let ?d1 = "mouse_ih_broken (?d\<lparr>read_packet := 0x08\<rparr>)"
  have ih: "mouse_ih sim_kernel ?d (sim0\<lparr>sim_in := [(0, 0xA1), (0, 0x08)]\<rparr>) = Some (?d1, sim0)"
    by (subst mouse_ih.simps)
      (simp add: sim_kernel_simps sim0_def util_sys_inb_def out_full_def line_ok_def i8042_bits
        mouse_ih_byte_def Let_def)
  have "reading_error (snd (mouse_dispatch ?d1)) \<and> counter (snd (mouse_dispatch ?d1)) \<ge> 3"
    using third_byte_error_wedges [OF _ _ ih _ rtranclp.rtrancl_refl]
    by (simp add: assembling_def mouse_driver_init_def packet_zero_def mouse_ih_broken_def)
  with ih show ?thesis by (auto simp: Let_def)
qed

theorem mouse_ih_delivers_witness:
  "mouse_ih sim_kernel mouse_driver_init (sim0\<lparr>sim_in := [(0, 0), (0, 0x21), (0, 0x09)]\<rparr>) =
    Some (mouse_driver_init\<lparr>read_packet := 0x09\<rparr>, sim0)"
  using mouse_ih_delivers [of sim_kernel 1 "sim0\<lparr>sim_in := [(0, 0), (0, 0x21), (0, 0x09)]\<rparr>" "0x09" sim0 mouse_driver_init]
  by (simp add: sim_kernel_simps sim0_def mouse_driver_init_def out_full_def line_ok_def status_of_def
      ready_world_def i8042_bits)

end
