(* ===== verification/Timer_Driver.thy ===== *)
theory Timer_Driver
  imports Utils
begin

text \<open>
  \<open>proj/src/timer.c\<close> with the constants of \<open>i8254.h\<close>: frequency, configuration and
  interrupt subscription of the i8254 timers.
\<close>

unbundle bit_operations_syntax

section \<open>Constants\<close>

definition TIMER_FREQ :: u32 where "TIMER_FREQ = 1193182"
definition TIMER0_IRQ :: int where "TIMER0_IRQ = 0"
definition TIMER_0 :: int where "TIMER_0 = 0x40"
definition TIMER_1 :: int where "TIMER_1 = 0x41"
definition TIMER_2 :: int where "TIMER_2 = 0x42"
definition TIMER_CTRL :: int where "TIMER_CTRL = 0x43"
definition TIMER_SEL1 :: u8 where "TIMER_SEL1 = BIT 6"
definition TIMER_SEL2 :: u8 where "TIMER_SEL2 = BIT 7"
definition TIMER_RB_CMD :: u8 where "TIMER_RB_CMD = BIT 7 OR BIT 6"
definition TIMER_LSB :: u8 where "TIMER_LSB = BIT 4"
definition TIMER_MSB :: u8 where "TIMER_MSB = BIT 5"
definition TIMER_LSB_MSB :: u8 where "TIMER_LSB_MSB = TIMER_LSB OR TIMER_MSB"
definition TIMER_RB_COUNT :: u8 where "TIMER_RB_COUNT = BIT 5"
definition TIMER_RB_SEL :: "u8 \<Rightarrow> u8" where "TIMER_RB_SEL n = BIT (unat n + 1)"

lemmas i8254_consts = TIMER_FREQ_def TIMER0_IRQ_def TIMER_0_def TIMER_1_def TIMER_2_def
  TIMER_CTRL_def TIMER_SEL1_def TIMER_SEL2_def TIMER_RB_CMD_def TIMER_LSB_def TIMER_MSB_def
  TIMER_LSB_MSB_def TIMER_RB_COUNT_def TIMER_RB_SEL_def BIT_def

section \<open>The driver\<close>

record timer =
  tmr_tck_counter :: int
  hook_id2 :: int

definition timer_driver_init :: timer where
  "timer_driver_init = \<lparr>tmr_tck_counter = 0, hook_id2 = 0\<rparr>"

definition timer_get_conf :: "'w kernel \<Rightarrow> u8 \<Rightarrow> u8 \<Rightarrow> 'w \<Rightarrow> (int \<times> u8) \<times> 'w" where
  "timer_get_conf K tmr st w =
     (if tmr > 2 then ((1, st), w)
      else
        let rbc = TIMER_RB_CMD OR TIMER_RB_COUNT OR TIMER_RB_SEL tmr;
            port = (if tmr = 0 then TIMER_0 else if tmr = 1 then TIMER_1 else if tmr = 2 then TIMER_2 else 0)
        in case sys_outb K TIMER_CTRL rbc w of (_, w1) \<Rightarrow>
           case util_sys_inb K port st w1 of ((r, st'), w2) \<Rightarrow>
             if r \<noteq> 0 then ((1, st'), w2) else ((0, st'), w2))"

definition timer_set_frequency :: "'w kernel \<Rightarrow> u8 \<Rightarrow> u32 \<Rightarrow> 'w \<Rightarrow> int \<times> 'w" where
  "timer_set_frequency K tmr freq w =
     (case timer_get_conf K tmr (indeterminate K w) w of ((r, status), w1) \<Rightarrow>
      if r \<noteq> 0 then (1, w1)
      else let last_bits = status AND 0x0F in
      if freq < 19 \<or> freq > TIMER_FREQ then (1, w1)
      else if \<not> tmr \<le> 2 then (1, w1)
      else
        let (timeraddr, control_word) =
              (if tmr = 0 then (TIMER_0, 0 OR TIMER_LSB_MSB OR last_bits)
               else if tmr = 1 then (TIMER_1, TIMER_SEL1 OR TIMER_LSB_MSB OR last_bits)
               else (TIMER_2, TIMER_SEL2 OR TIMER_LSB_MSB OR last_bits));
            dv = (ucast (TIMER_FREQ div freq) :: u16);
            lsb = the (snd (util_get_LSB dv (Some (indeterminate K w1))));
            msb = the (snd (util_get_MSB dv (Some (indeterminate K w1))))
        in case sys_outb K TIMER_CTRL control_word w1 of (r1, w2) \<Rightarrow>
           if r1 \<noteq> 0 then (1, w2) else
           case sys_outb K timeraddr lsb w2 of (r2, w3) \<Rightarrow>
           if r2 \<noteq> 0 then (1, w3) else
           case sys_outb K timeraddr msb w3 of (r3, w4) \<Rightarrow>
           if r3 \<noteq> 0 then (1, w4) else (0, w4))"

definition timer_subscribe_int :: "'w kernel \<Rightarrow> timer \<Rightarrow> 'w \<Rightarrow> (int \<times> u8 \<times> timer) \<times> 'w" where
  "timer_subscribe_int K t w =
     (let t1 = t\<lparr>hook_id2 := TIMER0_IRQ\<rparr>; bit_no = word_of_int (hook_id2 t1) in
      case sys_irqsetpolicy K TIMER0_IRQ IRQ_REENABLE (hook_id2 t1) w of ((r, h), w') \<Rightarrow>
        ((if r \<noteq> OK then 1 else 0, bit_no, t1\<lparr>hook_id2 := h\<rparr>), w'))"

definition timer_unsubscribe_int :: "'w kernel \<Rightarrow> timer \<Rightarrow> 'w \<Rightarrow> (int \<times> timer) \<times> 'w" where
  "timer_unsubscribe_int K t w =
     (case sys_irqrmpolicy K (hook_id2 t) w of ((r, h), w') \<Rightarrow>
        ((if r \<noteq> OK then 1 else 0, t\<lparr>hook_id2 := h\<rparr>), w'))"

definition timer_int_handler :: "timer \<Rightarrow> timer" where
  "timer_int_handler t = t\<lparr>tmr_tck_counter := tmr_tck_counter t + 1\<rparr>"

text \<open>
  The value of the status field as \<open>timer_display_conf\<close> computes it.  In C \<open>>>\<close> binds
  tighter than \<open>|\<close>, so only the last operand of each expression is shifted.
\<close>

definition timer_field_value :: "u8 \<Rightarrow> timer_status_field \<Rightarrow> timer_status_field_val" where
  "timer_field_value st field =
     (case field of
        tsf_all \<Rightarrow> Byte st
      | tsf_initial \<Rightarrow> In_mode (uint ((st AND BIT 5) OR drop_bit 4 (st AND BIT 4)))
      | tsf_mode \<Rightarrow> Count_mode ((st AND BIT 3) OR (st AND BIT 2) OR drop_bit 1 (st AND BIT 1))
      | tsf_base \<Rightarrow> Bcd (st AND BIT 0 = 1))"

definition timer_display_conf :: "'w kernel \<Rightarrow> u8 \<Rightarrow> u8 \<Rightarrow> timer_status_field \<Rightarrow> 'w \<Rightarrow> int \<times> 'w" where
  "timer_display_conf K tmr st field w =
     (case timer_print_config K tmr field (timer_field_value st field) w of (r, w1) \<Rightarrow>
        if r \<noteq> 0 then (1, w1) else (0, w1))"

section \<open>Reference definitions\<close>

text \<open>
  What the status byte of the i8254 data sheet means: bits 5 and 4 the initialisation
  mode, bits 3 to 1 the counting mode, bit 0 the counting base.
\<close>

definition status_init_mode :: "u8 \<Rightarrow> int" where
  "status_init_mode st = uint st div 16 mod 4"

definition status_count_mode :: "u8 \<Rightarrow> int" where
  "status_count_mode st = uint st div 2 mod 8"

text \<open>What a successful \<open>timer_set_frequency\<close> writes to the ports.\<close>

definition timer_port :: "u8 \<Rightarrow> int" where
  "timer_port tmr = 0x40 + uint tmr"

definition timer_control_word :: "u8 \<Rightarrow> u8 \<Rightarrow> u8" where
  "timer_control_word tmr status = push_bit 6 tmr OR 0x30 OR (status AND 0x0F)"

section \<open>Lemmas\<close>

interpretation timer_line: irq_line timer_subscribe_int timer_unsubscribe_int hook_id2
    "\<lambda>h. hook_id2_update (\<lambda>_. h)" 0 IRQ_REENABLE 0
  by unfold_locales
    (simp_all add: timer_subscribe_int_def timer_unsubscribe_int_def Let_def TIMER0_IRQ_def OK_def split_beta)

lemma tmr_cases:
  assumes "tmr \<le> (2 :: u8)"
  obtains "tmr = 0" | "tmr = 1" | "tmr = 2"
proof -
  have "tmr \<le> 2 \<longrightarrow> tmr = 0 \<or> tmr = 1 \<or> tmr = 2"
    by (rule all_u8 [where b = tmr]) code_simp
  with assms that show ?thesis by blast
qed

lemma divisor_fits:
  assumes "19 \<le> freq" and "freq \<le> TIMER_FREQ"
  shows "uint (ucast (TIMER_FREQ div freq) :: u16) = 1193182 div uint freq"
proof -
  have f: "19 \<le> uint freq" "uint freq \<le> 1193182"
    using assms by (simp_all add: word_le_def TIMER_FREQ_def)
  then have "1193182 div uint freq \<le> 1193182 div 19"
    by (intro zdiv_mono2) auto
  with f show ?thesis
    by (simp add: unsigned_ucast_eq take_bit_eq_mod uint_div TIMER_FREQ_def pos_imp_zdiv_nonneg_iff)
qed

lemma timer_get_conf_reads:
  assumes "tmr \<le> 2"
    and "sys_inb K (timer_port tmr) (snd (sys_outb K 0x43 (0xE0 OR BIT (unat tmr + 1)) w)) = ((0, st), w1)"
  shows "timer_get_conf K tmr old w = ((0, ucast st), w1)"
  using assms(2)
  by (cases rule: tmr_cases [OF assms(1)])
    (auto simp: timer_get_conf_def Let_def split_beta util_sys_inb_def timer_port_def i8254_consts)

text \<open>C17: For a valid timer and a frequency in range \<open>timer_set_frequency\<close> succeeds and writes,
  in this order, the read-back command, the control word that selects the timer and keeps the low
  four status bits, and the two bytes of the divisor, which together are \<open>TIMER_FREQ / freq\<close>:
  the 16-bit conversion of the quotient loses nothing.\<close>

lemma timer_set_frequency_programs:
  assumes "tmr \<le> 2" and "19 \<le> freq" and "freq \<le> TIMER_FREQ"
    and out: "\<And>p v w. fst (sys_outb K p v w) = 0" and tr: "io_traced K tr"
    and conf: "sys_inb K (timer_port tmr) (snd (sys_outb K 0x43 (0xE0 OR BIT (unat tmr + 1)) w)) = ((0, st), u)"
  shows "\<exists>w' lsb msb. timer_set_frequency K tmr freq w = (0, w') \<and>
    tr w' = tr w @ [(0x43, 0xE0 OR BIT (unat tmr + 1)), (0x43, timer_control_word tmr (ucast st)),
      (timer_port tmr, lsb), (timer_port tmr, msb)] \<and>
    uint lsb + 256 * uint msb = 1193182 div uint freq"
proof -
  let ?dv = "ucast (TIMER_FREQ div freq) :: u16"
  let ?lsb = "ucast ?dv :: u8" and ?msb = "ucast (drop_bit 8 ?dv) :: u8"
  have "tr u = tr w @ [(0x43, 0xE0 OR BIT (unat tmr + 1))]"
    using io_tracedD(1,2) [OF tr] conf by (metis snd_conv)
  moreover have "timer_set_frequency K tmr freq w =
      (0, snd (sys_outb K (timer_port tmr) ?msb (snd (sys_outb K (timer_port tmr) ?lsb
        (snd (sys_outb K 0x43 (timer_control_word tmr (ucast st)) u))))))"
    using assms(2,3) out
    unfolding timer_set_frequency_def timer_get_conf_reads [OF assms(1) conf]
    by (cases rule: tmr_cases [OF assms(1)])
      (auto simp: Let_def split_beta
        timer_port_def timer_control_word_def proj_bytes.lsb_store proj_bytes.msb_store i8254_consts not_less)
  moreover have "uint ?lsb + 256 * uint ?msb = uint ?dv"
    by (rule proj_bytes.halves_recombine [OF proj_bytes.lsb_store proj_bytes.msb_store])
  moreover note divisor_fits [OF assms(2,3)]
  ultimately show ?thesis
    using io_tracedD(1) [OF tr] by auto
qed


theorem timer_set_frequency_programs_witness:
  "\<exists>w' lsb msb. timer_set_frequency sim_kernel 0 60 (sim0\<lparr>sim_in := [(0, 0x36)]\<rparr>) = (0, w') \<and>
    sim_out w' = [(0x43, 0xE2), (0x43, 0x36), (0x40, lsb), (0x40, msb)] \<and>
    uint lsb + 256 * uint msb = 19886"
proof -
  have "\<exists>w' lsb msb. timer_set_frequency sim_kernel 0 60 (sim0\<lparr>sim_in := [(0, 0x36)]\<rparr>) = (0, w') \<and>
    sim_out w' = sim_out (sim0\<lparr>sim_in := [(0, 0x36)]\<rparr>) @ [(0x43, 0xE0 OR BIT (unat (0 :: u8) + 1)),
      (0x43, timer_control_word 0 (ucast (0x36 :: u32))), (timer_port 0, lsb), (timer_port 0, msb)] \<and>
    uint lsb + 256 * uint msb = 1193182 div uint (60 :: u32)"
    by (rule timer_set_frequency_programs [OF _ _ _ _ sim_kernel_traced,
          where u = "sim0\<lparr>sim_out := [(0x43, 0xE2)]\<rparr>"])
      (simp_all add: sim_kernel_simps sim0_def i8254_consts)
  then show ?thesis
    by (simp add: sim0_def timer_control_word_def timer_port_def BIT_def)
qed

text \<open>C28: A timer number above 2 or a frequency outside \<open>[19, TIMER_FREQ]\<close> is rejected with 1, and no
  port but the control register has been written, which at most got the read-back command.\<close>

lemma timer_set_frequency_rejects:
  assumes "tmr > 2 \<or> freq < 19 \<or> freq > TIMER_FREQ" and "io_traced K tr"
  shows "fst (timer_set_frequency K tmr freq w) = 1 \<and>
    (tr (snd (timer_set_frequency K tmr freq w)) = tr w \<or>
     tr (snd (timer_set_frequency K tmr freq w)) = tr w @ [(0x43, 0xE0 OR BIT (unat tmr + 1))])"
proof (cases "tmr > 2")
  case True
  then show ?thesis by (simp add: timer_set_frequency_def timer_get_conf_def)
next
  case False
  then have "tmr \<le> 2" and "freq < 19 \<or> freq > TIMER_FREQ"
    using assms(1) False by auto
  then have "fst (timer_set_frequency K tmr freq w) = 1"
    and "snd (timer_set_frequency K tmr freq w) = snd (timer_get_conf K tmr (indeterminate K w) w)"
    by (simp_all add: timer_set_frequency_def Let_def split_beta)
  moreover have "tr (snd (timer_get_conf K tmr (indeterminate K w) w)) = tr w @ [(0x43, 0xE0 OR BIT (unat tmr + 1))]"
    using io_tracedD(1,2) [OF assms(2)]
    by (cases rule: tmr_cases [OF \<open>tmr \<le> 2\<close>])
      (simp_all add: timer_get_conf_def Let_def split_beta proj_port.read_world i8254_consts)
  ultimately show ?thesis by simp
qed

theorem timer_set_frequency_rejects_witness:
  "fst (timer_set_frequency sim_kernel 0 18 (sim0\<lparr>sim_in := [(0, 0x36)]\<rparr>)) = 1"
  using timer_set_frequency_rejects [OF _ sim_kernel_traced, of 0 18] by simp

text \<open>C30: \<open>timer_display_conf\<close> reports the initialisation mode of the data sheet exactly when bit 5 of
  the status is clear, and the counting mode exactly when bits 3 and 2 are clear (the shifts bind
  tighter than the disjunctions); the counting base is always right.\<close>

lemma timer_field_value_exact:
  "(timer_field_value st tsf_initial = In_mode (status_init_mode st)) = (st AND 0x20 = 0) \<and>
   (timer_field_value st tsf_mode = Count_mode (word_of_int (status_count_mode st))) = (st AND 0x0C = 0) \<and>
   timer_field_value st tsf_base = Bcd (odd (uint st))"
  by (rule all_u8 [where b = st]) code_simp

end
