(* ===== verification/Pixels.thy ===== *)
theory Pixels
  imports Lcom_Prelude
begin

text \<open>
  The contract between the drawing routines and the pixel primitive under them, which the
  frame buffer of the project and the one of \<open>lab5\<close> both provide: a pixel drawn on the screen
  changes that pixel and no other.  The loops over rectangles are verified once, against the
  contract.
\<close>

locale pixel_sink =
  fixes draw :: "int \<Rightarrow> int \<Rightarrow> u32 \<Rightarrow> 'v \<Rightarrow> 'e + 'v"
    and get :: "'v \<Rightarrow> int \<Rightarrow> int \<Rightarrow> 'p" and enc :: "'v \<Rightarrow> u32 \<Rightarrow> 'p"
    and inside :: "'v \<Rightarrow> int \<Rightarrow> int \<Rightarrow> bool" and ok :: "'v \<Rightarrow> bool" and sim :: "'v \<Rightarrow> 'v \<Rightarrow> bool"
  assumes draw_inside: "ok v \<Longrightarrow> inside v x y \<Longrightarrow> \<exists>v'. draw x y c v = Inr v' \<and> ok v' \<and> sim v v' \<and>
      (\<forall>x' y'. inside v x' y' \<longrightarrow> get v' x' y' = (if x' = x \<and> y' = y then enc v c else get v x' y'))"
    and sim_refl: "sim v v"
    and sim_trans: "sim u v \<Longrightarrow> sim v w \<Longrightarrow> sim u w"
    and sim_inside: "sim v v' \<Longrightarrow> inside v' = inside v"
    and sim_enc: "sim v v' \<Longrightarrow> enc v' = enc v"
begin

definition painted :: "'v \<Rightarrow> (int \<times> int) set \<Rightarrow> (int \<Rightarrow> int \<Rightarrow> 'p) \<Rightarrow> 'v \<Rightarrow> bool" where
  "painted v S f v' \<longleftrightarrow> ok v' \<and> sim v v' \<and>
     (\<forall>x y. inside v x y \<longrightarrow> get v' x y = (if (x, y) \<in> S then f x y else get v x y))"

lemma painted_none: "ok v \<Longrightarrow> painted v {} f v"
  by (simp add: painted_def sim_refl)

lemma paint_one:
  assumes "painted v S f v'" and "inside v x y" and "enc v c = f x y"
  shows "\<exists>v''. draw x y c v' = Inr v'' \<and> painted v (insert (x, y) S) f v''"
proof -
  from assms(1) have ok: "ok v'" and s: "sim v v'"
    and g: "\<And>x y. inside v x y \<Longrightarrow> get v' x y = (if (x, y) \<in> S then f x y else get v x y)"
    by (auto simp: painted_def)
  have "inside v' x y" using assms(2) s by (simp add: sim_inside)
  from draw_inside [OF ok this, of c] obtain v'' where v'': "draw x y c v' = Inr v''" "ok v''" "sim v' v''"
    and g': "\<And>x' y'. inside v x' y' \<Longrightarrow> get v'' x' y' = (if x' = x \<and> y' = y then enc v c else get v' x' y')"
    using s by (auto simp: sim_inside sim_enc)
  have "painted v (insert (x, y) S) f v''"
    unfolding painted_def using v''(2) sim_trans [OF s v''(3)] g g' assms(3) by auto
  with v''(1) show ?thesis by blast
qed

lemma painted_join:
  assumes "painted v S f u" and "painted u R g u'" and fg: "\<And>x y. (x, y) \<in> R \<Longrightarrow> g x y = f x y"
  shows "painted v (S \<union> R) f u'"
proof -
  from assms(1,2) have o: "ok u'" and s: "sim v u" "sim u u'"
    and f: "\<And>x y. inside v x y \<Longrightarrow> get u x y = (if (x, y) \<in> S then f x y else get v x y)"
    and g: "\<And>x y. inside u x y \<Longrightarrow> get u' x y = (if (x, y) \<in> R then g x y else get u x y)"
    unfolding painted_def by blast+
  have "get u' x y = (if (x, y) \<in> S \<union> R then f x y else get v x y)" if "inside v x y" for x y
    using that f [of x y] g [of x y] fg [of x y] sim_inside [OF s(1)] by auto
  with o sim_trans [OF s] show ?thesis unfolding painted_def by blast
qed

text \<open>Two nested loops over a rectangle of the screen paint all of it and nothing else.\<close>

lemma paint_row:
  assumes "painted v S f v'" and "\<And>x. x \<in> set xs \<Longrightarrow> inside v x y \<and> enc v c = f x y"
  shows "\<exists>v''. for_each xs (\<lambda>x. draw x y c) v' = Inr v'' \<and> painted v (S \<union> {(x, y) | x. x \<in> set xs}) f v''"
proof -
  have "\<exists>v''. for_each xs (\<lambda>x. draw x y c) v' = Inr v'' \<and>
      painted v (S \<union> {(x, y) | x. x \<in> set xs}) f v''"
  proof (rule for_each_rule [where I = "\<lambda>pre. painted v (S \<union> {(x, y) | x. x \<in> set pre}) f"])
    show "painted v (S \<union> {(x, y) |x. x \<in> set []}) f v'" using assms(1) by simp
    fix pre x post t assume "xs = pre @ x # post" and t: "painted v (S \<union> {(x, y) |x. x \<in> set pre}) f t"
    then have "inside v x y \<and> enc v c = f x y" using assms(2) by simp
    with paint_one [OF t, of x y c]
    have "\<exists>s'. draw x y c t = Inr s' \<and> painted v (insert (x, y) (S \<union> {(x, y) |x. x \<in> set pre})) f s'"
      by blast
    moreover have "insert (x, y) (S \<union> {(x, y) |x. x \<in> set pre}) = S \<union> {(x', y) |x'. x' \<in> set (pre @ [x])}"
      by auto
    ultimately show "\<exists>s'. draw x y c t = Inr s' \<and> painted v (S \<union> {(x', y) |x'. x' \<in> set (pre @ [x])}) f s'"
      by simp
  qed
  then show ?thesis .
qed

lemma paint_rows:
  assumes "ok v" and "\<And>x y. x \<in> set xs \<Longrightarrow> y \<in> set ys \<Longrightarrow> inside v x y"
  shows "\<exists>v'. for_each ys (\<lambda>y. for_each xs (\<lambda>x. draw x y c)) v = Inr v' \<and>
    painted v (set xs \<times> set ys) (\<lambda>_ _. enc v c) v'"
proof (rule for_each_rule [where I = "\<lambda>pre. painted v (set xs \<times> set pre) (\<lambda>_ _. enc v c)"])
  show "painted v (set xs \<times> set []) (\<lambda>_ _. enc v c) v" using painted_none [OF assms(1)] by simp
  fix pre y post t assume "ys = pre @ y # post" and t: "painted v (set xs \<times> set pre) (\<lambda>_ _. enc v c) t"
  with paint_row [OF t, of xs y c] assms(2)
  have "\<exists>s'. for_each xs (\<lambda>x. draw x y c) t = Inr s' \<and>
    painted v (set xs \<times> set pre \<union> {(x, y) |x. x \<in> set xs}) (\<lambda>_ _. enc v c) s'" by simp
  moreover have "set xs \<times> set pre \<union> {(x, y) |x. x \<in> set xs} = set xs \<times> set (pre @ [y])" by auto
  ultimately show "\<exists>s'. for_each xs (\<lambda>x. draw x y c) t = Inr s' \<and>
    painted v (set xs \<times> set (pre @ [y])) (\<lambda>_ _. enc v c) s'" by simp
qed

end

end
