(* ===== verification/Video.thy ===== *)
theory Video
  imports Utils Pixels
begin

text \<open>
  \<open>proj/src/video.c\<close>: the VBE frame buffer.  The program draws into a heap buffer and
  copies it to the mapped video memory.  The deck and card-back sprites are globals of
  this file.  The double loop that copies a sprite to the screen, which the sources
  repeat for every image, is the definition \<open>blit\<close>.
\<close>

unbundle bit_operations_syntax

definition CARD_WIDTH :: int where "CARD_WIDTH = 69"
definition CARD_HEIGHT :: int where "CARD_HEIGHT = 93"
definition LETTER_WIDTH :: int where "LETTER_WIDTH = 20"

lemmas card_consts = CARD_WIDTH_def CARD_HEIGHT_def LETTER_WIDTH_def

record video =
  modeinfo :: vbe_mode_info
  buffer :: "u8 list"
  video_mem :: "u8 list"
  imgDeck :: xpm_image
  spriteDeck :: "u8 list"
  imgCardBack :: xpm_image
  spriteCardBack :: "u8 list"

text \<open>The resolution and the pixel widths as the C expressions see them (promoted to \<open>int\<close>).\<close>

definition xres :: "video \<Rightarrow> int" where "xres v = uint (XResolution (modeinfo v))"
definition yres :: "video \<Rightarrow> int" where "yres v = uint (YResolution (modeinfo v))"

definition pixel_bytes :: "video \<Rightarrow> int" where
  "pixel_bytes v = (if BitsPerPixel (modeinfo v) = 15 then 2 else uint (BitsPerPixel (modeinfo v)) div 8)"

definition stride :: "video \<Rightarrow> int" where
  "stride v = (uint (BitsPerPixel (modeinfo v)) + 7) div 8"

definition fresh_block :: "nat \<Rightarrow> (nat \<Rightarrow> u8) option \<Rightarrow> u8 list" where
  "fresh_block n c = (case c of None \<Rightarrow> [] | Some f \<Rightarrow> map f [0..<n])"

definition vg_start :: "'w kernel \<Rightarrow> u16 \<Rightarrow> video \<Rightarrow> 'w \<Rightarrow> (int \<times> video \<times> 'w) result" where
  "vg_start K mode v w =
     (case vbe_get_mode_info K mode (modeinfo v) w of ((_, mi), w1) \<Rightarrow>
      let v1 = v\<lparr>modeinfo := mi\<rparr>;
          vram_base = PhysBasePtr mi;
          vram_size = nat (xres v1 * yres v1 * pixel_bytes v1)
      in case sys_privctl_add_mem K vram_base (vram_base + of_nat vram_size) w1 of (r, w2) \<Rightarrow>
      if r \<noteq> OK then Inl Panic
      else case malloc K vram_size w2 of (blk, w3) \<Rightarrow>
      case vm_map_phys K vram_base vram_size w3 of (mem, w4) \<Rightarrow>
      let v2 = v1\<lparr>buffer := fresh_block vram_size blk, video_mem := fresh_block vram_size mem\<rparr>
      in case sys_int86 K 0x4F02 (push_bit 14 1 OR mode) 0x10 w4 of (ri, w5) \<Rightarrow>
      if ri \<noteq> 0 then Inr (1, v2, w5)
      else if mem = None then Inl Panic
      else Inr (0, v2, w5))"

definition my_updateVideoMem :: "video \<Rightarrow> video result" where
  "my_updateVideoMem v =
     (let n = pixel_bytes v * xres v * yres v in
      andthen (read_bytes (buffer v) 0 (nat n)) (\<lambda>src.
      andthen (memcpy_to (video_mem v) 0 src) (\<lambda>mem.
      Inr (v\<lparr>video_mem := mem\<rparr>))))"

text \<open>\<open>memcpy\<close> reads \<open>pixel_bytes\<close> bytes of the four-byte object \<open>color\<close>.\<close>

definition my_draw_pixel :: "u16 \<Rightarrow> u16 \<Rightarrow> u32 \<Rightarrow> video \<Rightarrow> (int \<times> video) result" where
  "my_draw_pixel px py color v =
     (if px > XResolution (modeinfo v) \<or> py > YResolution (modeinfo v) then Inr (1, v)
      else
        andthen (read_bytes (le_bytes color) 0 (nat (pixel_bytes v))) (\<lambda>src.
        andthen (memcpy_to (buffer v) (xres v * uint py * pixel_bytes v + uint px * pixel_bytes v) src) (\<lambda>b.
        Inr (0, v\<lparr>buffer := b\<rparr>))))"

text \<open>A call whose result is ignored.\<close>

definition draw_px :: "int \<Rightarrow> int \<Rightarrow> u32 \<Rightarrow> video \<Rightarrow> video result" where
  "draw_px col line color v = map_sum id snd (my_draw_pixel (word_of_int col) (word_of_int line) color v)"

definition GREEN :: u32 where "GREEN = 0x22B14C"

definition greenScreen :: "video \<Rightarrow> (int \<times> video) result" where
  "greenScreen v =
     andthen (for_each [0..yres v - 1] (\<lambda>i. for_each [0..xres v - 1] (\<lambda>j. draw_px j i GREEN)) v)
       (\<lambda>v'. Inr (0, v'))"

definition greenPartOfScreen :: "int \<Rightarrow> int \<Rightarrow> int \<Rightarrow> int \<Rightarrow> video \<Rightarrow> video result" where
  "greenPartOfScreen sx sy w h v =
     for_each (takeWhile (\<lambda>i. i \<noteq> yres v) [sy..h + sy - 1])
       (\<lambda>i. for_each (takeWhile (\<lambda>j. j \<noteq> xres v) [sx..w + sx - 1]) (\<lambda>j. draw_px j i GREEN)) v"

text \<open>
  The loop body of every image: \<open>memcpy(&color, sprite, 3)\<close> leaves the top byte of
  \<open>color\<close> as it was (\<open>ju\<close>), the pixel is drawn and the sprite pointer advances.
\<close>

definition color_of :: "u8 \<Rightarrow> u8 list \<Rightarrow> u32" where
  "color_of ju c = ucast (c ! 0) OR push_bit 8 (ucast (c ! 1)) OR push_bit 16 (ucast (c ! 2)) OR push_bit 24 (ucast ju)"

definition blit_pixel :: "u8 \<Rightarrow> u8 list \<Rightarrow> int \<Rightarrow> int \<Rightarrow> int \<Rightarrow> int \<times> video \<Rightarrow> (int \<times> video) result" where
  "blit_pixel ju sprite adv line col st =
     (case st of (ptr, v) \<Rightarrow>
        andthen (read_bytes sprite ptr 3) (\<lambda>c.
        andthen (draw_px col line (color_of ju c) v) (\<lambda>v'. Inr (ptr + adv, v'))))"

definition blit_row :: "u8 \<Rightarrow> u8 list \<Rightarrow> int \<Rightarrow> int \<Rightarrow> int \<Rightarrow> int \<Rightarrow> int \<Rightarrow> int \<times> video \<Rightarrow> (int \<times> video) result" where
  "blit_row ju sprite sx w adv skip line st =
     andthen (for_each [sx..w + sx - 1] (blit_pixel ju sprite adv line) st)
       (\<lambda>(ptr, v). Inr (ptr + skip, v))"

definition blit :: "u8 \<Rightarrow> u8 list \<Rightarrow> int \<Rightarrow> int \<Rightarrow> int \<Rightarrow> int \<Rightarrow> int \<Rightarrow> int \<Rightarrow> int \<Rightarrow> video \<Rightarrow> video result" where
  "blit ju sprite ptr sx sy w h adv skip v =
     andthen (for_each [sy..h + sy - 1] (blit_row ju sprite sx w adv skip) (ptr, v))
       (\<lambda>(_, v'). Inr v')"

text \<open>An image drawn whole, pixel after pixel.\<close>

definition draw_image :: "u8 \<Rightarrow> u8 list \<Rightarrow> xpm_image \<Rightarrow> int \<Rightarrow> int \<Rightarrow> video \<Rightarrow> video result" where
  "draw_image ju sprite img sx sy v =
     blit ju sprite 0 sx sy (uint (width img)) (uint (height img)) (stride v) 0 v"

definition vg_draw_card :: "u8 \<Rightarrow> int \<Rightarrow> int \<Rightarrow> int \<Rightarrow> int \<Rightarrow> video \<Rightarrow> video result" where
  "vg_draw_card ju screenX screenY positionX positionY v =
     (let spriteStartX = positionX * 73; spriteStartY = positionY * 99 in
      if positionX = -1 \<and> positionY = -1 then
        draw_image ju (spriteCardBack v) (imgCardBack v) screenX screenY v
      else
        blit ju (spriteDeck v)
          ((spriteStartX + uint (width (imgDeck v)) * spriteStartY) * stride v)
          screenX screenY CARD_WIDTH CARD_HEIGHT (stride v)
          (stride v * (uint (width (imgDeck v)) - CARD_WIDTH)) v)"

definition clear_buffer :: "video \<Rightarrow> video" where
  "clear_buffer v = v\<lparr>buffer := []\<rparr>"

section \<open>Reference definitions\<close>

text \<open>
  A pixel as the bytes of the buffer that hold it, the screen as the set of its pixels, and
  the well-formedness of the frame buffer: its blocks have the size of the screen.
\<close>

definition pixel :: "video \<Rightarrow> int \<Rightarrow> int \<Rightarrow> u8 list" where
  "pixel v x y = take (nat (pixel_bytes v)) (drop (nat ((xres v * y + x) * pixel_bytes v)) (buffer v))"

definition on_screen_px :: "video \<Rightarrow> int \<Rightarrow> int \<Rightarrow> bool" where
  "on_screen_px v x y \<longleftrightarrow> 0 \<le> x \<and> x < xres v \<and> 0 \<le> y \<and> y < yres v"

definition encode :: "video \<Rightarrow> u32 \<Rightarrow> u8 list" where
  "encode v c = take (nat (pixel_bytes v)) (le_bytes c)"

definition vid_ok :: "video \<Rightarrow> bool" where
  "vid_ok v \<longleftrightarrow> 1 \<le> pixel_bytes v \<and> pixel_bytes v \<le> 4 \<and>
     int (length (buffer v)) = xres v * yres v * pixel_bytes v \<and> length (video_mem v) = length (buffer v)"

text \<open>Everything but the frame buffer is the same.\<close>

definition same_mode :: "video \<Rightarrow> video \<Rightarrow> bool" where
  "same_mode v v' \<longleftrightarrow> (\<exists>b. v' = v\<lparr>buffer := b\<rparr>)"

definition sprite_px :: "u8 list \<Rightarrow> int \<Rightarrow> u8 list" where
  "sprite_px sprite p = take 3 (drop (nat p) sprite)"

text \<open>What the drawing loops keep.\<close>

definition keeps_screen :: "video \<Rightarrow> int \<times> video \<Rightarrow> bool" where
  "keeps_screen v st \<longleftrightarrow> vid_ok (snd st) \<and> same_mode v (snd st)"

text \<open>A screen of 4 by 3 pixels of 24 bits, and an image of 2 by 2.\<close>

definition tiny_screen :: video where
  "tiny_screen = \<lparr>modeinfo = \<lparr>XResolution = 4, YResolution = 3, BitsPerPixel = 24, RedMaskSize = 8,
     RedFieldPosition = 16, GreenMaskSize = 8, GreenFieldPosition = 8, BlueMaskSize = 8,
     BlueFieldPosition = 0, PhysBasePtr = 0\<rparr>, buffer = replicate 36 0, video_mem = replicate 36 0,
     imgDeck = \<lparr>width = 0, height = 0\<rparr>, spriteDeck = [],
     imgCardBack = \<lparr>width = 0, height = 0\<rparr>, spriteCardBack = []\<rparr>"

text \<open>A screen of the size of one card.\<close>

definition card_screen :: video where
  "card_screen = tiny_screen\<lparr>modeinfo := (modeinfo tiny_screen)\<lparr>XResolution := 69, YResolution := 93\<rparr>,
     buffer := replicate 19251 0, video_mem := replicate 19251 0,
     imgDeck := \<lparr>width = 950, height = 392\<rparr>, spriteDeck := replicate (3 * 950 * 392) 7\<rparr>"

section \<open>The pixel contract\<close>

lemma same_mode_simps:
  assumes "same_mode v v'"
  shows "xres v' = xres v" "yres v' = yres v" "pixel_bytes v' = pixel_bytes v" "stride v' = stride v"
    "modeinfo v' = modeinfo v" "video_mem v' = video_mem v"
    "on_screen_px v' = on_screen_px v" "encode v' = encode v"
  using assms by (auto simp: same_mode_def xres_def yres_def pixel_bytes_def stride_def
      on_screen_px_def encode_def fun_eq_iff)

lemma pixel_index_inj:
  assumes "xres v * y + x = xres v * y' + x'" and "on_screen_px v x y" and "on_screen_px v x' y'"
  shows "x = x' \<and> y = y'"
proof -
  have "y = (xres v * y + x) div xres v" "y' = (xres v * y' + x') div xres v"
    using assms(2,3) by (auto simp: on_screen_px_def)
  with assms(1) show ?thesis by simp
qed

lemma pixel_index_bound:
  assumes "on_screen_px v x y"
  shows "0 \<le> xres v * y + x" "xres v * y + x < xres v * yres v"
proof -
  have "xres v * y + x < xres v * (y + 1)" using assms by (simp add: on_screen_px_def algebra_simps)
  also have "\<dots> \<le> xres v * yres v"
    using assms by (intro mult_left_mono) (auto simp: on_screen_px_def)
  finally show "xres v * y + x < xres v * yres v" .
qed (use assms in \<open>auto simp: on_screen_px_def\<close>)

lemma read_color:
  assumes "vid_ok v"
  shows "read_bytes (le_bytes c) 0 (nat (pixel_bytes v)) = Inr (encode v c)"
    and "length (encode v c) = nat (pixel_bytes v)"
  using assms by (auto simp: vid_ok_def read_bytes_def encode_def)

lemma draw_px_eq:
  assumes "vid_ok v" and "0 \<le> x" "x < 65536" "0 \<le> y" "y < 65536"
  shows "draw_px x y c v =
    (if x > xres v \<or> y > yres v then Inr v
     else andthen (memcpy_to (buffer v) ((xres v * y + x) * pixel_bytes v) (encode v c))
       (\<lambda>b. Inr (v\<lparr>buffer := b\<rparr>)))"
proof -
  have "uint (word_of_int x :: u16) = x" "uint (word_of_int y :: u16) = y"
    using assms(2-5) by (simp_all add: uint_word_of_int)
  moreover have "xres v * y * pixel_bytes v + x * pixel_bytes v = (xres v * y + x) * pixel_bytes v"
    by (simp add: algebra_simps)
  ultimately show ?thesis
    by (simp add: draw_px_def my_draw_pixel_def word_less_def xres_def [symmetric] yres_def [symmetric]
        read_color [OF assms(1)] andthen_def split: sum.split)
qed

lemma draw_px_inside:
  assumes ok: "vid_ok v" and xy: "on_screen_px v x y"
  shows "\<exists>v'. draw_px x y c v = Inr v' \<and> vid_ok v' \<and> same_mode v v' \<and>
    (\<forall>x' y'. on_screen_px v x' y' \<longrightarrow> pixel v' x' y' = (if x' = x \<and> y' = y then encode v c else pixel v x' y'))"
proof -
  let ?i = "xres v * y + x" and ?b = "pixel_bytes v"
  have lim: "xres v \<le> 65535" "yres v \<le> 65535"
    using uint_u16_bound by (simp_all add: xres_def yres_def)
  have b: "1 \<le> ?b" and buf: "int (length (buffer v)) = xres v * yres v * ?b"
    using ok by (auto simp: vid_ok_def)
  have "?i + 1 \<le> xres v * yres v" using pixel_index_bound(2) [OF xy] by simp
  then have "(?i + 1) * ?b \<le> xres v * yres v * ?b" using b by (intro mult_right_mono) auto
  then have "?i * ?b + ?b \<le> int (length (buffer v))" by (simp add: buf algebra_simps)
  moreover have i0: "0 \<le> ?i * ?b" using pixel_index_bound(1) [OF xy] b by simp
  ultimately obtain d where d: "memcpy_to (buffer v) (?i * ?b) (encode v c) = Inr d"
    using b by (simp add: memcpy_to_def read_color(2) [OF ok])
  have v': "draw_px x y c v = Inr (v\<lparr>buffer := d\<rparr>)"
    using xy lim d by (subst draw_px_eq [OF ok]) (auto simp: on_screen_px_def)
  have sm: "same_mode v (v\<lparr>buffer := d\<rparr>)" by (auto simp: same_mode_def)
  then have "vid_ok (v\<lparr>buffer := d\<rparr>)"
    using ok memcpy_to_length [OF d] same_mode_simps [OF sm] by (simp add: vid_ok_def)
  moreover have "pixel (v\<lparr>buffer := d\<rparr>) x' y' = (if x' = x \<and> y' = y then encode v c else pixel v x' y')"
    if xy': "on_screen_px v x' y'" for x' y'
  proof (cases "x' = x \<and> y' = y")
    case True
    then show ?thesis
      using memcpy_to_read_same [OF d] by (simp add: pixel_def same_mode_simps [OF sm] read_color(2) [OF ok])
  next
    case False
    let ?j = "xres v * y' + x'"
    have "?i \<noteq> ?j" using False pixel_index_inj [OF _ xy xy'] by auto
    then have "?j + 1 \<le> ?i \<or> ?i + 1 \<le> ?j" by linarith
    then have "(?j + 1) * ?b \<le> ?i * ?b \<or> (?i + 1) * ?b \<le> ?j * ?b"
      using b by (auto intro: mult_right_mono)
    then have "?j * ?b + ?b \<le> ?i * ?b \<or> ?i * ?b + ?b \<le> ?j * ?b"
      by (simp add: algebra_simps)
    moreover have "0 \<le> ?j * ?b" using pixel_index_bound(1) [OF xy'] b by simp
    ultimately have "nat (?j * ?b) + nat ?b \<le> nat (?i * ?b) \<or> nat (?i * ?b) + nat ?b \<le> nat (?j * ?b)"
      using i0 b by linarith
    with memcpy_to_read_other [OF d, of "nat (?j * ?b)" "nat ?b"] False show ?thesis
      by (auto simp: pixel_def same_mode_simps [OF sm] read_color(2) [OF ok])
  qed
  ultimately show ?thesis using v' sm by blast
qed

lemma same_mode_refl: "same_mode v v"
  unfolding same_mode_def by (rule exI [of _ "buffer v"]) simp

lemma same_mode_trans: "same_mode u v \<Longrightarrow> same_mode v w \<Longrightarrow> same_mode u w"
  by (auto simp: same_mode_def)

interpretation screen: pixel_sink draw_px pixel encode on_screen_px vid_ok same_mode
  by unfold_locales (blast intro: draw_px_inside same_mode_refl same_mode_trans same_mode_simps)+

section \<open>Images\<close>

lemma le_bytes_color_of: "le_bytes (color_of ju c) = [c ! 0, c ! 1, c ! 2, ju]"
  by (auto simp: le_bytes_def color_of_def intro!: bit_word_eqI simp: bit_simps u8_high_bit)

lemma encode_color_of:
  "pixel_bytes v = 3 \<Longrightarrow> length c = 3 \<Longrightarrow> encode v (color_of ju c) = c"
  by (auto simp: encode_def le_bytes_color_of numeral_3_eq_3 length_Suc_conv)

lemma blit_row_paints:
  assumes p: "screen.painted v S f u" and "0 \<le> w"
    and ins: "\<And>x. sx \<le> x \<Longrightarrow> x < sx + w \<Longrightarrow> on_screen_px v x line"
    and rd: "\<And>c. 0 \<le> c \<Longrightarrow> c < w \<Longrightarrow> 0 \<le> ptr + c * adv \<and> ptr + c * adv + 3 \<le> int (length sprite)"
    and f: "\<And>c. 0 \<le> c \<Longrightarrow> c < w \<Longrightarrow> f (sx + c) line = encode v (color_of ju (sprite_px sprite (ptr + c * adv)))"
  shows "\<exists>u'. blit_row ju sprite sx w adv skip line (ptr, u) = Inr (ptr + w * adv + skip, u') \<and>
    screen.painted v (S \<union> {(x, line) | x. sx \<le> x \<and> x < sx + w}) f u'"
proof -
  let ?I = "\<lambda>pre (q, t). q = ptr + int (length pre) * adv \<and> screen.painted v (S \<union> {(x, line) | x. x \<in> set pre}) f t"
  have "\<exists>st. for_each [sx..w + sx - 1] (blit_pixel ju sprite adv line) (ptr, u) = Inr st \<and> ?I [sx..w + sx - 1] st"
  proof (rule for_each_rule)
    show "?I [] (ptr, u)" using p by simp
    fix pre x post st
    assume e: "[sx..w + sx - 1] = pre @ x # post" and "?I pre st"
    then obtain t where st: "st = (ptr + int (length pre) * adv, t)"
      and t: "screen.painted v (S \<union> {(x, line) | x. x \<in> set pre}) f t" by (cases st) auto
    have x: "x = sx + int (length pre)" using e by (rule upto_split_nth)
    have "x \<in> set [sx..w + sx - 1]" by (simp only: e) simp
    then have c: "int (length pre) < w" using x by simp
    have "encode v (color_of ju (sprite_px sprite (ptr + int (length pre) * adv))) = f x line"
      using f [OF _ c] x by simp
    with screen.paint_one [OF t, of x line] ins [of x] c x obtain t'
      where t': "draw_px x line (color_of ju (sprite_px sprite (ptr + int (length pre) * adv))) t = Inr t'"
        "screen.painted v (insert (x, line) (S \<union> {(x, line) | x. x \<in> set pre})) f t'" by force
    have "insert (x, line) (S \<union> {(x, line) | x. x \<in> set pre}) = S \<union> {(x', line) | x'. x' \<in> set (pre @ [x])}"
      by auto
    with t' rd [OF _ c] show "\<exists>s'. blit_pixel ju sprite adv line x st = Inr s' \<and> ?I (pre @ [x]) s'"
      by (auto simp: blit_pixel_def st read_bytes_def sprite_px_def algebra_simps)
  qed
  moreover have "{(x, line) | x. x \<in> set [sx..w + sx - 1]} = {(x, line) | x. sx \<le> x \<and> x < sx + w}"
    by auto
  ultimately show ?thesis using assms(2) by (auto simp: blit_row_def)
qed

lemma blit_paints:
  assumes "vid_ok v" and "0 \<le> sx" "sx + w \<le> xres v" "0 \<le> sy" "sy + h \<le> yres v" "0 \<le> w"
    and rd: "\<And>r c. 0 \<le> r \<Longrightarrow> r < h \<Longrightarrow> 0 \<le> c \<Longrightarrow> c < w \<Longrightarrow>
      0 \<le> ptr + r * (w * adv + skip) + c * adv \<and> ptr + r * (w * adv + skip) + c * adv + 3 \<le> int (length sprite)"
  shows "\<exists>v'. blit ju sprite ptr sx sy w h adv skip v = Inr v' \<and>
    screen.painted v ({sx..<sx + w} \<times> {sy..<sy + h})
      (\<lambda>x y. encode v (color_of ju (sprite_px sprite (ptr + (y - sy) * (w * adv + skip) + (x - sx) * adv)))) v'"
proof -
  let ?f = "\<lambda>x y. encode v (color_of ju (sprite_px sprite (ptr + (y - sy) * (w * adv + skip) + (x - sx) * adv)))"
  let ?I = "\<lambda>pre (q, t). q = ptr + int (length pre) * (w * adv + skip) \<and>
    screen.painted v ({sx..<sx + w} \<times> set pre) ?f t"
  have "\<exists>st. for_each [sy..h + sy - 1] (blit_row ju sprite sx w adv skip) (ptr, v) = Inr st \<and> ?I [sy..h + sy - 1] st"
  proof (rule for_each_rule)
    show "?I [] (ptr, v)" using screen.painted_none [OF assms(1)] by simp
    fix pre y post st
    assume e: "[sy..h + sy - 1] = pre @ y # post" and "?I pre st"
    then obtain t where st: "st = (ptr + int (length pre) * (w * adv + skip), t)"
      and t: "screen.painted v ({sx..<sx + w} \<times> set pre) ?f t" by (cases st) auto
    have y: "y = sy + int (length pre)" using e by (rule upto_split_nth)
    have "y \<in> set [sy..h + sy - 1]" by (simp only: e) simp
    then have r: "int (length pre) < h" using y by simp
    let ?p = "ptr + int (length pre) * (w * adv + skip)"
    have "\<exists>u'. blit_row ju sprite sx w adv skip y (?p, t) = Inr (?p + w * adv + skip, u') \<and>
      screen.painted v ({sx..<sx + w} \<times> set pre \<union> {(x, y) | x. sx \<le> x \<and> x < sx + w}) ?f u'"
      using r y assms(2-6) rd by (intro blit_row_paints [OF t]) (auto simp: on_screen_px_def)
    moreover have "{sx..<sx + w} \<times> set pre \<union> {(x, y) | x. sx \<le> x \<and> x < sx + w} = {sx..<sx + w} \<times> set (pre @ [y])"
      by auto
    ultimately show "\<exists>s'. blit_row ju sprite sx w adv skip y st = Inr s' \<and> ?I (pre @ [y]) s'"
      by (auto simp: st algebra_simps)
  qed
  moreover have "set [sy..h + sy - 1] = {sy..<sy + h}" by auto
  ultimately show ?thesis by (auto simp: blit_def)
qed

lemma update_copies:
  assumes "vid_ok v"
  shows "my_updateVideoMem v = Inr (v\<lparr>video_mem := buffer v\<rparr>)"
proof -
  have n: "nat (pixel_bytes v * xres v * yres v) = length (buffer v)"
    using assms by (metis vid_ok_def mult.commute mult.left_commute nat_int)
  show ?thesis
    unfolding my_updateVideoMem_def Let_def n
    using assms by (simp add: read_bytes_def memcpy_to_def vid_ok_def)
qed

section \<open>Images over the bottom edge\<close>

lemma draw_px_keeps:
  assumes "vid_ok u" and "draw_px x y c u = Inr u'"
  shows "vid_ok u' \<and> same_mode u u'"
proof -
  from assms(2) have "u' = u \<or> (\<exists>b off src. memcpy_to (buffer u) off src = Inr b \<and> u' = u\<lparr>buffer := b\<rparr>)"
    by (auto simp: draw_px_def my_draw_pixel_def andthen_def split: if_splits sum.splits)
  then show ?thesis
  proof
    assume "u' = u"
    then show ?thesis using assms(1) same_mode_refl by simp
  next
    assume "\<exists>b off src. memcpy_to (buffer u) off src = Inr b \<and> u' = u\<lparr>buffer := b\<rparr>"
    then obtain b where b: "length b = length (buffer u)" "u' = u\<lparr>buffer := b\<rparr>"
      using memcpy_to_length by blast
    then have sm: "same_mode u u'" by (auto simp: same_mode_def)
    with assms(1) b same_mode_simps [OF sm] show ?thesis by (simp add: vid_ok_def)
  qed
qed

lemma draw_px_bottom:
  assumes "vid_ok u" and "0 \<le> x" and "x \<le> xres u"
  shows "draw_px x (yres u) c u = Inl Out_Of_Bounds"
proof -
  have lim: "0 \<le> yres u" "yres u \<le> 65535" "xres u \<le> 65535"
    using uint_u16_bound by (simp_all add: xres_def yres_def)
  have b: "1 \<le> pixel_bytes u" and buf: "int (length (buffer u)) = xres u * yres u * pixel_bytes u"
    using assms(1) by (auto simp: vid_ok_def)
  have "xres u * yres u * pixel_bytes u \<le> (xres u * yres u + x) * pixel_bytes u"
    using b assms(2) by (intro mult_right_mono) auto
  then have "\<not> (xres u * yres u + x) * pixel_bytes u + pixel_bytes u \<le> int (length (buffer u))"
    using b buf by linarith
  then have "memcpy_to (buffer u) ((xres u * yres u + x) * pixel_bytes u) (encode u c) = Inl Out_Of_Bounds"
    using b by (simp add: memcpy_to_def read_color(2) [OF assms(1)])
  then show ?thesis
    using assms lim by (subst draw_px_eq) auto
qed

lemma blit_pixel_keeps:
  assumes "keeps_screen v st" and "blit_pixel ju sprite adv line col st = Inr st'"
  shows "keeps_screen v st'"
  using assms draw_px_keeps same_mode_trans
  by (cases st) (fastforce simp: keeps_screen_def blit_pixel_def andthen_eq_Inr)

lemma blit_row_keeps:
  assumes "keeps_screen v st" and "blit_row ju sprite sx w adv skip line st = Inr st'"
  shows "keeps_screen v st'"
proof -
  from assms(2) obtain q where q: "for_each [sx..w + sx - 1] (blit_pixel ju sprite adv line) st = Inr q"
    and st': "snd st' = snd q" by (auto simp: blit_row_def andthen_eq_Inr)
  have "keeps_screen v q"
    by (rule for_each_preserves [where P = "keeps_screen v", OF q assms(1)]) (rule blit_pixel_keeps)
  then show ?thesis by (simp add: keeps_screen_def st')
qed

lemma blit_bottom_faults:
  assumes "vid_ok v" and "0 \<le> sx" and "sx \<le> xres v" and "0 < w" and "sy \<le> yres v" and "yres v < sy + h"
  shows "\<exists>e. blit ju sprite ptr sx sy w h adv skip v = Inl e"
proof -
  have "\<exists>e. for_each [sy..h + sy - 1] (blit_row ju sprite sx w adv skip) (ptr, v) = Inl e"
  proof (rule for_each_faults [where P = "keeps_screen v" and i = "yres v"])
    show "keeps_screen v (ptr, v)" using assms(1) same_mode_refl by (simp add: keeps_screen_def)
    show "yres v \<in> set [sy..h + sy - 1]" using assms(5,6) by simp
    show "keeps_screen v t'" if "keeps_screen v t" "blit_row ju sprite sx w adv skip j t = Inr t'" for j t t'
      using that by (rule blit_row_keeps)
    fix t assume t: "keeps_screen v t"
    then have "yres (snd t) = yres v" "xres (snd t) = xres v" "vid_ok (snd t)"
      by (auto simp: keeps_screen_def same_mode_simps)
    then have "draw_px sx (yres v) c (snd t) = Inl Out_Of_Bounds" for c
      using draw_px_bottom [of "snd t" sx c] assms(2,3) by simp
    then have "\<exists>e. blit_pixel ju sprite adv (yres v) sx t = Inl e"
      by (cases t) (auto simp: blit_pixel_def read_bytes_def)
    moreover have "[sx..w + sx - 1] = sx # [sx + 1..w + sx - 1]" using assms(4) by (intro upto_rec1) simp
    ultimately show "\<exists>e. blit_row ju sprite sx w adv skip (yres v) t = Inl e"
      by (auto simp: blit_row_def)
  qed
  then show ?thesis by (auto simp: blit_def)
qed

section \<open>Properties\<close>

lemma draw_image_total:
  assumes "vid_ok v" and "BitsPerPixel (modeinfo v) = 24"
    and "0 \<le> sx" and "sx + uint (width img) \<le> xres v" and "0 \<le> sy" and "sy + uint (height img) \<le> yres v"
    and "int (length sprite) = 3 * uint (width img) * uint (height img)"
  shows "\<exists>v'. draw_image ju sprite img sx sy v = Inr v' \<and> vid_ok v' \<and>
    (\<forall>x y. on_screen_px v x y \<longrightarrow> pixel v' x y =
      (if sx \<le> x \<and> x < sx + uint (width img) \<and> sy \<le> y \<and> y < sy + uint (height img)
       then take 3 (drop (nat (3 * ((y - sy) * uint (width img) + (x - sx)))) sprite) else pixel v x y))"
proof -
  let ?w = "uint (width img)" and ?h = "uint (height img)"
  have st: "stride v = 3" and pb: "pixel_bytes v = 3"
    using assms(2) by (simp_all add: stride_def pixel_bytes_def)
  have rd: "0 \<le> r * (?w * 3 + 0) + c * 3 \<and> r * (?w * 3 + 0) + c * 3 + 3 \<le> int (length sprite)"
    if "0 \<le> r" "r < ?h" "0 \<le> c" "c < ?w" for r c
  proof -
    have "(r + 1) * ?w \<le> ?h * ?w" using that by (intro mult_right_mono) auto
    with that assms(7) show ?thesis by (simp add: algebra_simps)
  qed
  have "\<exists>v'. blit ju sprite 0 sx sy ?w ?h (stride v) 0 v = Inr v' \<and>
    screen.painted v ({sx..<sx + ?w} \<times> {sy..<sy + ?h})
      (\<lambda>x y. encode v (color_of ju (sprite_px sprite (0 + (y - sy) * (?w * stride v + 0) + (x - sx) * stride v)))) v'"
    using assms(1,3-6) rd by (intro blit_paints) (auto simp: st)
  then obtain v' where "draw_image ju sprite img sx sy v = Inr v'"
    and p: "screen.painted v ({sx..<sx + ?w} \<times> {sy..<sy + ?h})
      (\<lambda>x y. encode v (color_of ju (sprite_px sprite ((y - sy) * (?w * 3) + (x - sx) * 3)))) v'"
    by (auto simp: draw_image_def st)
  moreover have "encode v (color_of ju (sprite_px sprite ((y - sy) * (?w * 3) + (x - sx) * 3))) =
      take 3 (drop (nat (3 * ((y - sy) * ?w + (x - sx)))) sprite)"
    if "(x, y) \<in> {sx..<sx + ?w} \<times> {sy..<sy + ?h}" for x y
    using rd [of "y - sy" "x - sx"] that
    by (subst encode_color_of [OF pb]) (auto simp: sprite_px_def algebra_simps)
  ultimately show ?thesis
    by (auto simp: screen.painted_def)
qed

text \<open>C15: An image that lies on the screen is drawn exactly: the call does not fault, every pixel of
  its rectangle holds the three bytes of the sprite at that place and every other pixel is unchanged.\<close>

lemma draw_image_exact:
  assumes "vid_ok v" and "BitsPerPixel (modeinfo v) = 24"
    and "0 \<le> sx" and "sx + uint (width img) \<le> xres v" and "0 \<le> sy" and "sy + uint (height img) \<le> yres v"
    and "int (length sprite) = 3 * uint (width img) * uint (height img)"
  shows "\<exists>v'. draw_image ju sprite img sx sy v = Inr v' \<and> vid_ok v' \<and>
    (\<forall>x y. on_screen_px v x y \<longrightarrow> pixel v' x y =
      (if sx \<le> x \<and> x < sx + uint (width img) \<and> sy \<le> y \<and> y < sy + uint (height img)
       then take 3 (drop (nat (3 * ((y - sy) * uint (width img) + (x - sx)))) sprite) else pixel v x y))"
  using assms by (rule draw_image_total)

lemma green_screen_total:
  assumes "vid_ok v"
  shows "\<exists>v'. greenScreen v = Inr (0, v') \<and> vid_ok v' \<and> (\<forall>x y. on_screen_px v x y \<longrightarrow> pixel v' x y = encode v GREEN)"
proof -
  have "\<exists>v'. for_each [0..yres v - 1] (\<lambda>i. for_each [0..xres v - 1] (\<lambda>j. draw_px j i GREEN)) v = Inr v' \<and>
    screen.painted v (set [0..xres v - 1] \<times> set [0..yres v - 1]) (\<lambda>_ _. encode v GREEN) v'"
    by (rule screen.paint_rows [OF assms]) (auto simp: on_screen_px_def)
  then show ?thesis
    by (auto simp: greenScreen_def screen.painted_def on_screen_px_def)
qed

lemma green_part_paints:
  assumes "vid_ok v" and "0 \<le> sx" and "sx \<le> xres v" and "0 \<le> sy" and "sy \<le> yres v"
  shows "\<exists>v'. greenPartOfScreen sx sy w h v = Inr v' \<and> vid_ok v' \<and> same_mode v v' \<and>
    (\<forall>x y. on_screen_px v x y \<longrightarrow> pixel v' x y =
      (if sx \<le> x \<and> x < sx + w \<and> sy \<le> y \<and> y < sy + h then encode v GREEN else pixel v x y))"
proof -
  let ?xs = "takeWhile (\<lambda>j. j \<noteq> xres v) [sx..w + sx - 1]" and ?ys = "takeWhile (\<lambda>i. i \<noteq> yres v) [sy..h + sy - 1]"
  have xs: "set ?xs = {i. sx \<le> i \<and> i \<le> w + sx - 1 \<and> i < xres v}"
    and ys: "set ?ys = {i. sy \<le> i \<and> i \<le> h + sy - 1 \<and> i < yres v}"
    by (rule set_takeWhile_upto [OF assms(3)], rule set_takeWhile_upto [OF assms(5)])
  have "\<exists>v'. for_each ?ys (\<lambda>i. for_each ?xs (\<lambda>j. draw_px j i GREEN)) v = Inr v' \<and>
    screen.painted v (set ?xs \<times> set ?ys) (\<lambda>_ _. encode v GREEN) v'"
    by (rule screen.paint_rows [OF assms(1)]) (use assms(2,4) in \<open>auto simp: on_screen_px_def xs ys\<close>)
  then show ?thesis
    by (auto simp: greenPartOfScreen_def screen.painted_def on_screen_px_def xs ys)
qed

text \<open>C25: \<open>greenPartOfScreen\<close> clips at the right and bottom edges: started on the screen, it paints exactly
  the part of the rectangle that is visible.\<close>

lemma greenPartOfScreen_clips:
  assumes "vid_ok v" and "0 \<le> sx" and "sx \<le> xres v" and "0 \<le> sy" and "sy \<le> yres v"
  shows "\<exists>v'. greenPartOfScreen sx sy w h v = Inr v' \<and> vid_ok v' \<and> same_mode v v' \<and>
    (\<forall>x y. on_screen_px v x y \<longrightarrow> pixel v' x y =
      (if sx \<le> x \<and> x < sx + w \<and> sy \<le> y \<and> y < sy + h then encode v GREEN else pixel v x y))"
  using assms by (rule green_part_paints)

text \<open>C20: The exact inputs on which \<open>my_draw_pixel\<close> writes outside the buffer: its guard admits the row below
  the screen and, on the last row, the column right of it.\<close>

lemma my_draw_pixel_fault_iff:
  assumes "vid_ok v" and "0 < xres v" and "0 < yres v"
  shows "my_draw_pixel px py c v = Inl Out_Of_Bounds \<longleftrightarrow>
    uint px \<le> xres v \<and> (uint py = yres v \<or> uint py = yres v - 1 \<and> uint px = xres v)"
proof -
  let ?i = "xres v * uint py + uint px" and ?b = "pixel_bytes v"
  have b: "1 \<le> ?b" and buf: "int (length (buffer v)) = xres v * yres v * ?b"
    using assms(1) by (auto simp: vid_ok_def)
  have nn: "0 \<le> ?b * uint px + ?b * (xres v * uint py)" using b by (simp add: xres_def)
  have "(?i * ?b + ?b \<le> xres v * yres v * ?b) = ((?i + 1) * ?b \<le> (xres v * yres v) * ?b)"
    by (simp add: algebra_simps)
  also have "\<dots> = (?i < xres v * yres v)" using b by (simp add: mult_le_cancel_right add1_zle_eq)
  finally have "my_draw_pixel px py c v = Inl Out_Of_Bounds \<longleftrightarrow>
      uint px \<le> xres v \<and> uint py \<le> yres v \<and> xres v * yres v \<le> ?i"
    using b buf nn
    by (auto simp: my_draw_pixel_def word_less_def xres_def [symmetric] yres_def [symmetric]
        read_color [OF assms(1)] memcpy_to_def not_less algebra_simps andthen_eq_Inl)
  also have "\<dots> \<longleftrightarrow> uint px \<le> xres v \<and> (uint py = yres v \<or> uint py = yres v - 1 \<and> uint px = xres v)"
  proof (intro conj_cong refl iffI)
    assume px: "uint px \<le> xres v" and "uint py \<le> yres v \<and> xres v * yres v \<le> ?i"
    then have py: "uint py \<le> yres v" and i: "xres v * (yres v - uint py) \<le> uint px"
      by (simp_all add: algebra_simps)
    show "uint py = yres v \<or> uint py = yres v - 1 \<and> uint px = xres v"
    proof (cases "uint py \<le> yres v - 2")
      case True
      then have "xres v * 2 \<le> xres v * (yres v - uint py)" using assms(2) by (intro mult_left_mono) auto
      with i px assms(2) show ?thesis by linarith
    next
      case False
      with py have "uint py = yres v \<or> uint py = yres v - 1" by linarith
      with i px show ?thesis by auto
    qed
  next
    assume "uint px \<le> xres v" and "uint py = yres v \<or> uint py = yres v - 1 \<and> uint px = xres v"
    then consider "uint py = yres v" | "yres v = uint py + 1" "uint px = xres v" by force
    then show "uint py \<le> yres v \<and> xres v * yres v \<le> ?i"
      by cases (simp_all add: distrib_left)
  qed
  finally show ?thesis .
qed

lemma vg_start_size:
  assumes "vg_start K mode v w = Inr (0, v', w')"
    and "\<forall>n w. fst (malloc K n w) \<noteq> None"
    and "BitsPerPixel (modeinfo v') \<in> {8, 15, 16, 24, 32}"
  shows "vid_ok v'"
proof -
  from assms(3) have "1 \<le> pixel_bytes v' \<and> pixel_bytes v' \<le> 4"
    by (auto simp: pixel_bytes_def)
  moreover have "malloc K n w \<noteq> (None, u)" for n w u
    using assms(2) by (metis fst_conv)
  ultimately show ?thesis
    using assms(1) by (auto simp: vg_start_def Let_def vid_ok_def fresh_block_def xres_def yres_def pixel_bytes_def
        split: prod.splits if_splits option.splits)
qed


lemma tiny_screen_ok:
  "vid_ok tiny_screen" "xres tiny_screen = 4" "yres tiny_screen = 3" "BitsPerPixel (modeinfo tiny_screen) = 24"
  by (simp_all add: vid_ok_def pixel_bytes_def xres_def yres_def tiny_screen_def)

theorem draw_image_exact_witness:
  "\<exists>v'. draw_image 0 [1, 2, 3, 4, 5, 6, 7, 8, 9, 10, 11, 12] \<lparr>width = 2, height = 2\<rparr> 1 1 tiny_screen = Inr v' \<and>
    pixel v' 2 1 = [4, 5, 6] \<and> pixel v' 3 1 = pixel tiny_screen 3 1"
proof -
  obtain v' where "draw_image 0 [1, 2, 3, 4, 5, 6, 7, 8, 9, 10, 11, 12] \<lparr>width = 2, height = 2\<rparr> 1 1 tiny_screen = Inr v'"
    and "\<forall>x y. on_screen_px tiny_screen x y \<longrightarrow> pixel v' x y =
      (if 1 \<le> x \<and> x < 3 \<and> 1 \<le> y \<and> y < 3
       then take 3 (drop (nat (3 * ((y - 1) * 2 + (x - 1)))) [1, 2, 3, 4, 5, 6, 7, 8, 9, 10, 11, 12])
       else pixel tiny_screen x y)"
    using draw_image_exact [OF tiny_screen_ok(1,4), of 1 "\<lparr>width = 2, height = 2\<rparr>" 1 "[1, 2, 3, 4, 5, 6, 7, 8, 9, 10, 11, 12]" 0]
    by (auto simp: tiny_screen_ok)
  then show ?thesis by (simp add: on_screen_px_def tiny_screen_ok)
qed

theorem greenPartOfScreen_clips_witness:
  "\<exists>v'. greenPartOfScreen 2 1 10 10 tiny_screen = Inr v' \<and> vid_ok v'"
  using greenPartOfScreen_clips [OF tiny_screen_ok(1), of 2 1 10 10] by (auto simp: tiny_screen_ok)

theorem my_draw_pixel_fault_iff_witness:
  "my_draw_pixel 0 3 GREEN tiny_screen = Inl Out_Of_Bounds \<and> my_draw_pixel 4 1 GREEN tiny_screen \<noteq> Inl Out_Of_Bounds"
  using my_draw_pixel_fault_iff [OF tiny_screen_ok(1), of 0 3 GREEN] my_draw_pixel_fault_iff [OF tiny_screen_ok(1), of 4 1 GREEN]
  by (simp add: tiny_screen_ok)

lemma card_face_paints:
  assumes "vid_ok v" and "BitsPerPixel (modeinfo v) = 24"
    and "imgDeck v = \<lparr>width = 950, height = 392\<rparr>" and "length (spriteDeck v) = 3 * 950 * 392"
    and "0 \<le> px" and "px < 13" and "0 \<le> py" and "py < 4"
    and "0 \<le> sx" and "sx + CARD_WIDTH \<le> xres v" and "0 \<le> sy" and "sy + CARD_HEIGHT \<le> yres v"
  shows "\<exists>v'. vg_draw_card ju sx sy px py v = Inr v' \<and> vid_ok v' \<and> same_mode v v' \<and>
    (\<forall>x y. on_screen_px v x y \<longrightarrow> pixel v' x y =
      (if sx \<le> x \<and> x < sx + CARD_WIDTH \<and> sy \<le> y \<and> y < sy + CARD_HEIGHT
       then take 3 (drop (nat (3 * ((99 * py + (y - sy)) * 950 + 73 * px + (x - sx)))) (spriteDeck v))
       else pixel v x y))"
proof -
  have st: "stride v = 3" and pb: "pixel_bytes v = 3"
    using assms(2) by (simp_all add: stride_def pixel_bytes_def)
  let ?ptr = "(px * 73 + 950 * (py * 99)) * 3"
  have rd: "0 \<le> ?ptr + r * (69 * 3 + 3 * (950 - 69)) + c * 3 \<and>
      ?ptr + r * (69 * 3 + 3 * (950 - 69)) + c * 3 + 3 \<le> int (length (spriteDeck v))"
    if "0 \<le> r" "r < 93" "0 \<le> c" "c < 69" for r c
    using that assms(4-8) by simp
  have "\<exists>v'. blit ju (spriteDeck v) ?ptr sx sy 69 93 3 (3 * (950 - 69)) v = Inr v' \<and>
    screen.painted v ({sx..<sx + 69} \<times> {sy..<sy + 93})
      (\<lambda>x y. encode v (color_of ju (sprite_px (spriteDeck v)
        (?ptr + (y - sy) * (69 * 3 + 3 * (950 - 69)) + (x - sx) * 3)))) v'"
    using assms(1,9-12) rd by (intro blit_paints) (auto simp: card_consts)
  then obtain v' where "vg_draw_card ju sx sy px py v = Inr v'"
    and "screen.painted v ({sx..<sx + 69} \<times> {sy..<sy + 93})
      (\<lambda>x y. encode v (color_of ju (sprite_px (spriteDeck v)
        (?ptr + (y - sy) * (69 * 3 + 3 * (950 - 69)) + (x - sx) * 3)))) v'"
    using assms(3,5,7) by (auto simp: vg_draw_card_def Let_def st card_consts)
  moreover have "encode v (color_of ju (sprite_px (spriteDeck v)
        (?ptr + (y - sy) * (69 * 3 + 3 * (950 - 69)) + (x - sx) * 3))) =
      take 3 (drop (nat (3 * ((99 * py + (y - sy)) * 950 + 73 * px + (x - sx)))) (spriteDeck v))"
    if "(x, y) \<in> {sx..<sx + 69} \<times> {sy..<sy + 93}" for x y
    using rd [of "y - sy" "x - sx"] that
    by (subst encode_color_of [OF pb]) (auto simp: sprite_px_def algebra_simps)
  ultimately show ?thesis
    by (auto simp: screen.painted_def card_consts)
qed

text \<open>C40: \<open>vg_draw_card\<close> shows the card at column \<open>px\<close> and row \<open>py\<close> of the deck sheet: every pixel of the card's
  rectangle is the one of the sheet \<open>73 * px\<close> columns and \<open>99 * py\<close> rows further, for all 52 faces.\<close>

lemma vg_draw_card_face:
  assumes "vid_ok v" and "BitsPerPixel (modeinfo v) = 24"
    and "imgDeck v = \<lparr>width = 950, height = 392\<rparr>" and "length (spriteDeck v) = 3 * 950 * 392"
    and "0 \<le> px" and "px < 13" and "0 \<le> py" and "py < 4"
    and "0 \<le> sx" and "sx + CARD_WIDTH \<le> xres v" and "0 \<le> sy" and "sy + CARD_HEIGHT \<le> yres v"
  shows "\<exists>v'. vg_draw_card ju sx sy px py v = Inr v' \<and> vid_ok v' \<and> same_mode v v' \<and>
    (\<forall>x y. on_screen_px v x y \<longrightarrow> pixel v' x y =
      (if sx \<le> x \<and> x < sx + CARD_WIDTH \<and> sy \<le> y \<and> y < sy + CARD_HEIGHT
       then take 3 (drop (nat (3 * ((99 * py + (y - sy)) * 950 + 73 * px + (x - sx)))) (spriteDeck v))
       else pixel v x y))"
  using assms by (rule card_face_paints)

theorem vg_draw_card_face_witness:
  "\<exists>v'. vg_draw_card 0 0 0 12 3 card_screen = Inr v' \<and> vid_ok v'"
proof -
  have "vid_ok card_screen" "xres card_screen = 69" "yres card_screen = 93"
    by (simp_all add: card_screen_def tiny_screen_def vid_ok_def pixel_bytes_def xres_def yres_def)
  then have "\<exists>v'. vg_draw_card 0 0 0 12 3 card_screen = Inr v' \<and> vid_ok v' \<and> same_mode card_screen v' \<and>
    (\<forall>x y. on_screen_px card_screen x y \<longrightarrow> pixel v' x y =
      (if 0 \<le> x \<and> x < 0 + CARD_WIDTH \<and> 0 \<le> y \<and> y < 0 + CARD_HEIGHT
       then take 3 (drop (nat (3 * ((99 * 3 + (y - 0)) * 950 + 73 * 12 + (x - 0)))) (spriteDeck card_screen))
       else pixel card_screen x y))"
    by (intro vg_draw_card_face) (simp_all add: card_consts card_screen_def tiny_screen_def)
  then show ?thesis by blast
qed

end
