(* ===== verification/Game.thy ===== *)
theory Game
  imports Complex_Main Video "HOL-Library.Multiset"
begin

text \<open>
  \<open>proj/src/game.c\<close> and \<open>structs.h\<close>: the memory game.  The record \<open>game\<close> holds the globals
  of \<open>game.c\<close>; the operations that draw also take the frame buffer.
\<close>

section \<open>Data\<close>

datatype cardNumber = Ace | Two | Three | Four | Five | Six | Seven | Eight | Nine | Ten
  | Jack | Queen | King

datatype cardSuit = Spades | Clubs | Hearts | Diamonds

record card =
  card_x :: int
  card_y :: int
  isFlipped :: bool
  isFlipping :: bool
  flipSuccess :: bool
  num :: cardNumber
  suit :: cardSuit

record player =
  p_name :: string
  lives :: u32
  isAlive :: bool
  bestTime :: rat

record mouse_pos =
  mouse_x :: int
  mouse_y :: int

record game =
  cardArray :: "card list"
  p1 :: player
  increaseWidth :: int
  otherSide :: "int list"
  mouse :: mouse_pos
  imgGameName :: xpm_image
  spriteGameName :: "u8 list"
  imgMouse :: xpm_image
  spriteMouse :: "u8 list"
  imgHeart :: xpm_image
  spriteHeart :: "u8 list"
  imgVictory :: xpm_image
  spriteVictory :: "u8 list"
  imgGameOver :: xpm_image
  spriteGameOver :: "u8 list"
  imgInstructions :: xpm_image
  spriteInstructions :: "u8 list"
  imgMoon :: xpm_image
  spriteMoon :: "u8 list"
  imgSun :: xpm_image
  spriteSun :: "u8 list"
  imgBackground :: xpm_image
  spriteBackground :: "u8 list"

definition RAND_MAX :: nat where "RAND_MAX = 0x7fffffff"

section \<open>Dealing\<close>

definition getCardNumber :: "int \<Rightarrow> cardNumber" where
  "getCardNumber x =
     (if x = 0 then Ace else if x = 1 then Two else if x = 2 then Three
      else if x = 3 then Four else if x = 4 then Five else if x = 5 then Six
      else if x = 6 then Seven else if x = 7 then Eight else if x = 8 then Nine
      else if x = 9 then Ten else if x = 10 then Jack else if x = 11 then Queen
      else if x = 12 then King else Ace)"

definition getCardSuit :: "int \<Rightarrow> cardSuit" where
  "getCardSuit y =
     (if y = 0 then Clubs else if y = 1 then Spades else if y = 2 then Hearts
      else if y = 3 then Diamonds else Clubs)"

text \<open>
  The inner loop of the face generator: it looks for the drawn pair among the first \<open>i\<close>
  and stores it at \<open>i\<close> as long as it has not met it.
\<close>

function dup_scan :: "int \<Rightarrow> int \<Rightarrow> nat \<Rightarrow> nat \<Rightarrow> int list \<Rightarrow> int list \<Rightarrow> bool \<times> int list \<times> int list" where
  "dup_scan rf rs i j first second =
     (if j < i then
        (if rf = first ! j \<and> rs = second ! j then (True, first, second)
         else dup_scan rf rs i (Suc j) (first[i := rf]) (second[i := rs]))
      else (False, first, second))"
  by pat_completeness auto
termination
  by (relation "measure (\<lambda>(rf, rs, i, j, first, second). i - j)") auto

declare dup_scan.simps [simp del]

partial_function (option) pick_faces ::
  "'w kernel \<Rightarrow> nat \<Rightarrow> int list \<Rightarrow> int list \<Rightarrow> 'w \<Rightarrow> (int list \<times> int list \<times> 'w) option" where
  "pick_faces K i first second w =
     (if i < 8 then
        (case rand K w of (r1, w1) \<Rightarrow>
         case rand K w1 of (r2, w2) \<Rightarrow>
         case dup_scan (r1 mod 4) (r2 mod 13) i 0 first second of (dup, first', second') \<Rightarrow>
           pick_faces K (if dup then i else Suc i) first' second' w2)
      else Some (first, second, w))"

definition mk_card :: "int \<Rightarrow> int \<Rightarrow> card" where
  "mk_card cardposX cardposY =
     \<lparr>card_x = cardposX, card_y = cardposY, isFlipped = False, isFlipping = False,
      flipSuccess = False, num = getCardNumber cardposX, suit = getCardSuit cardposY\<rparr>"

text \<open>Cards \<open>i\<close> and \<open>15 - i\<close> get the \<open>i\<close>-th face.\<close>

definition lay_pairs :: "int list \<Rightarrow> int list \<Rightarrow> card list \<Rightarrow> card list" where
  "lay_pairs first second cs =
     fold (\<lambda>i cs. cs[i := mk_card (second ! i) (first ! i), 15 - i := mk_card (second ! i) (first ! i)])
       [0..<8] cs"

definition shuffle_index :: "nat \<Rightarrow> int \<Rightarrow> nat" where
  "shuffle_index i r = i + nat r div (RAND_MAX div (16 - i) + 1)"

definition shuffle_step :: "'w kernel \<Rightarrow> nat \<Rightarrow> card list \<times> 'w \<Rightarrow> (card list \<times> 'w) result" where
  "shuffle_step K i st =
     (case st of (cs, w) \<Rightarrow>
      case rand K w of (r, w1) \<Rightarrow>
      let j = shuffle_index i r in
      if j < length cs \<and> i < length cs then Inr (cs[j := cs ! i, i := cs ! j], w1)
      else Inl Out_Of_Bounds)"

definition initialize_game_cards :: "'w kernel \<Rightarrow> card list \<Rightarrow> 'w \<Rightarrow> (card list \<times> 'w) run" where
  "initialize_game_cards K cs w =
     (case rand K w of (r1, w1) \<Rightarrow>
      case rand K w1 of (r2, w2) \<Rightarrow>
      let blank = replicate 8 (uint (indeterminate K w)) in
      case pick_faces K 1 (blank[0 := r1 mod 4]) (blank[0 := r2 mod 13]) w2 of
        None \<Rightarrow> None
      | Some (first, second, w3) \<Rightarrow>
          Some (for_each [0..<15] (shuffle_step K) (lay_pairs first second cs, w3)))"

definition initializePlayer :: "game \<Rightarrow> game" where
  "initializePlayer g =
     g\<lparr>p1 := \<lparr>p_name = ''TestNome'', lives = 5, isAlive = True, bestTime = 0\<rparr>\<rparr>"

definition getCardsScreenXY :: "int \<Rightarrow> int \<Rightarrow> video \<Rightarrow> int \<times> int" where
  "getCardsScreenXY x y v =
     (let startX = xres v div 2 - 2 * (CARD_WIDTH + 30);
          startY = yres v div 2 - 2 * (CARD_HEIGHT + 20)
      in (startX + (CARD_WIDTH + 30) * x, startY + (CARD_HEIGHT + 20) * y))"

section \<open>Mouse pointer\<close>

definition create_mouse :: "game \<Rightarrow> game" where
  "create_mouse g = g\<lparr>mouse := \<lparr>mouse_x = 0, mouse_y = 0\<rparr>\<rparr>"

definition draw_mouse :: "u8 \<Rightarrow> game \<Rightarrow> video \<Rightarrow> video result" where
  "draw_mouse ju g v = draw_image ju (spriteMouse g) (imgMouse g) (mouse_x (mouse g)) (mouse_y (mouse g)) v"

definition update_mouse_x :: "int \<Rightarrow> video \<Rightarrow> int \<Rightarrow> int" where
  "update_mouse_x x v mx =
     (if mx + x < 0 then 0 else if mx + x \<ge> xres v then xres v - 15 else mx + c_div x 2)"

definition update_mouse_y :: "int \<Rightarrow> video \<Rightarrow> int \<Rightarrow> int" where
  "update_mouse_y y v my =
     (if my - y < 0 then 0 else if my + y \<ge> yres v then yres v - 15 else my - c_div y 2)"

definition update_mouse_position :: "int \<Rightarrow> int \<Rightarrow> video \<Rightarrow> game \<Rightarrow> game" where
  "update_mouse_position x y v g =
     g\<lparr>mouse := \<lparr>mouse_x = update_mouse_x x v (mouse_x (mouse g)),
                 mouse_y = update_mouse_y y v (mouse_y (mouse g))\<rparr>\<rparr>"

section \<open>Menus\<close>

definition draw_letter :: "'w kernel \<Rightarrow> u8 \<Rightarrow> int \<Rightarrow> int \<Rightarrow> xpm_map \<Rightarrow> video \<times> 'w \<Rightarrow> (video \<times> 'w) result" where
  "draw_letter K ju screenX screenY letter st =
     (case st of (v, w) \<Rightarrow>
      case xpm_load K letter XPM_8_8_8 w of ((sprite, img), w') \<Rightarrow>
      andthen (draw_image ju sprite img screenX screenY v) (\<lambda>v'. Inr (v', w')))"

text \<open>The loops over a word: one letter every \<open>LETTER_WIDTH + 5\<close> columns.\<close>

primrec draw_word :: "'w kernel \<Rightarrow> u8 \<Rightarrow> int \<Rightarrow> int \<Rightarrow> xpm_map list \<Rightarrow> video \<times> 'w \<Rightarrow> (video \<times> 'w) result" where
  "draw_word K ju startX startY [] st = Inr st"
| "draw_word K ju startX startY (l # ls) st =
     andthen (draw_letter K ju startX startY l st)
       (draw_word K ju (startX + (LETTER_WIDTH + 5)) startY ls)"

definition wordPlay :: "xpm_map list" where
  "wordPlay = [''p'', ''l'', ''a'', ''y'']"
definition wordResume :: "xpm_map list" where
  "wordResume = [''r'', ''e'', ''s'', ''u'', ''m'', ''e'']"
definition wordInstructions :: "xpm_map list" where
  "wordInstructions = [''i'', ''n'', ''s'', ''t'', ''r'', ''u'', ''c'', ''t'', ''i'', ''o'', ''n'', ''s'']"
definition wordExit :: "xpm_map list" where
  "wordExit = [''e'', ''x'', ''i'', ''t'']"

definition draw_menu :: "'w kernel \<Rightarrow> u8 \<Rightarrow> game \<Rightarrow> video \<times> 'w \<Rightarrow> (video \<times> 'w) result" where
  "draw_menu K ju g st =
     (case st of (v, w) \<Rightarrow>
      andthen (draw_image ju (spriteGameName g) (imgGameName g) 268 50 v) (\<lambda>v1.
      andthen (draw_word K ju (xres v1 div 2 - 2 * (LETTER_WIDTH + 5)) 300 wordPlay (v1, w)) (\<lambda>st2.
      andthen (draw_word K ju (xres v1 div 2 - 6 * (LETTER_WIDTH + 5)) 400 wordInstructions st2) (\<lambda>st3.
      draw_word K ju (xres v1 div 2 - 2 * (LETTER_WIDTH + 5)) 500 wordExit st3))))"

definition draw_pause :: "'w kernel \<Rightarrow> u8 \<Rightarrow> game \<Rightarrow> video \<times> 'w \<Rightarrow> (video \<times> 'w) result" where
  "draw_pause K ju g st =
     (case st of (v, w) \<Rightarrow>
      andthen (draw_image ju (spriteGameName g) (imgGameName g) 268 50 v) (\<lambda>v1.
      andthen (draw_word K ju (xres v1 div 2 - 3 * (LETTER_WIDTH + 5)) 300 wordResume (v1, w)) (\<lambda>st2.
      andthen (draw_word K ju (xres v1 div 2 - 6 * (LETTER_WIDTH + 5)) 400 wordInstructions st2) (\<lambda>st3.
      draw_word K ju (xres v1 div 2 - 2 * (LETTER_WIDTH + 5)) 500 wordExit st3))))"

definition draw_victory :: "u8 \<Rightarrow> game \<Rightarrow> video \<Rightarrow> video result" where
  "draw_victory ju g v =
     draw_image ju (spriteVictory g) (imgVictory g)
       (xres v div 2 - uint (width (imgVictory g)) div 2)
       (yres v div 2 - uint (height (imgVictory g)) div 2) v"

definition draw_game_over :: "u8 \<Rightarrow> game \<Rightarrow> video \<Rightarrow> video result" where
  "draw_game_over ju g v =
     draw_image ju (spriteGameOver g) (imgGameOver g)
       (xres v div 2 - uint (width (imgGameOver g)) div 2)
       (yres v div 2 - uint (height (imgGameOver g)) div 2) v"

primrec draw_hearts_at :: "u8 \<Rightarrow> game \<Rightarrow> int \<Rightarrow> nat \<Rightarrow> video \<Rightarrow> video result" where
  "draw_hearts_at ju g screenX 0 v = Inr v"
| "draw_hearts_at ju g screenX (Suc n) v =
     andthen (draw_image ju (spriteHeart g) (imgHeart g) screenX 15 v)
       (draw_hearts_at ju g (screenX + (uint (width (imgHeart g)) + 5)) n)"

definition drawHearts :: "u8 \<Rightarrow> game \<Rightarrow> video \<Rightarrow> video result" where
  "drawHearts ju g v = draw_hearts_at ju g 10 (unat (lives (p1 g))) v"

definition drawMoon :: "u8 \<Rightarrow> game \<Rightarrow> video \<Rightarrow> video result" where
  "drawMoon ju g v = draw_image ju (spriteMoon g) (imgMoon g) 600 10 v"

definition drawSun :: "u8 \<Rightarrow> game \<Rightarrow> video \<Rightarrow> video result" where
  "drawSun ju g v = draw_image ju (spriteSun g) (imgSun g) 0 10 v"

definition drawBackground :: "u8 \<Rightarrow> game \<Rightarrow> video \<Rightarrow> video result" where
  "drawBackground ju g v = draw_image ju (spriteBackground g) (imgBackground g) 0 0 v"

definition drawInstructions :: "u8 \<Rightarrow> game \<Rightarrow> video \<Rightarrow> video result" where
  "drawInstructions ju g v = draw_image ju (spriteInstructions g) (imgInstructions g) 0 0 v"

section \<open>Flipping\<close>

text \<open>
  The two halves of the drawing of a card in motion: its face, squeezed horizontally by
  \<open>increaseWidth\<close>, and its back.
\<close>

definition flip_draw_front :: "u8 \<Rightarrow> game \<Rightarrow> nat \<Rightarrow> video \<Rightarrow> video result" where
  "flip_draw_front ju g i v =
     (let (screenX, screenY) = getCardsScreenXY (int i mod 4) (int i div 4) v in
      andthen (greenPartOfScreen screenX screenY CARD_WIDTH CARD_HEIGHT v) (\<lambda>v1.
      let spriteStartX = card_x (cardArray g ! i) * 73; spriteStartY = card_y (cardArray g ! i) * 99 in
      if increaseWidth g = 0 then Inl Division_By_Zero
      else blit ju (spriteDeck v1)
        ((spriteStartX + uint (width (imgDeck v1)) * spriteStartY) * stride v1)
        screenX screenY (c_div CARD_WIDTH (increaseWidth g)) CARD_HEIGHT
        (stride v1 * increaseWidth g)
        (stride v1 * (uint (width (imgDeck v1)) - CARD_WIDTH)) v1))"

definition flip_draw_back :: "u8 \<Rightarrow> game \<Rightarrow> nat \<Rightarrow> video \<Rightarrow> video result" where
  "flip_draw_back ju g i v =
     (let (screenX, screenY) = getCardsScreenXY (int i mod 4) (int i div 4) v in
      andthen (greenPartOfScreen screenX screenY CARD_WIDTH CARD_HEIGHT v) (\<lambda>v1.
      if increaseWidth g = 0 \<and> 0 < height (imgCardBack v1) then Inl Division_By_Zero
      else blit ju (spriteCardBack v1) 0 screenX screenY
        (c_div (uint (width (imgCardBack v1))) (increaseWidth g)) (uint (height (imgCardBack v1)))
        (stride v1 * increaseWidth g) 0 v1))"

definition flipping :: "game \<Rightarrow> nat \<Rightarrow> bool" where
  "flipping g i \<longleftrightarrow> isFlipping (cardArray g ! i)"

text \<open>The assignment to \<open>otherSide[i]\<close>; \<open>up\<close> is the value of \<open>isFlipped\<close> the caller looks for.\<close>

definition mark_other_side :: "bool \<Rightarrow> nat \<Rightarrow> game \<Rightarrow> game" where
  "mark_other_side up i g =
     (if increaseWidth g > 10 \<and> isFlipped (cardArray g ! i) = up
      then g\<lparr>otherSide := (otherSide g)[i := 1]\<rparr> else g)"

definition flip_down_draw :: "u8 \<Rightarrow> nat \<Rightarrow> game \<times> video \<Rightarrow> (game \<times> video) result" where
  "flip_down_draw ju i st =
     (case st of (g, v) \<Rightarrow>
      if flipping g i then
        (let g1 = mark_other_side False i g in
         andthen (if otherSide g1 ! i = 0 then flip_draw_front ju g1 i v else flip_draw_back ju g1 i v)
           (\<lambda>v1. Inr (g1, v1)))
      else Inr (g, v))"

definition flip_up_draw :: "u8 \<Rightarrow> nat \<Rightarrow> game \<times> video \<Rightarrow> (game \<times> video) result" where
  "flip_up_draw ju i st =
     (case st of (g, v) \<Rightarrow>
      if flipping g i then
        (let g1 = mark_other_side True i g in
         andthen (if otherSide g1 ! i \<noteq> 0 then flip_draw_front ju g1 i v else flip_draw_back ju g1 i v)
           (\<lambda>v1. Inr (g1, v1)))
      else Inr (g, v))"

text \<open>The width loop: one up or down for each card in motion.\<close>

definition flip_width :: "nat \<Rightarrow> game \<Rightarrow> game" where
  "flip_width i g =
     (if otherSide g ! i = 0 \<and> flipping g i then g\<lparr>increaseWidth := increaseWidth g + 1\<rparr>
      else if flipping g i then g\<lparr>increaseWidth := increaseWidth g - 1\<rparr>
      else g)"

text \<open>The completion loop, which settles every card in motion with the given face.\<close>

definition settle :: "bool \<Rightarrow> nat \<Rightarrow> game \<Rightarrow> game" where
  "settle hidden i g =
     (if flipping g i then
        g\<lparr>cardArray := (cardArray g)[i := (cardArray g ! i)\<lparr>isFlipping := False, isFlipped := hidden\<rparr>],
          otherSide := (otherSide g)[i := 0], increaseWidth := 1\<rparr>
      else g)"

definition flipACardDown :: "u8 \<Rightarrow> game \<times> video \<Rightarrow> (bool \<times> game \<times> video) result" where
  "flipACardDown ju st =
     andthen (for_each [0..<16] (flip_down_draw ju) st) (\<lambda>(g, v).
     let g1 = fold flip_width [0..<16] g in
     if increaseWidth g1 = 1 then Inr (True, fold (settle True) [0..<16] g1, v)
     else Inr (False, g1, v))"

definition flipACardUp :: "u8 \<Rightarrow> game \<times> video \<Rightarrow> (bool \<times> game \<times> video) result" where
  "flipACardUp ju st =
     andthen (for_each [0..<16] (flip_up_draw ju) st) (\<lambda>(g, v).
     let g1 = fold flip_width [0..<16] g in
     if increaseWidth g1 = 0 then Inr (True, fold (settle False) [0..<16] g1, v)
     else Inr (False, g1, v))"

text \<open>\<open>flipAllCardsDown\<close>, which counts the last card only.\<close>

definition settle_keep_width :: "nat \<Rightarrow> game \<Rightarrow> game" where
  "settle_keep_width i g =
     (if flipping g i then
        g\<lparr>cardArray := (cardArray g)[i := (cardArray g ! i)\<lparr>isFlipping := False, isFlipped := True\<rparr>],
          otherSide := (otherSide g)[i := 0]\<rparr>
      else g)"

definition flipAllCardsDown :: "u8 \<Rightarrow> game \<times> video \<Rightarrow> (bool \<times> game \<times> video) result" where
  "flipAllCardsDown ju st =
     andthen (for_each [0..<16] (flip_down_draw ju) st) (\<lambda>(g, v).
     let g1 = flip_width 15 g in
     if increaseWidth g1 = 1 then Inr (True, fold settle_keep_width [0..<16] g1, v)
     else Inr (False, g1, v))"

text \<open>
  \<open>draw_game_cards\<close>: the loop over the cards with its screen position and its
  \<open>break\<close> when the next card would leave the screen.
\<close>

definition draw_one_card :: "u8 \<Rightarrow> nat \<Rightarrow> int \<Rightarrow> int \<Rightarrow> game \<times> video \<Rightarrow> (game \<times> video) result" where
  "draw_one_card ju i startX startY st =
     (case st of (g, v) \<Rightarrow>
      if flipping g i \<and> isFlipped (cardArray g ! i) then
        andthen (flipACardUp ju (g, v)) (\<lambda>(_, st'). Inr st')
      else if flipping g i \<and> \<not> isFlipped (cardArray g ! i) then
        andthen (flipACardDown ju (g, v)) (\<lambda>(_, st'). Inr st')
      else if \<not> isFlipped (cardArray g ! i) then
        andthen (vg_draw_card ju startX startY (card_x (cardArray g ! i)) (card_y (cardArray g ! i)) v)
          (\<lambda>v1. Inr (g, v1))
      else andthen (vg_draw_card ju startX startY (-1) (-1) v) (\<lambda>v1. Inr (g, v1)))"

definition card_startX :: "video \<Rightarrow> int" where
  "card_startX v = xres v div 2 - 2 * (CARD_WIDTH + 30)"

definition card_startY :: "video \<Rightarrow> int" where
  "card_startY v = yres v div 2 - 2 * (CARD_HEIGHT + 20)"

primrec draw_cards_from :: "u8 \<Rightarrow> nat list \<Rightarrow> int \<Rightarrow> int \<Rightarrow> int \<Rightarrow> game \<times> video \<Rightarrow> (game \<times> video) result" where
  "draw_cards_from ju [] cardsPerLine startX startY st = Inr st"
| "draw_cards_from ju (i # is) cardsPerLine startX startY st =
     andthen (draw_one_card ju i startX startY st) (\<lambda>(g, v).
     let cardsPerLine1 = cardsPerLine + 1;
         (startX1, startY1) =
           (if cardsPerLine1 mod 4 = 0 then (card_startX v, startY + (CARD_HEIGHT + 20))
            else (startX + (CARD_WIDTH + 30), startY)) in
     if startX1 + CARD_WIDTH + 20 > xres v \<or> startY1 + CARD_HEIGHT + 10 > yres v then Inr (g, v)
     else draw_cards_from ju is cardsPerLine1 startX1 startY1 (g, v))"

definition draw_game_cards :: "u8 \<Rightarrow> game \<times> video \<Rightarrow> (game \<times> video) result" where
  "draw_game_cards ju st =
     (case st of (g, v) \<Rightarrow>
      andthen (drawBackground ju g v) (\<lambda>v1.
      draw_cards_from ju [0..<16] 0 (card_startX v1) (card_startY v1) (g, v1)))"

section \<open>Clicking\<close>

text \<open>The cards in the order \<open>flipCardOnClick\<close> tests them.\<close>

definition click_order :: "(nat \<times> nat) list" where
  "click_order = [(0, 0), (0, 1), (2, 0), (3, 0), (1, 0), (1, 1), (2, 1), (3, 1),
     (0, 2), (1, 2), (2, 2), (3, 2), (0, 3), (1, 3), (2, 3), (3, 3)]"

definition pointer_on :: "nat \<Rightarrow> nat \<Rightarrow> game \<Rightarrow> video \<Rightarrow> bool" where
  "pointer_on x y g v =
     (let (screenX, screenY) = getCardsScreenXY (int x) (int y) v in
      mouse_x (mouse g) \<ge> screenX \<and> mouse_x (mouse g) \<le> screenX + CARD_WIDTH \<and>
      mouse_y (mouse g) \<ge> screenY \<and> mouse_y (mouse g) \<le> screenY + CARD_HEIGHT)"

definition set_flipping :: "bool \<Rightarrow> nat \<Rightarrow> game \<Rightarrow> game" where
  "set_flipping b i g = g\<lparr>cardArray := (cardArray g)[i := (cardArray g ! i)\<lparr>isFlipping := b\<rparr>]\<rparr>"

definition click_card :: "video \<Rightarrow> nat \<times> nat \<Rightarrow> nat option \<times> game \<Rightarrow> nat option \<times> game" where
  "click_card v xy st =
     (case (xy, st) of ((x, y), (posInArray, g)) \<Rightarrow>
      if pointer_on x y g v then (Some (x + y * 4), set_flipping True (x + y * 4) g)
      else (posInArray, g))"

text \<open>\<open>posInArray\<close> is assigned only when the pointer is on a card.\<close>

definition flipCardOnClick :: "video \<Rightarrow> game \<Rightarrow> game result" where
  "flipCardOnClick v g =
     (case fold (click_card v) click_order (None, g) of
        (None, _) \<Rightarrow> Inl Uninitialised
      | (Some p, g1) \<Rightarrow>
          if \<not> isFlipped (cardArray g1 ! p) then Inr (set_flipping False p g1) else Inr g1)"

section \<open>Dealing\<close>

definition dealt :: "card list \<Rightarrow> bool" where
  "dealt cs \<longleftrightarrow> (\<exists>fs. length fs = 8 \<and> distinct fs \<and> set fs \<subseteq> {0..<13} \<times> {0..<4} \<and>
     mset cs = mset (map (\<lambda>(x, y). mk_card x y) (fs @ fs)))"

definition rand_ok :: "'w kernel \<Rightarrow> bool" where
  "rand_ok K \<longleftrightarrow> (\<forall>w. 0 \<le> fst (rand K w) \<and> fst (rand K w) \<le> int RAND_MAX)"

text \<open>The pair of draws for one face, and the worlds after repeated draws.\<close>

definition draw_face :: "'w kernel \<Rightarrow> 'w \<Rightarrow> (int \<times> int) \<times> 'w" where
  "draw_face K w = (case rand K w of (r1, w1) \<Rightarrow> case rand K w1 of (r2, w2) \<Rightarrow> ((r2 mod 13, r1 mod 4), w2))"

fun draws :: "'w kernel \<Rightarrow> nat \<Rightarrow> 'w \<Rightarrow> 'w" where
  "draws K 0 w = w"
| "draws K (Suc n) w = draws K n (snd (draw_face K w))"

text \<open>No seven faces can be all that the generator produces from some point on.\<close>

definition rand_fair :: "'w kernel \<Rightarrow> bool" where
  "rand_fair K \<longleftrightarrow> (\<forall>w S. finite S \<longrightarrow> card S < 8 \<longrightarrow> (\<exists>n. fst (draw_face K (draws K n w)) \<notin> S))"

definition faces_so_far :: "nat \<Rightarrow> int list \<Rightarrow> int list \<Rightarrow> (int \<times> int) list" where
  "faces_so_far i first second = map (\<lambda>j. (second ! j, first ! j)) [0..<i]"

lemma dup_scan_spec:
  assumes "dup_scan rf rs i j first second = (d, f', s')"
    and "j \<le> i" and "i < length first" and "i < length second"
  shows "d = (\<exists>k\<in>{j..<i}. rf = first ! k \<and> rs = second ! k) \<and>
    (\<not> d \<longrightarrow> j < i \<longrightarrow> f' = first[i := rf] \<and> s' = second[i := rs]) \<and>
    (\<forall>k<i. f' ! k = first ! k \<and> s' ! k = second ! k) \<and> length f' = length first \<and> length s' = length second"
  using assms
proof (induction rf rs i j first second rule: dup_scan.induct)
  case (1 rf rs i j first second)
  consider "j = i" | "j < i" "rf = first ! j \<and> rs = second ! j" | "j < i" "\<not> (rf = first ! j \<and> rs = second ! j)"
    using "1.prems" by linarith
  then show ?case
  proof cases
    case 1
    then show ?thesis using "1.prems"(1) by (simp add: dup_scan.simps [of rf rs i i])
  next
    case 2
    then have "dup_scan rf rs i j first second = (True, first, second)"
      by (subst dup_scan.simps) simp
    with "1.prems"(1) 2 show ?thesis by auto
  next
    case 3
    have r: "dup_scan rf rs i (Suc j) (first[i := rf]) (second[i := rs]) = (d, f', s')"
      using 3 "1.prems"(1) by (auto simp: dup_scan.simps [of rf rs i j first second] split: if_splits)
    have set: "{j..<i} = insert j {Suc j..<i}" using 3(1) by auto
    have ex: "(\<exists>k\<in>{Suc j..<i}. rf = first[i := rf] ! k \<and> rs = second[i := rs] ! k) =
        (\<exists>k\<in>{j..<i}. rf = first ! k \<and> rs = second ! k)"
      using 3(2) by (auto simp: set)
    have end': "Suc j < i \<or> dup_scan rf rs i (Suc j) (first[i := rf]) (second[i := rs]) = (False, first[i := rf], second[i := rs])"
      by (simp add: dup_scan.simps [of rf rs i "Suc j"])
    have "d = (\<exists>k\<in>{Suc j..<i}. rf = first[i := rf] ! k \<and> rs = second[i := rs] ! k) \<and>
      (\<not> d \<longrightarrow> Suc j < i \<longrightarrow> f' = first[i := rf, i := rf] \<and> s' = second[i := rs, i := rs]) \<and>
      (\<forall>k<i. f' ! k = first[i := rf] ! k \<and> s' ! k = second[i := rs] ! k) \<and>
      length f' = length (first[i := rf]) \<and> length s' = length (second[i := rs])"
      using 3 r "1.prems" by (intro "1.IH") auto
    with ex end' r show ?thesis by auto
  qed
qed

definition pick_inv :: "nat \<Rightarrow> int list \<Rightarrow> int list \<Rightarrow> bool" where
  "pick_inv i first second \<longleftrightarrow> 1 \<le> i \<and> i \<le> 8 \<and> length first = 8 \<and> length second = 8 \<and>
     distinct (faces_so_far i first second) \<and> set (faces_so_far i first second) \<subseteq> {0..<13} \<times> {0..<4}"

lemma faces_cong:
  "(\<And>k. k < i \<Longrightarrow> f' ! k = f ! k \<and> s' ! k = s ! k) \<Longrightarrow> faces_so_far i f' s' = faces_so_far i f s"
  by (simp add: faces_so_far_def)

lemma draw_face_range: "fst (draw_face K w) \<in> {0..<13} \<times> {0..<4}"
  by (simp add: draw_face_def split_beta)

lemma pick_step:
  assumes inv: "pick_inv i first second" and i: "i < 8"
  obtains f' s' where
    "pick_faces K i first second w =
       pick_faces K (if fst (draw_face K w) \<in> set (faces_so_far i first second) then i else Suc i) f' s' (snd (draw_face K w))"
    "if fst (draw_face K w) \<in> set (faces_so_far i first second)
     then pick_inv i f' s' \<and> faces_so_far i f' s' = faces_so_far i first second
     else pick_inv (Suc i) f' s'"
proof -
  obtain rs rf w2 where dr: "draw_face K w = ((rs, rf), w2)" by (metis prod.exhaust)
  obtain d f' s' where ds: "dup_scan rf rs i 0 first second = (d, f', s')" by (metis prod.exhaust)
  have len: "length first = 8" "length second = 8" "1 \<le> i" using inv by (auto simp: pick_inv_def)
  note spec = dup_scan_spec [OF ds]
  have d: "d = ((rs, rf) \<in> set (faces_so_far i first second))"
    using spec len i by (auto simp: faces_so_far_def)
  have same: "faces_so_far i f' s' = faces_so_far i first second"
    using spec len i by (intro faces_cong) auto
  have new: "faces_so_far (Suc i) f' s' = faces_so_far i first second @ [(rs, rf)]" if "\<not> d"
  proof -
    have "f' = first[i := rf] \<and> s' = second[i := rs]" using spec len i that by auto
    then show ?thesis using len i by (simp add: faces_so_far_def)
  qed
  have "pick_faces K i first second w = pick_faces K (if d then i else Suc i) f' s' w2"
    using i dr ds by (subst pick_faces.simps) (auto simp: draw_face_def split: prod.splits)
  moreover have "if d then pick_inv i f' s' \<and> faces_so_far i f' s' = faces_so_far i first second
      else pick_inv (Suc i) f' s'"
  proof (cases d)
    case True
    then show ?thesis using inv same spec len i by (auto simp: pick_inv_def)
  next
    case False
    have "(rs, rf) \<in> {0..<13} \<times> {0..<4}" using draw_face_range [of K w] dr by simp
    with False show ?thesis
      using inv new d spec len i by (auto simp: pick_inv_def)
  qed
  ultimately show thesis using that [of f' s'] by (simp add: d dr)
qed

lemma pick_one:
  assumes "pick_inv i first second" and "i < 8"
    and "fst (draw_face K (draws K n w)) \<notin> set (faces_so_far i first second)"
  shows "\<exists>f' s' w'. pick_faces K i first second w = pick_faces K (Suc i) f' s' w' \<and> pick_inv (Suc i) f' s'"
  using assms
proof (induction n arbitrary: w first second)
  case 0
  obtain f' s' where "pick_faces K i first second w = pick_faces K (Suc i) f' s' (snd (draw_face K w))" "pick_inv (Suc i) f' s'"
    using 0 by (auto intro: pick_step [OF 0(1,2), of K w])
  then show ?case by blast
next
  case (Suc n)
  obtain f' s' where 1: "pick_faces K i first second w =
       pick_faces K (if fst (draw_face K w) \<in> set (faces_so_far i first second) then i else Suc i) f' s' (snd (draw_face K w))"
    and 2: "if fst (draw_face K w) \<in> set (faces_so_far i first second)
     then pick_inv i f' s' \<and> faces_so_far i f' s' = faces_so_far i first second
     else pick_inv (Suc i) f' s'"
    by (rule pick_step [OF Suc.prems(1,2), of K w])
  show ?case
  proof (cases "fst (draw_face K w) \<in> set (faces_so_far i first second)")
    case True
    then show ?thesis using 1 2 Suc.IH [of f' s' "snd (draw_face K w)"] Suc.prems(2,3) by simp
  next
    case False
    then show ?thesis using 1 2 by auto
  qed
qed

lemma pick_faces_total:
  assumes "rand_fair K" and "pick_inv i first second"
  shows "\<exists>f s w'. pick_faces K i first second w = Some (f, s, w') \<and> pick_inv 8 f s"
  using assms(2)
proof (induction "8 - i" arbitrary: i first second w)
  case 0
  then have "i = 8" by (simp add: pick_inv_def)
  then show ?case using 0 by (simp add: pick_faces.simps [of K 8])
next
  case (Suc m)
  then have i: "i < 8" by simp
  have "card (set (faces_so_far i first second)) < 8"
    using i card_length [of "faces_so_far i first second"] by (simp add: faces_so_far_def)
  then obtain n where "fst (draw_face K (draws K n w)) \<notin> set (faces_so_far i first second)"
    using assms(1) unfolding rand_fair_def by blast
  from pick_one [OF Suc.prems i this] obtain f' s' w' where
    "pick_faces K i first second w = pick_faces K (Suc i) f' s' w'" "pick_inv (Suc i) f' s'" by blast
  with Suc.hyps(1) [of "Suc i" f' s' w'] Suc.hyps(2) show ?case by simp
qed

lemma lay_pairs_mset:
  assumes "length cs = 16"
  shows "mset (lay_pairs first second cs) = mset (map (\<lambda>(x, y). mk_card x y) (faces_so_far 8 first second @ faces_so_far 8 first second))"
    and "length (lay_pairs first second cs) = 16"
proof -
  obtain a0 a1 a2 a3 a4 a5 a6 a7 a8 a9 a10 a11 a12 a13 a14 a15 where
    "cs = [a0, a1, a2, a3, a4, a5, a6, a7, a8, a9, a10, a11, a12, a13, a14, a15]"
    using assms by (auto simp: eval_nat_numeral length_Suc_conv)
  then show "mset (lay_pairs first second cs) = mset (map (\<lambda>(x, y). mk_card x y) (faces_so_far 8 first second @ faces_so_far 8 first second))"
    and "length (lay_pairs first second cs) = 16"
    by (simp_all add: lay_pairs_def faces_so_far_def upt_rec eval_nat_numeral)
qed

lemma shuffle_index_bound:
  assumes "i < 15" and "0 \<le> r" and "r \<le> int RAND_MAX"
  shows "i \<le> shuffle_index i r" and "shuffle_index i r < 16"
proof -
  let ?q = "RAND_MAX div (16 - i) + 1"
  have "RAND_MAX < (16 - i) * ?q"
    using dividend_less_div_times [of "16 - i" RAND_MAX] assms(1) by (simp add: algebra_simps)
  moreover have "nat r \<le> RAND_MAX" using assms(3) by simp
  ultimately have "nat r div ?q < 16 - i" by (intro div_less_iff_less_mult [THEN iffD2]) auto
  then show "shuffle_index i r < 16" by (simp add: shuffle_index_def)
qed (simp add: shuffle_index_def)

lemma shuffle_permutes:
  assumes "rand_ok (K :: 'w kernel)" and "length cs = 16"
  shows "\<exists>st. for_each [0..<15] (shuffle_step K) (cs, w) = Inr st \<and> mset (fst st) = mset cs \<and> length (fst st) = 16"
proof (rule for_each_rule [where I = "\<lambda>_ st. mset (fst st) = mset cs \<and> length (fst st) = 16"])
  show "mset (fst (cs, w)) = mset cs \<and> length (fst (cs, w)) = 16" using assms(2) by simp
  fix pre i post and st :: "card list \<times> 'w"
  assume "[0..<15] = pre @ i # post" and inv: "mset (fst st) = mset cs \<and> length (fst st) = 16"
  then have "i \<in> set [0..<15]" by (metis in_set_conv_decomp)
  then have i: "i < 15" by simp
  obtain ds u where st: "st = (ds, u)" by force
  obtain r w1 where r: "rand K u = (r, w1)" by force
  have "0 \<le> r" "r \<le> int RAND_MAX" using assms(1) r by (auto simp: rand_ok_def dest: spec [of _ u])
  with i have j: "shuffle_index i r < 16" by (rule shuffle_index_bound)
  then show "\<exists>s'. shuffle_step K i st = Inr s' \<and> mset (fst s') = mset cs \<and> length (fst s') = 16"
    using inv i by (simp add: shuffle_step_def st r Let_def mset_swap)
qed

lemma deal_total:
  assumes "rand_ok K" and "rand_fair K" and "length cs = 16"
  shows "\<exists>cs' w'. initialize_game_cards K cs w = Some (Inr (cs', w')) \<and> length cs' = 16 \<and> dealt cs'"
proof -
  obtain r1 w1 where r1: "rand K w = (r1, w1)" by force
  obtain r2 w2 where r2: "rand K w1 = (r2, w2)" by force
  let ?b = "replicate 8 (uint (indeterminate K w))"
  have "pick_inv 1 (?b[0 := r1 mod 4]) (?b[0 := r2 mod 13])"
    by (simp add: pick_inv_def faces_so_far_def)
  from pick_faces_total [OF assms(2) this] obtain f s w3 where
    pf: "pick_faces K 1 (?b[0 := r1 mod 4]) (?b[0 := r2 mod 13]) w2 = Some (f, s, w3)" and inv: "pick_inv 8 f s"
    by blast
  obtain st where "for_each [0..<15] (shuffle_step K) (lay_pairs f s cs, w3) = Inr st"
    and "mset (fst st) = mset (lay_pairs f s cs)" "length (fst st) = 16"
    using shuffle_permutes [OF assms(1) lay_pairs_mset(2) [OF assms(3)]] by blast
  moreover have "dealt (fst st)"
    unfolding dealt_def
  proof (intro exI conjI)
    show "length (faces_so_far 8 f s) = 8" by (simp add: faces_so_far_def)
  qed (use inv calculation(2) lay_pairs_mset(1) [OF assms(3)] in \<open>auto simp: pick_inv_def\<close>)
  ultimately show ?thesis
    using pf by (cases st) (auto simp: initialize_game_cards_def r1 r2 Let_def)
qed

text \<open>C3: With a generator whose values are in range and that does not repeat a set of fewer than eight faces
  forever, \<open>initialize_game_cards\<close> terminates without an out-of-range access, and the table it leaves is a
  permutation of eight distinct faces of the deck, each twice, all face up and unmatched.\<close>

lemma deal_is_eight_pairs:
  assumes "rand_ok K" and "rand_fair K" and "length cs = 16"
  shows "\<exists>cs' w'. initialize_game_cards K cs w = Some (Inr (cs', w')) \<and> length cs' = 16 \<and> dealt cs' \<and>
    (\<forall>c\<in>set cs'. \<not> isFlipped c \<and> \<not> isFlipping c \<and> \<not> flipSuccess c)"
proof -
  have "\<forall>c\<in>set cs'. \<not> isFlipped c \<and> \<not> isFlipping c \<and> \<not> flipSuccess c" if d: "dealt cs'" for cs'
  proof -
    obtain fs where "mset cs' = mset (map (\<lambda>(x, y). mk_card x y) (fs @ fs))" using d unfolding dealt_def by blast
    then have "set cs' = set (map (\<lambda>(x, y). mk_card x y) (fs @ fs))" by (metis set_mset_mset)
    then show ?thesis by (auto simp: mk_card_def)
  qed
  with deal_total [OF assms] show ?thesis by blast
qed

definition draw_count :: "sim \<Rightarrow> int" where
  "draw_count w = (case sim_rand w of [] \<Rightarrow> 0 | n # _ \<Rightarrow> n)"

definition cycle_kernel :: "sim kernel" where
  "cycle_kernel = sim_kernel\<lparr>rand := (\<lambda>w. (draw_count w div 2 mod 52, w\<lparr>sim_rand := [draw_count w + 1]\<rparr>))\<rparr>"

lemma cycle_kernel_face:
  "draw_face cycle_kernel w = (((draw_count w + 1) div 2 mod 52 mod 13, draw_count w div 2 mod 52 mod 4),
     w\<lparr>sim_rand := [draw_count w + 2]\<rparr>)"
  by (simp add: draw_face_def cycle_kernel_def draw_count_def)

lemma cycle_kernel_draws: "draw_count (draws cycle_kernel n w) = draw_count w + 2 * int n"
  by (induction n arbitrary: w) (simp_all add: cycle_kernel_face draw_count_def)

lemma cycle_kernel_ok: "rand_ok cycle_kernel" "rand_fair cycle_kernel"
proof -
  have "n mod 52 \<le> (2147483647 :: int)" for n
    using pos_mod_bound [of 52 n] by linarith
  then show "rand_ok cycle_kernel" by (simp add: rand_ok_def cycle_kernel_def RAND_MAX_def)
  show "rand_fair cycle_kernel"
    unfolding rand_fair_def
  proof (intro allI impI, rule ccontr)
    fix w :: sim and S :: "(int \<times> int) set"
    assume S: "finite S" "card S < 8" and "\<nexists>n. fst (draw_face cycle_kernel (draws cycle_kernel n w)) \<notin> S"
    let ?h = "\<lambda>n. fst (draw_face cycle_kernel (draws cycle_kernel n w))"
    have h: "fst (?h n) = ((draw_count w + 1) div 2 + int n) mod 13" for n
    proof -
      have "(draw_count w + 2 * int n + 1) div 2 = (draw_count w + 1) div 2 + int n" by presburger
      then show ?thesis by (simp only: cycle_kernel_face cycle_kernel_draws fst_conv) (simp add: mod_mod_cancel)
    qed
    have "inj_on ?h {0..<8}"
    proof (rule inj_onI)
      fix n m assume nm: "n \<in> {0..<8}" "m \<in> {0..<8}" and "?h n = ?h m"
      then have "((draw_count w + 1) div 2 + int n) mod 13 = ((draw_count w + 1) div 2 + int m) mod 13"
        using h [of n] h [of m] by simp
      then have "13 dvd (int n - int m)" by (simp add: mod_eq_dvd_iff)
      then obtain k where "int n - int m = 13 * k" by (elim dvdE)
      moreover have "int n < 8" "int m < 8" using nm by simp_all
      ultimately show "n = m" by presburger
    qed
    then have "card (?h ` {0..<8}) = 8" by (simp add: card_image)
    moreover have "card (?h ` {0..<8}) \<le> card S"
      using S \<open>\<nexists>n. ?h n \<notin> S\<close> by (intro card_mono) auto
    ultimately show False using S by simp
  qed
qed

theorem deal_is_eight_pairs_witness:
  "\<exists>cs' w'. initialize_game_cards cycle_kernel (replicate 16 (mk_card 0 0)) sim0 = Some (Inr (cs', w')) \<and>
    length cs' = 16 \<and> dealt cs' \<and> (\<forall>c\<in>set cs'. \<not> isFlipped c \<and> \<not> isFlipping c \<and> \<not> flipSuccess c)"
  by (rule deal_is_eight_pairs [OF cycle_kernel_ok]) simp

section \<open>The abstract flip\<close>

text \<open>
  What one call of a flipping routine does to the game, without the drawing: the sides of the
  cards in motion after the call, the change of the width and the state when the animation ends.
\<close>

definition flip_sides :: "bool \<Rightarrow> game \<Rightarrow> int list" where
  "flip_sides up g = map (\<lambda>i. if flipping g i \<and> increaseWidth g > 10 \<and> isFlipped (cardArray g ! i) = up
     then 1 else otherSide g ! i) [0..<16]"

definition flip_delta :: "game \<Rightarrow> nat \<Rightarrow> int" where
  "flip_delta g i = (if flipping g i then (if otherSide g ! i = 0 then 1 else -1) else 0)"

definition flip_done :: "bool \<Rightarrow> game \<Rightarrow> game" where
  "flip_done up g = g\<lparr>cardArray := map (\<lambda>c. if isFlipping c then c\<lparr>isFlipping := False, isFlipped := \<not> up\<rparr> else c) (cardArray g),
     otherSide := map (\<lambda>i. if flipping g i then 0 else otherSide g ! i) [0..<16],
     increaseWidth := if list_ex isFlipping (cardArray g) then 1 else increaseWidth g\<rparr>"

definition flip_spec :: "bool \<Rightarrow> int \<Rightarrow> game \<Rightarrow> bool \<times> game" where
  "flip_spec up goal g =
     (let g1 = g\<lparr>otherSide := flip_sides up g\<rparr>;
          g2 = g1\<lparr>increaseWidth := increaseWidth g1 + (\<Sum>i\<leftarrow>[0..<16]. flip_delta g1 i)\<rparr> in
      if increaseWidth g2 = goal then (True, flip_done up g2) else (False, g2))"

definition markf :: "bool \<Rightarrow> nat \<Rightarrow> game \<Rightarrow> game" where
  "markf up i g = (if flipping g i then mark_other_side up i g else g)"

definition board :: "game \<Rightarrow> bool" where
  "board g \<longleftrightarrow> length (cardArray g) = 16 \<and> length (otherSide g) = 16"

lemma fold_mark:
  assumes "board g" and "n \<le> 16"
  shows "fold (markf up) [0..<n] g = g\<lparr>otherSide := map (\<lambda>i. if i < n \<and> flipping g i \<and> increaseWidth g > 10 \<and>
    isFlipped (cardArray g ! i) = up then 1 else otherSide g ! i) [0..<16]\<rparr>"
  using assms(2)
proof (induction n)
  case 0
  have "map ((!) (otherSide g)) [0..<16] = otherSide g"
    using assms(1) map_nth [of "otherSide g"] by (simp add: board_def)
  then show ?case by simp
next
  case (Suc n)
  let ?o = "\<lambda>n. map (\<lambda>i. if i < n \<and> flipping g i \<and> increaseWidth g > 10 \<and>
    isFlipped (cardArray g ! i) = up then 1 else otherSide g ! i) [0..<16]"
  have "markf up n (g\<lparr>otherSide := ?o n\<rparr>) = g\<lparr>otherSide := ?o (Suc n)\<rparr>"
  proof (cases "flipping g n \<and> increaseWidth g > 10 \<and> isFlipped (cardArray g ! n) = up")
    case True
    then have "(?o n)[n := 1] = ?o (Suc n)"
      using Suc.prems by (intro nth_equalityI) (auto simp: nth_list_update less_Suc_eq)
    with True show ?thesis by (simp add: markf_def mark_other_side_def flipping_def)
  next
    case False
    then have "?o n = ?o (Suc n)" by (intro nth_equalityI) (auto simp: less_Suc_eq)
    with False show ?thesis by (auto simp: markf_def mark_other_side_def flipping_def)
  qed
  with Suc show ?case by simp
qed

lemma fold_mark_all: "board g \<Longrightarrow> fold (markf up) [0..<16] g = g\<lparr>otherSide := flip_sides up g\<rparr>"
  using fold_mark [of g 16 up] by (simp add: flip_sides_def cong: map_cong)

lemma fold_width:
  "fold flip_width is g = g\<lparr>increaseWidth := increaseWidth g + (\<Sum>i\<leftarrow>is. flip_delta g i)\<rparr>"
proof (induction "is" arbitrary: g)
  case Nil
  then show ?case by simp
next
  case (Cons i "is")
  have "flip_width i g = g\<lparr>increaseWidth := increaseWidth g + flip_delta g i\<rparr>"
    by (simp add: flip_width_def flip_delta_def)
  moreover have "flip_delta (g\<lparr>increaseWidth := k\<rparr>) = flip_delta g" for k
    by (simp add: flip_delta_def flipping_def fun_eq_iff)
  ultimately show ?case using Cons.IH by (simp add: add.assoc)
qed

definition settled :: "bool \<Rightarrow> nat \<Rightarrow> game \<Rightarrow> game" where
  "settled hidden n g = g\<lparr>cardArray := map (\<lambda>i. if i < n \<and> flipping g i then (cardArray g ! i)\<lparr>isFlipping := False, isFlipped := hidden\<rparr> else cardArray g ! i) [0..<16],
     otherSide := map (\<lambda>i. if i < n \<and> flipping g i then 0 else otherSide g ! i) [0..<16],
     increaseWidth := if \<exists>i<n. flipping g i then 1 else increaseWidth g\<rparr>"

lemma fold_settle:
  assumes "board g" and "n \<le> 16"
  shows "fold (settle hidden) [0..<n] g = settled hidden n g"
  using assms(2)
proof (induction n)
  case 0
  have "map ((!) (otherSide g)) [0..<16] = otherSide g" "map ((!) (cardArray g)) [0..<16] = cardArray g"
    using assms(1) map_nth [of "otherSide g"] map_nth [of "cardArray g"] by (simp_all add: board_def)
  then show ?case by (simp add: settled_def)
next
  case (Suc n)
  have "settle hidden n (settled hidden n g) = settled hidden (Suc n) g"
  proof (cases "flipping g n")
    case True
    then have "(cardArray (settled hidden n g))[n := (cardArray (settled hidden n g) ! n)\<lparr>isFlipping := False, isFlipped := hidden\<rparr>] = cardArray (settled hidden (Suc n) g)"
      and "(otherSide (settled hidden n g))[n := 0] = otherSide (settled hidden (Suc n) g)"
      using Suc.prems by (auto intro!: nth_equalityI simp: settled_def nth_list_update less_Suc_eq)
    moreover have "flipping (settled hidden n g) n"
      using True Suc.prems by (simp add: flipping_def settled_def)
    ultimately show ?thesis using True by (auto simp: settle_def settled_def)
  next
    case False
    then have "cardArray (settled hidden n g) = cardArray (settled hidden (Suc n) g)"
      "otherSide (settled hidden n g) = otherSide (settled hidden (Suc n) g)"
      "(\<exists>i<Suc n. flipping g i) = (\<exists>i<n. flipping g i)"
      by (auto intro!: nth_equalityI simp: settled_def less_Suc_eq)
    moreover have "\<not> flipping (settled hidden n g) n"
      using False Suc.prems by (simp add: flipping_def settled_def)
    ultimately show ?thesis by (simp add: settle_def settled_def)
  qed
  with Suc show ?case by simp
qed

lemma settled_done:
  assumes "board g"
  shows "settled (\<not> up) 16 g = flip_done up g"
proof -
  have "map (\<lambda>i. if i < 16 \<and> flipping g i then (cardArray g ! i)\<lparr>isFlipping := False, isFlipped := \<not> up\<rparr> else cardArray g ! i) [0..<16] =
    map (\<lambda>c. if isFlipping c then c\<lparr>isFlipping := False, isFlipped := \<not> up\<rparr> else c) (cardArray g)"
    using assms by (intro nth_equalityI) (auto simp: board_def flipping_def)
  moreover have "(\<exists>i<16. flipping g i) = list_ex isFlipping (cardArray g)"
    using assms by (auto simp: board_def flipping_def list_ex_length)
  ultimately show ?thesis by (simp add: settled_def flip_done_def cong: map_cong)
qed


definition gfx_ok :: "video \<Rightarrow> bool" where
  "gfx_ok v \<longleftrightarrow> vid_ok v \<and> BitsPerPixel (modeinfo v) = 24 \<and> xres v = 800 \<and> yres v = 600 \<and>
     imgDeck v = \<lparr>width = 950, height = 392\<rparr> \<and> length (spriteDeck v) = 3 * 950 * 392 \<and>
     imgCardBack v = \<lparr>width = 75, height = 109\<rparr> \<and> length (spriteCardBack v) = 3 * 75 * 109"

definition faces_ok :: "card list \<Rightarrow> bool" where
  "faces_ok cs \<longleftrightarrow> (\<forall>c\<in>set cs. 0 \<le> card_x c \<and> card_x c < 13 \<and> 0 \<le> card_y c \<and> card_y c < 4)"

lemma gfx_ok_mode: "gfx_ok v \<Longrightarrow> same_mode v v' \<Longrightarrow> vid_ok v' \<Longrightarrow> gfx_ok v'"
  by (auto simp: gfx_ok_def same_mode_def xres_def yres_def)

lemma gfx_stride: "gfx_ok v \<Longrightarrow> stride v = 3"
  by (simp add: gfx_ok_def stride_def)

lemma blit_empty_rows: "w \<le> 0 \<Longrightarrow> blit ju sprite ptr sx sy w h adv skip v = Inr v"
proof -
  assume "w \<le> 0"
  then have e: "[sx..w + sx - 1] = []" by simp
  have "\<exists>st. for_each [sy..h + sy - 1] (blit_row ju sprite sx w adv skip) (ptr, v) = Inr st \<and> snd st = v"
    by (rule for_each_rule [where I = "\<lambda>_ st. snd st = v"]) (auto simp: blit_row_def e)
  then show ?thesis by (auto simp: blit_def)
qed

lemma blit_safe:
  assumes "gfx_ok v" and "0 \<le> sx" "sx + w \<le> 800" "0 \<le> sy" "sy + h \<le> 600"
    and "\<And>r c. 0 \<le> r \<Longrightarrow> r < h \<Longrightarrow> 0 \<le> c \<Longrightarrow> c < w \<Longrightarrow>
      0 \<le> ptr + r * (w * adv + skip) + c * adv \<and> ptr + r * (w * adv + skip) + c * adv + 3 \<le> int (length sprite)"
  shows "\<exists>v'. blit ju sprite ptr sx sy w h adv skip v = Inr v' \<and> gfx_ok v'"
proof (cases "w \<le> 0")
  case True
  then show ?thesis using assms(1) by (simp add: blit_empty_rows)
next
  case False
  have "vid_ok v" "xres v = 800" "yres v = 600" using assms(1) by (auto simp: gfx_ok_def)
  with blit_paints [of v sx w sy h ptr adv skip sprite ju] assms(2-6) False
  obtain v' where "blit ju sprite ptr sx sy w h adv skip v = Inr v'" "vid_ok v'" "same_mode v v'"
    by (auto simp: screen.painted_def)
  with gfx_ok_mode [OF assms(1)] show ?thesis by blast
qed

lemma c_div_step:
  assumes "0 < n" and "k \<noteq> 0"
  shows "c_div n k \<le> n" and "0 \<le> c \<Longrightarrow> c < c_div n k \<Longrightarrow> 1 \<le> k \<and> c_div n k * k \<le> n \<and> c * k + k \<le> n"
proof -
  have pos: "c_div n k = n div k" if "0 < k" using that assms(1) by (simp add: c_div_nonneg)
  have neg: "c_div n k \<le> 0" if "k < 0"
    using that assms(1) by (simp add: c_div_def sgn_if pos_imp_zdiv_nonneg_iff)
  have "n div k \<le> n" if "0 < k" using that assms(1) zdiv_mono2 [of n 1 k] by simp
  then show "c_div n k \<le> n" using pos neg assms by (cases "0 < k") auto
  assume c: "0 \<le> c" "c < c_div n k"
  then have k: "0 < k" using neg assms(2) by (cases "k < 0") auto
  have w: "c_div n k * k \<le> n"
    unfolding pos [OF k] using pos_mod_sign [OF k, of n] div_mult_mod_eq [of n k] by linarith
  have "(c + 1) * k \<le> c_div n k * k" using c k by (intro mult_right_mono) auto
  with w k show "1 \<le> k \<and> c_div n k * k \<le> n \<and> c * k + k \<le> n" by (simp add: algebra_simps)
qed


lemma card_at:
  assumes "gfx_ok v" and "i < 16"
  shows "getCardsScreenXY (int i mod 4) (int i div 4) v = (202 + 99 * (int i mod 4), 74 + 113 * (int i div 4))"
    and "int i div 4 \<le> 3"
  using assms by (auto simp: getCardsScreenXY_def gfx_ok_def Let_def card_consts)

lemma green_card:
  assumes "gfx_ok v" and "i < 16"
  shows "\<exists>v1. greenPartOfScreen (202 + 99 * (int i mod 4)) (74 + 113 * (int i div 4)) CARD_WIDTH CARD_HEIGHT v = Inr v1 \<and> gfx_ok v1"
proof -
  have "int i mod 4 \<le> 3" "0 \<le> int i mod 4" "int i div 4 \<le> 3" "0 \<le> int i div 4" using assms(2) by auto
  then obtain v1 where "greenPartOfScreen (202 + 99 * (int i mod 4)) (74 + 113 * (int i div 4)) CARD_WIDTH CARD_HEIGHT v = Inr v1"
    "vid_ok v1" "same_mode v v1"
    using green_part_paints [of v "202 + 99 * (int i mod 4)" "74 + 113 * (int i div 4)" CARD_WIDTH CARD_HEIGHT] assms(1)
    by (auto simp: gfx_ok_def)
  with gfx_ok_mode [OF assms(1)] show ?thesis by blast
qed

lemma flip_draw_front_safe:
  assumes "gfx_ok v" and "i < length (cardArray g)" and "length (cardArray g) = 16" and "faces_ok (cardArray g)" and "increaseWidth g \<noteq> 0"
  shows "\<exists>v'. flip_draw_front ju g i v = Inr v' \<and> gfx_ok v'"
proof -
  let ?x = "card_x (cardArray g ! i)" and ?y = "card_y (cardArray g ! i)" and ?k = "increaseWidth g"
  have xy: "0 \<le> ?x" "?x \<le> 12" "0 \<le> ?y" "?y \<le> 3"
    using assms(2,4) by (auto simp: faces_ok_def dest!: bspec [of _ _ "cardArray g ! i"])
  have i: "i < 16" using assms(2,3) by simp
  obtain v1 where g1: "greenPartOfScreen (202 + 99 * (int i mod 4)) (74 + 113 * (int i div 4)) CARD_WIDTH CARD_HEIGHT v = Inr v1" "gfx_ok v1"
    using green_card [OF assms(1) i] by blast
  have deck: "stride v1 = 3" "uint (width (imgDeck v1)) = 950" "int (length (spriteDeck v1)) = 3 * 950 * 392"
    using g1(2) gfx_stride by (auto simp: gfx_ok_def)
  have m: "int i mod 4 \<le> 3" "int i div 4 \<le> 3" using i by auto
  have rd: "0 \<le> (?x * 73 + 950 * (?y * 99)) * 3 + r * (c_div 69 ?k * (3 * ?k) + 3 * (950 - 69)) + c * (3 * ?k) \<and>
    (?x * 73 + 950 * (?y * 99)) * 3 + r * (c_div 69 ?k * (3 * ?k) + 3 * (950 - 69)) + c * (3 * ?k) + 3 \<le> 3 * 950 * 392"
    if "0 \<le> r" "r < 93" "0 \<le> c" "c < c_div 69 ?k" for r c
  proof -
    let ?m = "c_div 69 ?k * ?k"
    have k: "1 \<le> ?k" "?m \<le> 69" "c * ?k + ?k \<le> 69"
      using c_div_step(2) [OF _ assms(5) that(3,4)] by auto
    have m0: "0 \<le> ?m" "0 \<le> c * ?k" using that(3,4) k(1) by auto
    have "r * ?m \<le> r * 69" "0 \<le> r * ?m" using that(1) k(2) m0 by (auto intro: mult_left_mono)
    moreover have "r * (c_div 69 ?k * (3 * ?k) + 3 * (950 - 69)) = 3 * (r * ?m) + 2643 * r"
      by (simp add: algebra_simps)
    ultimately show ?thesis using that(1,2) xy k m0 by (simp add: algebra_simps)
  qed
  have "\<exists>v'. blit ju (spriteDeck v1) ((?x * 73 + 950 * (?y * 99)) * 3) (202 + 99 * (int i mod 4)) (74 + 113 * (int i div 4))
      (c_div 69 ?k) 93 (3 * ?k) (3 * (950 - 69)) v1 = Inr v' \<and> gfx_ok v'"
    using m c_div_step(1) [OF _ assms(5), of 69] rd deck(3) by (intro blit_safe [OF g1(2)]) auto
  then show ?thesis
    using assms(5) g1(1) deck by (simp add: flip_draw_front_def card_at(1) [OF assms(1) i] card_consts)
qed

lemma flip_draw_back_safe:
  assumes "gfx_ok v" and "i < 16" and "increaseWidth g \<noteq> 0"
  shows "\<exists>v'. flip_draw_back ju g i v = Inr v' \<and> gfx_ok v'"
proof -
  let ?k = "increaseWidth g"
  obtain v1 where g1: "greenPartOfScreen (202 + 99 * (int i mod 4)) (74 + 113 * (int i div 4)) CARD_WIDTH CARD_HEIGHT v = Inr v1" "gfx_ok v1"
    using green_card [OF assms(1,2)] by blast
  have bk: "stride v1 = 3" "imgCardBack v1 = \<lparr>width = 75, height = 109\<rparr>" "int (length (spriteCardBack v1)) = 3 * 75 * 109"
    using g1(2) gfx_stride by (auto simp: gfx_ok_def)
  have m: "int i mod 4 \<le> 3" "int i div 4 \<le> 3" using assms(2) by auto
  have rd: "0 \<le> 0 + r * (c_div 75 ?k * (3 * ?k) + 0) + c * (3 * ?k) \<and> 0 + r * (c_div 75 ?k * (3 * ?k) + 0) + c * (3 * ?k) + 3 \<le> 3 * 75 * 109"
    if "0 \<le> r" "r < 109" "0 \<le> c" "c < c_div 75 ?k" for r c
  proof -
    let ?m = "c_div 75 ?k * ?k"
    have k: "1 \<le> ?k" "?m \<le> 75" "c * ?k + ?k \<le> 75"
      using c_div_step(2) [OF _ assms(3) that(3,4)] by auto
    have m0: "0 \<le> ?m" "0 \<le> c * ?k" using that(3,4) k(1) by auto
    have "r * ?m \<le> r * 75" "0 \<le> r * ?m" using that(1) k(2) m0 by (auto intro: mult_left_mono)
    moreover have "r * (c_div 75 ?k * (3 * ?k) + 0) = 3 * (r * ?m)" by (simp add: algebra_simps)
    ultimately show ?thesis using that(1,2) k m0 by (simp add: algebra_simps)
  qed
  have "\<exists>v'. blit ju (spriteCardBack v1) 0 (202 + 99 * (int i mod 4)) (74 + 113 * (int i div 4))
      (c_div 75 ?k) 109 (3 * ?k) 0 v1 = Inr v' \<and> gfx_ok v'"
    using m c_div_step(1) [OF _ assms(3), of 75] rd bk(3) by (intro blit_safe [OF g1(2)]) auto
  then show ?thesis
    using assms(3) g1(1) bk by (simp add: flip_draw_back_def card_at(1) [OF assms(1,2)] card_consts)
qed


lemma fold_mark_frame:
  "cardArray (fold (markf up) is g) = cardArray g \<and> increaseWidth (fold (markf up) is g) = increaseWidth g"
proof (induction "is" arbitrary: g)
  case Nil
  then show ?case by simp
next
  case (Cons i "is")
  have "cardArray (markf up i g) = cardArray g" "increaseWidth (markf up i g) = increaseWidth g"
    by (simp_all add: markf_def mark_other_side_def)
  then show ?case using Cons.IH [of "markf up i g"] by simp
qed

lemma flip_draw_safe:
  assumes "gfx_ok v" and "board g" and "faces_ok (cardArray g)" and "flipping g i \<longrightarrow> increaseWidth g \<noteq> 0" and "i < 16"
  shows "\<exists>v'. flip_down_draw ju i (g, v) = Inr (markf False i g, v') \<and> gfx_ok v'"
    and "\<exists>v'. flip_up_draw ju i (g, v) = Inr (markf True i g, v') \<and> gfx_ok v'"
proof -
  have ex: "\<exists>v'. (if b then flip_draw_front ju (mark_other_side up i g) i v else flip_draw_back ju (mark_other_side up i g) i v) = Inr v' \<and> gfx_ok v'"
    if "flipping g i" for b up
    using that flip_draw_front_safe [of v i "mark_other_side up i g" ju] flip_draw_back_safe [of v i "mark_other_side up i g" ju] assms
    by (auto simp: mark_other_side_def board_def)
  show "\<exists>v'. flip_down_draw ju i (g, v) = Inr (markf False i g, v') \<and> gfx_ok v'"
    using ex [of "otherSide (mark_other_side False i g) ! i = 0" False] assms(1)
    by (auto simp: flip_down_draw_def markf_def Let_def)
  show "\<exists>v'. flip_up_draw ju i (g, v) = Inr (markf True i g, v') \<and> gfx_ok v'"
    using ex [of "otherSide (mark_other_side True i g) ! i \<noteq> 0" True] assms(1)
    by (auto simp: flip_up_draw_def markf_def Let_def)
qed

lemma draw_loop_safe:
  assumes "gfx_ok v" and "board g" and "faces_ok (cardArray g)" and "\<forall>i<16. flipping g i \<longrightarrow> increaseWidth g \<noteq> 0"
    and body: "\<And>i g v. gfx_ok v \<Longrightarrow> board g \<Longrightarrow> faces_ok (cardArray g) \<Longrightarrow> flipping g i \<longrightarrow> increaseWidth g \<noteq> 0 \<Longrightarrow> i < 16 \<Longrightarrow>
      \<exists>v'. body i (g, v) = Inr (markf up i g, v') \<and> gfx_ok v'"
  shows "\<exists>v'. for_each [0..<16] body (g, v) = Inr (g\<lparr>otherSide := flip_sides up g\<rparr>, v') \<and> gfx_ok v'"
proof -
  have len: "length (otherSide (fold (markf up) is g)) = length (otherSide g)" for "is"
  proof (induction "is" arbitrary: g)
    case (Cons i "is")
    then show ?case by (simp add: markf_def mark_other_side_def)
  qed simp
  have "\<exists>st. for_each [0..<16] body (g, v) = Inr st \<and> (fst st = fold (markf up) [0..<16] g \<and> gfx_ok (snd st))"
  proof (rule for_each_rule [where I = "\<lambda>pre st. fst st = fold (markf up) pre g \<and> gfx_ok (snd st)"])
    fix pre i post and st :: "game \<times> video"
    assume e: "[0..<16] = pre @ i # post" and st: "fst st = fold (markf up) pre g \<and> gfx_ok (snd st)"
    from e have "i \<in> set [0..<16]" by (metis in_set_conv_decomp)
    moreover from this have "board (fst st)" "faces_ok (cardArray (fst st))" "flipping (fst st) i \<longrightarrow> increaseWidth (fst st) \<noteq> 0"
      using st assms(2-4) fold_mark_frame [of up pre g] len [of pre] by (simp_all add: board_def flipping_def)
    ultimately show "\<exists>s'. body i st = Inr s' \<and> fst s' = fold (markf up) (pre @ [i]) g \<and> gfx_ok (snd s')"
      using body [of "snd st" "fst st" i] st by (cases st) auto
  qed (use assms(1) in simp)
  then show ?thesis using fold_mark_all [OF assms(2)] by (metis prod.collapse)
qed

lemma flips_refine_moving:
  assumes "gfx_ok v" and "board g" and "faces_ok (cardArray g)" and "\<forall>i<16. flipping g i \<longrightarrow> increaseWidth g \<noteq> 0"
  shows "(\<exists>v'. flipACardDown ju (g, v) = Inr (fst (flip_spec False 1 g), snd (flip_spec False 1 g), v') \<and> gfx_ok v') \<and>
    (\<exists>v'. flipACardUp ju (g, v) = Inr (fst (flip_spec True 0 g), snd (flip_spec True 0 g), v') \<and> gfx_ok v')"
proof -
  have b: "board (g\<lparr>otherSide := flip_sides up g, increaseWidth := k\<rparr>)" for up k
    using assms(2) by (simp add: board_def flip_sides_def)
  have st: "fold (settle (\<not> up)) [0..<16] (g\<lparr>otherSide := flip_sides up g, increaseWidth := k\<rparr>) =
      flip_done up (g\<lparr>otherSide := flip_sides up g, increaseWidth := k\<rparr>)" for up k
    using fold_settle [OF b, of 16] settled_done [OF b] by simp
  obtain v1 where "for_each [0..<16] (flip_down_draw ju) (g, v) = Inr (g\<lparr>otherSide := flip_sides False g\<rparr>, v1)" "gfx_ok v1"
    using draw_loop_safe [OF assms, of "flip_down_draw ju" False] flip_draw_safe(1) by blast
  then have down: "\<exists>v'. flipACardDown ju (g, v) = Inr (fst (flip_spec False 1 g), snd (flip_spec False 1 g), v') \<and> gfx_ok v'"
    using st [of False] by (simp add: flipACardDown_def flip_spec_def Let_def fold_width)
  obtain v2 where "for_each [0..<16] (flip_up_draw ju) (g, v) = Inr (g\<lparr>otherSide := flip_sides True g\<rparr>, v2)" "gfx_ok v2"
    using draw_loop_safe [OF assms, of "flip_up_draw ju" True] flip_draw_safe(2) by blast
  then have "\<exists>v'. flipACardUp ju (g, v) = Inr (fst (flip_spec True 0 g), snd (flip_spec True 0 g), v') \<and> gfx_ok v'"
    using st [of True] by (simp add: flipACardUp_def flip_spec_def Let_def fold_width)
  with down show ?thesis ..
qed


lemma flips_refine:
  assumes "gfx_ok v" and "board g" and "faces_ok (cardArray g)" and "increaseWidth g \<noteq> 0"
  shows "(\<exists>v'. flipACardDown ju (g, v) = Inr (fst (flip_spec False 1 g), snd (flip_spec False 1 g), v') \<and> gfx_ok v') \<and>
    (\<exists>v'. flipACardUp ju (g, v) = Inr (fst (flip_spec True 0 g), snd (flip_spec True 0 g), v') \<and> gfx_ok v')"
  using flips_refine_moving [OF assms(1-3)] assms(4) by blast

lemma flip_draws_fault:
  assumes "gfx_ok v" and "increaseWidth g = 0" and "i < 16"
  shows "flip_draw_front ju g i v = Inl Division_By_Zero" "flip_draw_back ju g i v = Inl Division_By_Zero"
proof -
  obtain v1 where "greenPartOfScreen (202 + 99 * (int i mod 4)) (74 + 113 * (int i div 4)) CARD_WIDTH CARD_HEIGHT v = Inr v1" "gfx_ok v1"
    using green_card [OF assms(1,3)] by blast
  then show "flip_draw_front ju g i v = Inl Division_By_Zero" "flip_draw_back ju g i v = Inl Division_By_Zero"
    using assms(2) by (simp_all add: flip_draw_front_def flip_draw_back_def card_at(1) [OF assms(1,3)] gfx_ok_def)
qed

lemma flips_fault:
  assumes "gfx_ok v" and "increaseWidth g = 0" and "i < 16" and "flipping g i"
  shows "flipACardDown ju (g, v) = Inl Division_By_Zero" "flipACardUp ju (g, v) = Inl Division_By_Zero"
proof -
  define k where "k = (LEAST i. flipping g i)"
  have k: "flipping g k" "k < 16" using LeastI [of "flipping g", OF assms(4)] Least_le [of "flipping g", OF assms(4)] assms(3) by (simp_all add: k_def)
  have before: "\<not> flipping g m" if "m < k" for m using not_less_Least [of m "flipping g"] that by (simp add: k_def)
  have mark: "mark_other_side up k g = g" for up using assms(2) by (simp add: mark_other_side_def)
  have "for_each [0..<16] (flip_down_draw ju) (g, v) = Inl Division_By_Zero" "for_each [0..<16] (flip_up_draw ju) (g, v) = Inl Division_By_Zero"
    by (rule for_each_first_fault [OF k(2)];
        simp add: before flip_down_draw_def flip_up_draw_def k(1) mark flip_draws_fault [OF assms(1,2) k(2)] Let_def)+
  then show "flipACardDown ju (g, v) = Inl Division_By_Zero" "flipACardUp ju (g, v) = Inl Division_By_Zero"
    by (simp_all add: flipACardDown_def flipACardUp_def)
qed

text \<open>C10: On the screen and with the sprites of the game, \<open>flipACardDown\<close> and \<open>flipACardUp\<close> divide by zero exactly when a card
  is in motion and the width is zero; otherwise they draw without a fault and refine the abstract flip: the sides turn when
  the width exceeds ten, the width moves by one for each card in motion, and the animation ends exactly when it
  reaches the goal.\<close>

lemma flips_refine_spec:
  assumes "gfx_ok v" and "board g" and "faces_ok (cardArray g)"
  shows "if (\<exists>i<16. flipping g i) \<and> increaseWidth g = 0
    then flipACardDown ju (g, v) = Inl Division_By_Zero \<and> flipACardUp ju (g, v) = Inl Division_By_Zero
    else (\<exists>v'. flipACardDown ju (g, v) = Inr (fst (flip_spec False 1 g), snd (flip_spec False 1 g), v') \<and> gfx_ok v') \<and>
      (\<exists>v'. flipACardUp ju (g, v) = Inr (fst (flip_spec True 0 g), snd (flip_spec True 0 g), v') \<and> gfx_ok v')"
proof (cases "(\<exists>i<16. flipping g i) \<and> increaseWidth g = 0")
  case True
  then show ?thesis using flips_fault [OF assms(1)] by auto
next
  case False
  then have "\<forall>i<16. flipping g i \<longrightarrow> increaseWidth g \<noteq> 0" by blast
  from flips_refine_moving [OF assms this] show ?thesis unfolding if_not_P [OF False] .
qed

section \<open>Runs of flips\<close>

text \<open>\<open>n\<close> calls in a row, the way successive frames make them.\<close>

definition calls :: "(game \<times> video \<Rightarrow> (bool \<times> game \<times> video) result) \<Rightarrow> nat \<Rightarrow> game \<times> video \<Rightarrow> (game \<times> video) result" where
  "calls f n = for_each [0..<n] (\<lambda>_ st. andthen (f st) (\<lambda>(_, st'). Inr st'))"

definition moving :: "game \<Rightarrow> nat" where
  "moving g = length (filter (flipping g) [0..<16])"

text \<open>All cards in motion show the same face.\<close>

definition same_side :: "bool \<Rightarrow> game \<Rightarrow> bool" where
  "same_side up g \<longleftrightarrow> (\<forall>i<16. flipping g i \<longrightarrow> isFlipped (cardArray g ! i) = up)"

definition flip_state :: "game \<Rightarrow> int \<Rightarrow> int \<Rightarrow> game" where
  "flip_state g s w = g\<lparr>otherSide := map (\<lambda>i. if flipping g i then s else otherSide g ! i) [0..<16], increaseWidth := w\<rparr>"

definition landed :: "bool \<Rightarrow> game \<Rightarrow> game" where
  "landed hidden g = (flip_state g 0 1)\<lparr>cardArray :=
     map (\<lambda>c. if isFlipping c then c\<lparr>isFlipping := False, isFlipped := hidden\<rparr> else c) (cardArray g)\<rparr>"

lemma flip_state_simps [simp]:
  "flipping (flip_state g s w) = flipping g" "cardArray (flip_state g s w) = cardArray g"
  "increaseWidth (flip_state g s w) = w"
  "i < 16 \<Longrightarrow> otherSide (flip_state g s w) ! i = (if flipping g i then s else otherSide g ! i)"
  "board (flip_state g s w) = (length (cardArray g) = 16)"
  by (auto simp: flip_state_def flipping_def fun_eq_iff board_def)

lemma sum_flip_delta:
  assumes "\<And>i. i < 16 \<Longrightarrow> flipping g i \<Longrightarrow> (otherSide g ! i = 0) = z"
  shows "(\<Sum>i\<leftarrow>[0..<16]. flip_delta g i) = (if z then int (moving g) else - int (moving g))"
proof -
  have "(\<Sum>i\<leftarrow>is. flip_delta g i) = (if z then int (length (filter (flipping g) is)) else - int (length (filter (flipping g) is)))"
    if "set is \<subseteq> {0..<16}" for "is"
    using that assms by (induction "is") (auto simp: flip_delta_def)
  from this [of "[0..<16]"] show ?thesis by (auto simp: moving_def)
qed

lemma flip_spec_step:
  assumes "board g" and "same_side up g" and "s = 0 \<or> s = 1" and "0 < moving g"
    and s': "s' = (if w > 10 then 1 else s)" and w': "w' = w + (if s' = 0 then int (moving g) else - int (moving g))"
  shows "flip_spec up goal (flip_state g s w) = (if w' = goal then (True, landed (\<not> up) g) else (False, flip_state g s' w'))"
proof -
  have sides: "flip_sides up (flip_state g s w) = otherSide (flip_state g s' w')"
    using assms(2) by (auto simp: flip_sides_def flip_state_def same_side_def s' flipping_def)
  have g1: "(flip_state g s w)\<lparr>otherSide := otherSide (flip_state g s' w')\<rparr> = flip_state g s' w"
    by (simp add: flip_state_def)
  have "(\<Sum>i\<leftarrow>[0..<16]. flip_delta (flip_state g s' w) i) = (if s' = 0 then int (moving g) else - int (moving g))"
    using sum_flip_delta [of "flip_state g s' w" "s' = 0"] by (auto simp: moving_def)
  then have g2: "(flip_state g s' w)\<lparr>increaseWidth := increaseWidth (flip_state g s' w) + (\<Sum>i\<leftarrow>[0..<16]. flip_delta (flip_state g s' w) i)\<rparr> = flip_state g s' w'"
    by (simp add: flip_state_def w')
  obtain i where "i < 16" "flipping g i" using assms(4) by (auto simp: moving_def filter_empty_conv)
  then have "list_ex isFlipping (cardArray g)"
    using assms(1) by (auto simp: list_ex_length flipping_def board_def)
  then have "flip_done up (flip_state g s' w') = landed (\<not> up) g"
    by (auto simp: flip_done_def landed_def flip_state_def flipping_def)
  then show ?thesis
    by (simp only: flip_spec_def Let_def sides g1 g2) simp
qed

lemma flip_state_id:
  assumes "board g" and "increaseWidth g = 1" and "\<And>i. i < 16 \<Longrightarrow> flipping g i \<Longrightarrow> otherSide g ! i = 0"
  shows "flip_state g 0 1 = g"
proof -
  have "map (\<lambda>i. if flipping g i then 0 else otherSide g ! i) [0..<16] = otherSide g"
    using assms(1,3) by (intro nth_equalityI) (auto simp: board_def)
  with assms(2) show ?thesis by (simp add: flip_state_def)
qed

text \<open>The number of calls until the animation turns round.\<close>

definition half_turn :: "nat \<Rightarrow> nat" where
  "half_turn k = (9 + k) div k"

lemma half_turn_bounds:
  assumes "0 < k"
  shows "10 < 1 + int k * int (half_turn k)" and "m < half_turn k \<Longrightarrow> 1 + int k * int m \<le> 10"
proof -
  have "9 + k < k * half_turn k + k"
    using mod_less_divisor [OF assms, of "9 + k"] mult_div_mod_eq [of k "9 + k"] unfolding half_turn_def by linarith
  then show "10 < 1 + int k * int (half_turn k)" by (simp flip: of_nat_mult)
  assume "m < half_turn k"
  then have "k * (m + 1) \<le> k * half_turn k" by (intro mult_le_mono) auto
  also have "\<dots> \<le> 9 + k" unfolding half_turn_def by (simp add: times_div_less_eq_dividend)
  finally have "k * m \<le> 9" by (simp add: algebra_simps)
  then show "1 + int k * int m \<le> 10" by (simp flip: of_nat_mult)
qed


lemma calls_Suc: "calls f (Suc n) st = andthen (calls f n st) (\<lambda>st. andthen (f st) (\<lambda>(_, st'). Inr st'))"
  by (simp add: calls_def for_each_append andthen_assoc) (simp add: andthen_def split: sum.split)

text \<open>What a flipping routine promises: a call is safe and refines the specification.\<close>

definition flips_as :: "(game \<times> video \<Rightarrow> (bool \<times> game \<times> video) result) \<Rightarrow> bool \<Rightarrow> int \<Rightarrow> bool" where
  "flips_as f up goal \<longleftrightarrow> (\<forall>g v. gfx_ok v \<longrightarrow> board g \<longrightarrow> faces_ok (cardArray g) \<longrightarrow> increaseWidth g \<noteq> 0 \<longrightarrow>
     (\<exists>v'. f (g, v) = Inr (fst (flip_spec up goal g), snd (flip_spec up goal g), v') \<and> gfx_ok v'))"

text \<open>A game at the start of an animation of \<open>k\<close> cards.\<close>

definition flip_start :: "bool \<Rightarrow> nat \<Rightarrow> game \<Rightarrow> bool" where
  "flip_start up k g \<longleftrightarrow> board g \<and> faces_ok (cardArray g) \<and> same_side up g \<and> moving g = k \<and> increaseWidth g = 1 \<and>
     (\<forall>i<16. flipping g i \<longrightarrow> otherSide g ! i = 0)"

lemma flips_asD:
  assumes "flips_as f up goal" and "gfx_ok v" and "board g" and "faces_ok (cardArray g)" and "increaseWidth g \<noteq> 0"
  obtains v' where "f (g, v) = Inr (fst (flip_spec up goal g), snd (flip_spec up goal g), v')" "gfx_ok v'"
  using assms unfolding flips_as_def by blast

lemma call_step:
  assumes f: "flips_as f up goal" and g: "flip_start up k g" "0 < k" and s: "s = 0 \<or> s = 1" and "w \<noteq> 0"
    and c: "calls f n st = Inr (flip_state g s w, v)" "gfx_ok v"
    and s': "s' = (if w > 10 then 1 else s)" and w': "w' = w + (if s' = 0 then int k else - int k)"
  shows "\<exists>v'. calls f (Suc n) st = Inr (if w' = goal then landed (\<not> up) g else flip_state g s' w', v') \<and> gfx_ok v'"
proof -
  have gs: "board g" "same_side up g" "moving g = k" "faces_ok (cardArray g)"
    using g(1) by (auto simp: flip_start_def)
  have "flip_spec up goal (flip_state g s w) = (if w' = goal then (True, landed (\<not> up) g) else (False, flip_state g s' w'))"
    using gs g(2) s s' w' by (intro flip_spec_step) auto
  moreover obtain v' where "f (flip_state g s w, v) = Inr (fst (flip_spec up goal (flip_state g s w)), snd (flip_spec up goal (flip_state g s w)), v')" "gfx_ok v'"
    by (rule flips_asD [OF f c(2), of "flip_state g s w"])
      (use gs(4) gs(1) [unfolded board_def] \<open>w \<noteq> 0\<close> in simp_all)
  ultimately show ?thesis using c(1) by (auto simp: calls_Suc)
qed

lemma calls_widen:
  assumes f: "flips_as f up goal" and g: "flip_start up k g" "0 < k" and "goal \<le> 1" and "gfx_ok v"
  shows "m \<le> half_turn k \<Longrightarrow> \<exists>v'. calls f m (g, v) = Inr (flip_state g 0 (1 + int k * int m), v') \<and> gfx_ok v'"
proof (induction m)
  case 0
  have "flip_state g 0 1 = g" using g(1) by (intro flip_state_id) (auto simp: flip_start_def)
  with assms(5) show ?case by (simp add: calls_def)
next
  case (Suc m)
  then obtain v1 where v1: "calls f m (g, v) = Inr (flip_state g 0 (1 + int k * int m), v1)" "gfx_ok v1" by auto
  have w: "1 + int k * int m \<le> 10" using half_turn_bounds(2) [OF g(2), of m] Suc.prems by simp
  have pos: "0 \<le> int k * int m" by simp
  then have "1 + int k * int m \<noteq> 0" by linarith
  then have ex: "\<exists>v'. calls f (Suc m) (g, v) = Inr (if 1 + int k * int (Suc m) = goal then landed (\<not> up) g
      else flip_state g 0 (1 + int k * int (Suc m)), v') \<and> gfx_ok v'"
    using w by (intro call_step [OF f g _ _ v1]) (auto simp: algebra_simps)
  have "0 < int k * int (Suc m)" using g(2) by simp
  then have "1 + int k * int (Suc m) \<noteq> goal" using assms(4) by linarith
  with ex show ?case by simp
qed

lemma calls_narrow:
  assumes f: "flips_as f up goal" and g: "flip_start up k g" "0 < k" and "goal \<le> 1" and "gfx_ok v"
    and ok: "\<And>j. j < m \<Longrightarrow> 1 + int k * (int (half_turn k) - int j) \<noteq> 0 \<and> 1 + int k * (int (half_turn k) - int (Suc j)) \<noteq> goal"
  shows "\<exists>v'. calls f (half_turn k + m) (g, v) =
    Inr (flip_state g (if m = 0 then 0 else 1) (1 + int k * (int (half_turn k) - int m)), v') \<and> gfx_ok v'"
  using ok
proof (induction m)
  case 0
  then show ?case using calls_widen [OF assms(1-5) order_refl] by simp
next
  case (Suc m)
  then obtain v1 where v1: "calls f (half_turn k + m) (g, v) =
      Inr (flip_state g (if m = 0 then 0 else 1) (1 + int k * (int (half_turn k) - int m)), v1)" "gfx_ok v1" by auto
  let ?w = "1 + int k * (int (half_turn k) - int m)"
  have side: "(1 :: int) = (if ?w > 10 then 1 else if m = 0 then 0 else 1)"
    using half_turn_bounds(1) [OF g(2)] by (cases m) auto
  have "?w \<noteq> 0" and ng: "1 + int k * (int (half_turn k) - int (Suc m)) \<noteq> goal" using Suc.prems [of m] by auto
  moreover have eq: "?w - int k = 1 + int k * (int (half_turn k) - int (Suc m))" by (simp add: algebra_simps)
  ultimately have "\<exists>v'. calls f (Suc (half_turn k + m)) (g, v) =
      Inr (if ?w - int k = goal then landed (\<not> up) g else flip_state g 1 (?w - int k), v') \<and> gfx_ok v'"
    by (intro call_step [OF f g _ _ v1 side]) auto
  with ng show ?case by (simp add: eq)
qed

lemma flips_as_down: "flips_as (flipACardDown ju) False 1"
  using flips_refine unfolding flips_as_def by blast

lemma flips_as_up: "flips_as (flipACardUp ju) True 0"
  using flips_refine unfolding flips_as_def by blast

text \<open>C11: Any number of face-up cards set in motion together, two after a mismatch or all sixteen after the deal, are
  face down and at rest after \<open>2 * half_turn k\<close> calls of \<open>flipACardDown\<close> (20, 10, 8, ... 2 calls).\<close>

lemma flip_down_completes:
  assumes "flip_start False k g" and "0 < k" and "gfx_ok v"
  shows "\<exists>v'. calls (flipACardDown ju) (2 * half_turn k) (g, v) = Inr (landed True g, v') \<and> gfx_ok v'"
proof -
  let ?n = "half_turn k"
  have n: "0 < ?n" using half_turn_bounds(1) [OF assms(2)] by (cases ?n) auto
  have ok: "1 + int k * (int ?n - int j) \<noteq> 0 \<and> 1 + int k * (int ?n - int (Suc j)) \<noteq> 1" if "j < ?n - 1" for j
  proof -
    have "0 < int k * (int ?n - int (Suc j))" "0 < int k * (int ?n - int j)" using that assms(2) by simp_all
    then show ?thesis by linarith
  qed
  from calls_narrow [OF flips_as_down assms(1,2) _ assms(3) ok, of "?n - 1"] obtain v1 where
    v1: "calls (flipACardDown ju) (?n + (?n - 1)) (g, v) =
      Inr (flip_state g (if ?n - 1 = 0 then 0 else 1) (1 + int k * (int ?n - int (?n - 1))), v1)" "gfx_ok v1" by auto
  have e: "1 + int k * (int ?n - int (?n - 1)) = 1 + int k" using n by (simp add: of_nat_diff)
  have side: "(1 :: int) = (if 1 + int k > 10 then 1 else if ?n - 1 = 0 then 0 else 1)"
    using half_turn_bounds(1) [OF assms(2)] n by (cases "?n = 1") auto
  have "\<exists>v'. calls (flipACardDown ju) (Suc (?n + (?n - 1))) (g, v) =
      Inr (if 1 + int k - int k = 1 then landed (\<not> False) g else flip_state g 1 (1 + int k - int k), v') \<and> gfx_ok v'"
    by (rule call_step [OF flips_as_down assms(1,2) _ _ v1 [unfolded e] side]) auto
  moreover have "Suc (?n + (?n - 1)) = 2 * ?n" using n by simp
  ultimately show ?thesis by (simp add: mult_2)
qed

text \<open>C18: One clicked card is face up and at rest after 21 calls of \<open>flipACardUp\<close>.\<close>

lemma flip_up_completes:
  assumes "flip_start True 1 g" and "gfx_ok v"
  shows "\<exists>v'. calls (flipACardUp ju) 21 (g, v) = Inr (landed False g, v') \<and> gfx_ok v'"
proof -
  have "\<exists>v'. calls (flipACardUp ju) (half_turn 1 + 10) (g, v) =
    Inr (flip_state g (if (10 :: nat) = 0 then 0 else 1) (1 + int 1 * (int (half_turn 1) - int 10)), v') \<and> gfx_ok v'"
    by (rule calls_narrow [OF flips_as_up assms(1) _ _ assms(2)]) (simp_all add: half_turn_def)
  then obtain v1 where v1: "calls (flipACardUp ju) 20 (g, v) = Inr (flip_state g 1 1, v1)" "gfx_ok v1"
    by (auto simp: half_turn_def)
  have "\<exists>v'. calls (flipACardUp ju) (Suc 20) (g, v) = Inr (if (0 :: int) = 0 then landed (\<not> True) g else flip_state g 1 0, v') \<and> gfx_ok v'"
    by (rule call_step [OF flips_as_up assms(1) _ _ _ v1]) simp_all
  then show ?thesis by simp
qed

text \<open>Two or more cards turned up together never come to rest: after any number of calls of \<open>flipACardUp\<close> every
  one of them is still in motion, since the width steps over the final value 0.\<close>

lemma many_cards_up_never_land:
  assumes "flip_start True k g" and "2 \<le> k" and "gfx_ok v"
  shows "\<exists>g' v'. calls (flipACardUp ju) m (g, v) = Inr (g', v') \<and> cardArray g' = cardArray g"
proof -
  have nz: "1 + int k * j \<noteq> 0" for j :: int
  proof
    assume "1 + int k * j = 0"
    then have "int k * (- j) = 1" by simp
    then have "int k dvd 1" by (metis dvd_triv_left)
    with assms(2) show False by simp
  qed
  have "\<exists>v' s w. calls (flipACardUp ju) m (g, v) = Inr (flip_state g s w, v')"
  proof (cases "m \<le> half_turn k")
    case True
    with calls_widen [OF flips_as_up [of ju] assms(1) _ _ assms(3), of m] assms(2) show ?thesis by fastforce
  next
    case False
    then have m: "half_turn k + (m - half_turn k) = m" by simp
    show ?thesis
      using calls_narrow [OF flips_as_up [of ju] assms(1) _ _ assms(3), of "m - half_turn k"] assms(2) nz unfolding m by fastforce
  qed
  then show ?thesis by auto
qed


definition full_screen :: video where
  "full_screen = card_screen\<lparr>modeinfo := (modeinfo tiny_screen)\<lparr>XResolution := 800, YResolution := 600\<rparr>,
     buffer := replicate 1440000 0, video_mem := replicate 1440000 0,
     imgCardBack := \<lparr>width = 75, height = 109\<rparr>, spriteCardBack := replicate (3 * 75 * 109) 7\<rparr>"

definition no_image :: xpm_image where
  "no_image = \<lparr>width = 0, height = 0\<rparr>"

text \<open>A table with the given cards, the pointer in the corner and no images loaded.\<close>

definition table_with :: "card list \<Rightarrow> game" where
  "table_with cs = \<lparr>cardArray = cs, p1 = \<lparr>p_name = [], lives = 5, isAlive = True, bestTime = 0\<rparr>,
     increaseWidth = 1, otherSide = replicate 16 0, mouse = \<lparr>mouse_x = 0, mouse_y = 0\<rparr>,
     imgGameName = no_image, spriteGameName = [], imgMouse = no_image, spriteMouse = [],
     imgHeart = no_image, spriteHeart = [], imgVictory = no_image, spriteVictory = [],
     imgGameOver = no_image, spriteGameOver = [], imgInstructions = no_image, spriteInstructions = [],
     imgMoon = no_image, spriteMoon = [], imgSun = no_image, spriteSun = [],
     imgBackground = no_image, spriteBackground = []\<rparr>"

text \<open>\<open>k\<close> cards in motion, all showing the same side, and the others face down.\<close>

definition table_moving :: "nat \<Rightarrow> bool \<Rightarrow> game" where
  "table_moving k hidden = table_with (replicate k ((mk_card 3 1)\<lparr>isFlipping := True, isFlipped := hidden\<rparr>) @
     replicate (16 - k) ((mk_card 5 2)\<lparr>isFlipped := True\<rparr>))"

lemma full_screen_ok: "gfx_ok full_screen"
  by (simp add: gfx_ok_def vid_ok_def pixel_bytes_def xres_def yres_def full_screen_def card_screen_def tiny_screen_def)

lemma table_moving_start:
  "flip_start False 2 (table_moving 2 False)" "flip_start True 1 (table_moving 1 True)" "flip_start True 2 (table_moving 2 True)"
  by code_simp+

theorem flips_refine_spec_witness:
  "\<exists>v'. flipACardUp 0 (table_moving 1 True, full_screen) = Inr (False, (table_moving 1 True)\<lparr>increaseWidth := 2\<rparr>, v')"
proof -
  have "flip_spec True 0 (table_moving 1 True) = (False, (table_moving 1 True)\<lparr>increaseWidth := 2\<rparr>)"
    by code_simp
  moreover have "board (table_moving 1 True)" "faces_ok (cardArray (table_moving 1 True))" "increaseWidth (table_moving 1 True) = 1"
    by code_simp+
  ultimately show ?thesis using flips_refine_spec [OF full_screen_ok, of "table_moving 1 True" 0] by auto
qed

theorem flip_down_completes_witness:
  "\<exists>v'. calls (flipACardDown 0) 10 (table_moving 2 False, full_screen) = Inr (landed True (table_moving 2 False), v')"
  using flip_down_completes [OF table_moving_start(1) _ full_screen_ok, of 0] by (auto simp: half_turn_def)

theorem flip_up_completes_witness:
  "\<exists>v'. calls (flipACardUp 0) 21 (table_moving 1 True, full_screen) = Inr (landed False (table_moving 1 True), v')"
  using flip_up_completes [OF table_moving_start(2) full_screen_ok, of 0] by auto

theorem many_cards_up_never_land_witness:
  "\<exists>g' v'. calls (flipACardUp 0) 1000 (table_moving 2 True, full_screen) = Inr (g', v') \<and> cardArray g' = cardArray (table_moving 2 True)"
  by (rule many_cards_up_never_land [OF table_moving_start(3) _ full_screen_ok]) simp

section \<open>Pointer\<close>

lemma update_mouse_x_bound:
  assumes "15 \<le> xres v" and "0 \<le> mx" and "mx < xres v"
  shows "0 \<le> update_mouse_x x v mx" and "update_mouse_x x v mx < xres v"
proof -
  have "c_div x 2 \<le> max x 0" and "min x 0 \<le> c_div x 2"
    by (cases "0 \<le> x"; simp add: c_div_nonneg c_div_neg; linarith)+
  then show "0 \<le> update_mouse_x x v mx" and "update_mouse_x x v mx < xres v"
    using assms by (auto simp: update_mouse_x_def)
qed

lemma update_mouse_y_nonneg:
  assumes "15 \<le> yres v" and "0 \<le> my"
  shows "0 \<le> update_mouse_y y v my"
proof -
  have "c_div y 2 \<le> max y 0"
    by (cases "0 \<le> y"; simp add: c_div_nonneg c_div_neg; linarith)
  then show ?thesis using assms by (auto simp: update_mouse_y_def)
qed

text \<open>C26: \<open>update_mouse_position\<close> keeps the column of the pointer on the screen and its row from becoming negative,
  for every displacement.\<close>

lemma pointer_column_stays:
  assumes "15 \<le> xres v" and "15 \<le> yres v" and "0 \<le> mouse_x (mouse g)" and "mouse_x (mouse g) < xres v" and "0 \<le> mouse_y (mouse g)"
  shows "0 \<le> mouse_x (mouse (update_mouse_position x y v g)) \<and> mouse_x (mouse (update_mouse_position x y v g)) < xres v \<and>
    0 \<le> mouse_y (mouse (update_mouse_position x y v g))"
  using assms update_mouse_x_bound update_mouse_y_nonneg by (simp add: update_mouse_position_def)

text \<open>The lower bound test uses the wrong sign: moving the pointer down by steps of two units takes it row by
  row past the last line of the screen, to \<open>YResolution + 2\<close>.\<close>

lemma pointer_leaves_bottom:
  assumes "n \<le> nat (yres v) + 2"
  shows "(update_mouse_y (-2) v ^^ n) 0 = int n"
  using assms
proof (induction n)
  case 0
  then show ?case by simp
next
  case (Suc n)
  moreover have "0 \<le> yres v" by (simp add: yres_def)
  ultimately show ?case by (simp add: update_mouse_y_def c_div_neg)
qed

text \<open>C21: With the pointer so low that the cursor crosses the bottom edge, \<open>draw_mouse\<close> writes outside the frame
  buffer, whatever the cursor image holds.\<close>

lemma draw_mouse_below_faults:
  assumes "vid_ok v" and "0 \<le> mouse_x (mouse g)" and "mouse_x (mouse g) \<le> xres v" and "0 < width (imgMouse g)"
    and "mouse_y (mouse g) \<le> yres v" and "yres v < mouse_y (mouse g) + uint (height (imgMouse g))"
  shows "\<exists>e. draw_mouse ju g v = Inl e"
proof -
  have "0 < uint (width (imgMouse g))" using assms(4) by (simp add: word_less_def)
  then show ?thesis
    using blit_bottom_faults [OF assms(1-3) _ assms(5,6)] by (simp add: draw_mouse_def draw_image_def)
qed

section \<open>Clicking\<close>

definition grid :: "game \<Rightarrow> video \<Rightarrow> nat \<Rightarrow> bool" where
  "grid g v i \<longleftrightarrow> pointer_on (i mod 4) (i div 4) g v"

lemma pointer_on_unique:
  assumes "pointer_on x y g v" and "pointer_on x' y' g v"
  shows "x = x' \<and> y = y'"
  using assms by (auto simp: pointer_on_def getCardsScreenXY_def Let_def card_consts)

lemma click_card_eq: "click_card v (x, y) (p, g) =
    (if pointer_on x y g v then (Some (x + y * 4), set_flipping True (x + y * 4) g) else (p, g))"
  by (simp add: click_card_def)

lemma click_fold:
  assumes "\<And>xy. xy \<in> set xs \<Longrightarrow> pointer_on (fst xy) (snd xy) g v \<Longrightarrow> xy = (x, y)"
    and "distinct xs"
  shows "fold (click_card v) xs (p, g) =
    (if (x, y) \<in> set xs \<and> pointer_on x y g v then (Some (x + y * 4), set_flipping True (x + y * 4) g) else (p, g))"
  using assms
proof (induction xs arbitrary: p)
  case Nil
  then show ?case by simp
next
  case (Cons a xs)
  have skip: "fold (click_card v) ys (q, h) = (q, h)" if "\<And>xy. xy \<in> set ys \<Longrightarrow> \<not> pointer_on (fst xy) (snd xy) h v" for ys q h
    using that by (induction ys) (auto simp: click_card_eq)
  have mouse: "pointer_on u u' (set_flipping b i g) v = pointer_on u u' g v" for u u' b i
    by (simp add: pointer_on_def set_flipping_def)
  show ?case
  proof (cases "pointer_on (fst a) (snd a) g v")
    case True
    then have a: "a = (x, y)" using Cons.prems(1) [of a] by simp
    have "fold (click_card v) xs (Some (x + y * 4), set_flipping True (x + y * 4) g) = (Some (x + y * 4), set_flipping True (x + y * 4) g)"
      using Cons.prems a by (intro skip) (auto simp: mouse)
    with True a show ?thesis by (simp add: click_card_eq)
  next
    case False
    then show ?thesis using Cons.IH [of p] Cons.prems by (cases a) (auto simp: click_card_eq)
  qed
qed


lemma find_grid:
  assumes "x < 4" and "y < 4" and "pointer_on x y g v"
  shows "find (grid g v) [0..<16] = Some (x + y * 4)"
proof -
  have at: "grid g v (x + y * 4)" using assms by (simp add: grid_def)
  have "\<not> grid g v i" if "i < x + y * 4" for i
  proof
    assume "grid g v i"
    then have "i mod 4 = x" "i div 4 = y" using pointer_on_unique assms(3) by (auto simp: grid_def)
    then have "i = x + y * 4" using div_mult_mod_eq [of i 4] by simp
    with that show False by simp
  qed
  with at assms(1,2) show ?thesis
    by (auto simp: find_Some_iff intro!: exI [of _ "x + y * 4"])
qed

lemma click_selects:
  assumes "length (cardArray g) = 16"
  shows "flipCardOnClick v g =
    (case find (\<lambda>i. pointer_on (i mod 4) (i div 4) g v) [0..<16] of
       None \<Rightarrow> Inl Uninitialised
     | Some i \<Rightarrow> Inr (set_flipping (isFlipped (cardArray g ! i)) i g))"
proof (cases "\<exists>x<4. \<exists>y<4. pointer_on x y g v")
  case True
  then obtain x y where xy: "x < 4" "y < 4" "pointer_on x y g v" by blast
  have in_order: "(x, y) \<in> set click_order"
  proof -
    have "x \<in> {0, 1, 2, 3}" "y \<in> {0, 1, 2, 3}" using xy by auto
    then show ?thesis by (auto simp: click_order_def)
  qed
  have "fold (click_card v) click_order (None, g) =
    (if (x, y) \<in> set click_order \<and> pointer_on x y g v then (Some (x + y * 4), set_flipping True (x + y * 4) g) else (None, g))"
  proof (rule click_fold)
    show "distinct click_order" by (simp add: click_order_def)
  qed (use xy(3) pointer_on_unique in \<open>force\<close>)
  then have "fold (click_card v) click_order (None, g) = (Some (x + y * 4), set_flipping True (x + y * 4) g)"
    using in_order xy(3) by simp
  moreover have "x + y * 4 < 16" using xy by simp
  ultimately show ?thesis
    using find_grid [OF xy] assms
    by (simp add: flipCardOnClick_def set_flipping_def grid_def [abs_def])
next
  case False
  have sub: "xy \<in> set click_order \<Longrightarrow> fst xy < 4 \<and> snd xy < 4" for xy
    by (auto simp: click_order_def)
  have "fold (click_card v) click_order (None, g) =
    (if (0, 0) \<in> set click_order \<and> pointer_on 0 0 g v then (Some (0 + 0 * 4), set_flipping True (0 + 0 * 4) g) else (None, g))"
  proof (rule click_fold)
    show "distinct click_order" by (simp add: click_order_def)
  qed (use False sub in blast)
  moreover have "\<not> pointer_on 0 0 g v" using False by auto
  moreover have "find (\<lambda>i. pointer_on (i mod 4) (i div 4) g v) [0..<16] = None"
    using False by (auto simp: find_None_iff)
  ultimately show ?thesis by (simp add: flipCardOnClick_def)
qed

text \<open>The place of card \<open>k\<close> of the four by four grid in the middle of the screen, in numbers: 69 by 93 pixels, with 30
  columns and 20 rows between two cards.\<close>

definition under_pointer :: "video \<Rightarrow> game \<Rightarrow> nat \<Rightarrow> bool" where
  "under_pointer v g k \<longleftrightarrow>
     (let dx = mouse_x (mouse g) - (xres v div 2 - 198 + 99 * int (k mod 4)); dy = mouse_y (mouse g) - (yres v div 2 - 226 + 113 * int (k div 4))
      in 0 \<le> dx \<and> dx \<le> 69 \<and> 0 \<le> dy \<and> dy \<le> 93)"

lemma under_pointer_on: "pointer_on (k mod 4) (k div 4) g v \<longleftrightarrow> under_pointer v g k"
  by (auto simp: pointer_on_def under_pointer_def getCardsScreenXY_def card_consts Let_def)

text \<open>C16: \<open>flipCardOnClick\<close> acts on the card under the pointer and on nothing else: the card is set in motion if it is face
  down, and its motion is switched off if it is face up; when the pointer is on no card, the function uses the uninitialised
  \<open>posInArray\<close>.\<close>

lemma click_selects_card:
  assumes "length (cardArray g) = 16"
  shows "(\<forall>k<16. under_pointer v g k \<longrightarrow> flipCardOnClick v g =
      Inr (g\<lparr>cardArray := (cardArray g)[k := (cardArray g ! k)\<lparr>isFlipping := isFlipped (cardArray g ! k)\<rparr>]\<rparr>)) \<and>
    ((\<forall>k<16. \<not> under_pointer v g k) \<longrightarrow> flipCardOnClick v g = Inl Uninitialised)"
proof -
  have "find (grid g v) [0..<16] = Some k" if "k < 16" "under_pointer v g k" for k
    using find_grid [of "k mod 4" "k div 4" g v] that under_pointer_on [of k g v] by simp
  moreover have "find (grid g v) [0..<16] = None" if "\<forall>k<16. \<not> under_pointer v g k"
    using that by (simp add: find_None_iff grid_def under_pointer_on)
  ultimately show ?thesis using click_selects [OF assms, of v] by (simp add: grid_def [abs_def] set_flipping_def)
qed

theorem click_selects_card_witness:
  "flipCardOnClick full_screen (table_moving 0 True) = Inl Uninitialised \<and>
   flipCardOnClick full_screen ((table_moving 0 True)\<lparr>mouse := \<lparr>mouse_x = 310, mouse_y = 80\<rparr>\<rparr>) =
     Inr ((table_moving 0 True)\<lparr>mouse := \<lparr>mouse_x = 310, mouse_y = 80\<rparr>,
       cardArray := (replicate 16 ((mk_card 5 2)\<lparr>isFlipped := True\<rparr>))[1 := (mk_card 5 2)\<lparr>isFlipped := True, isFlipping := True\<rparr>]\<rparr>)"
proof -
  let ?g = "(table_moving 0 True)\<lparr>mouse := \<lparr>mouse_x = 310, mouse_y = 80\<rparr>\<rparr>"
  have x: "xres full_screen = 800" "yres full_screen = 600" using full_screen_ok by (auto simp: gfx_ok_def)
  have l: "cardArray (table_moving 0 True) = replicate 16 ((mk_card 5 2)\<lparr>isFlipped := True\<rparr>)" by (simp add: table_moving_def table_with_def)
  have "\<forall>k<16. \<not> under_pointer full_screen (table_moving 0 True) k"
    by (simp add: under_pointer_def x Let_def table_moving_def table_with_def)
  moreover have "under_pointer full_screen ?g 1" by (simp add: under_pointer_def x Let_def)
  ultimately show ?thesis
    using click_selects_card [of "table_moving 0 True" full_screen] click_selects_card [of ?g full_screen] by (simp add: l)
qed

theorem pointer_column_stays_witness:
  "mouse_x (mouse (update_mouse_position 255 (-256) full_screen (table_moving 0 True))) < 800"
proof -
  have "xres full_screen = 800" "yres full_screen = 600" using full_screen_ok by (auto simp: gfx_ok_def)
  with pointer_column_stays [of full_screen "table_moving 0 True" 255 "-256"] show ?thesis
    by (simp add: table_moving_def table_with_def)
qed

theorem pointer_leaves_bottom_witness: "(update_mouse_y (-2) full_screen ^^ 602) 0 = 602"
  using pointer_leaves_bottom [of 602 full_screen] full_screen_ok by (simp add: gfx_ok_def)

theorem draw_mouse_below_faults_witness:
  "\<exists>e. draw_mouse 0 ((table_moving 0 True)\<lparr>mouse := \<lparr>mouse_x = 10, mouse_y = 585\<rparr>,
     imgMouse := \<lparr>width = 50, height = 42\<rparr>, spriteMouse := replicate 6300 0\<rparr>) full_screen = Inl e"
  using full_screen_ok by (intro draw_mouse_below_faults) (simp_all add: gfx_ok_def)


end
