(* ===== verification/Proj_Main.thy ===== *)
theory Proj_Main
  imports Rtc Keyboard Mouse_Driver Timer_Driver Game
begin

text \<open>
  \<open>proj/src/proj.c\<close>: initialisation, the interrupt loop with its five game states, and
  the shutdown sequence.  The record \<open>proj\<close> holds the drivers' globals and the locals of
  \<open>proj_main_loop\<close>.  One pass through the loop is \<open>proj_iteration\<close>; the loop itself is
  \<open>proj_loop\<close>, which returns only when the program leaves the loop.
\<close>

unbundle bit_operations_syntax

datatype gameState = Menu | In_Game | Pause | HighScores | Instructions | Exit | Wait

record proj =
  kbd :: keyboard
  mdrv :: mouse_driver
  tmr :: timer
  clk :: rtc
  vid :: video
  gm :: game
  gs :: gameState
  prevState :: gameState
  endGame :: bool
  initGame :: bool
  condition :: bool
  game_over :: bool
  victory :: bool
  isAnyCardFlipping :: bool
  irq_set :: u8
  irq_set2 :: u8
  irq_set3 :: u8

section \<open>The game states\<close>

text \<open>A click with the pointer in a rectangle.\<close>

definition clicked_in :: "int \<Rightarrow> int \<Rightarrow> int \<Rightarrow> int \<Rightarrow> proj \<Rightarrow> bool" where
  "clicked_in x0 x1 y0 y1 s \<longleftrightarrow>
     lb (packet1 (mdrv s)) \<and> mouse_x (mouse (gm s)) \<ge> x0 \<and> mouse_x (mouse (gm s)) \<le> x1 \<and>
     mouse_y (mouse (gm s)) \<ge> y0 \<and> mouse_y (mouse (gm s)) \<le> y1"

definition play_chosen :: "proj \<Rightarrow> bool" where
  "play_chosen s \<longleftrightarrow> scancode (kbd s) = P_KEY_BREAKCODE \<or> clicked_in 360 445 300 330 s"

definition instructions_chosen :: "proj \<Rightarrow> bool" where
  "instructions_chosen s \<longleftrightarrow> scancode (kbd s) = I_KEY_BREAKCODE \<or> clicked_in 280 520 400 430 s"

definition exit_chosen :: "proj \<Rightarrow> bool" where
  "exit_chosen s \<longleftrightarrow> scancode (kbd s) = E_KEY_BREAKCODE \<or> clicked_in 360 440 500 530 s"

definition set_scancode :: "u8 \<Rightarrow> proj \<Rightarrow> proj" where
  "set_scancode c s = s\<lparr>kbd := (kbd s)\<lparr>scancode := c\<rparr>\<rparr>"

definition set_lb :: "bool \<Rightarrow> proj \<Rightarrow> proj" where
  "set_lb b s = s\<lparr>mdrv := (mdrv s)\<lparr>packet1 := (packet1 (mdrv s))\<lparr>lb := b\<rparr>\<rparr>\<rparr>"

definition set_ticks :: "int \<Rightarrow> proj \<Rightarrow> proj" where
  "set_ticks n s = s\<lparr>tmr := (tmr s)\<lparr>tmr_tck_counter := n\<rparr>\<rparr>"

text \<open>The buttons of the menu and of the pause screen, tested one after the other.\<close>

definition menu_buttons :: "proj \<Rightarrow> proj" where
  "menu_buttons s =
     (let s1 = (if play_chosen s then
                  set_lb False ((set_ticks 0 (set_scancode 0 s))\<lparr>gs := In_Game\<rparr>) else s);
          s2 = (if instructions_chosen s1 then set_lb False (s1\<lparr>gs := Instructions\<rparr>) else s1)
      in if exit_chosen s2 then s2\<lparr>gs := Exit\<rparr> else s2)"

definition pause_buttons :: "proj \<Rightarrow> proj" where
  "pause_buttons s =
     (let s1 = (if play_chosen s then (set_scancode 0 s)\<lparr>gs := In_Game\<rparr> else s);
          s2 = (if instructions_chosen s1 then
                  set_scancode 0 ((set_lb False (s1\<lparr>gs := Instructions\<rparr>))\<lparr>prevState := In_Game\<rparr>) else s1)
      in if exit_chosen s2 then set_scancode 0 (s2\<lparr>gs := Exit\<rparr>) else s2)"

text \<open>
  Drawing never touches anything but the frame buffer: a drawing step of a state is
  \<open>on_video\<close>, or \<open>on_screen\<close> when it loads images, too.
\<close>

definition on_video :: "(video \<Rightarrow> video result) \<Rightarrow> proj \<Rightarrow> proj result" where
  "on_video f s = andthen (f (vid s)) (\<lambda>v. Inr (s\<lparr>vid := v\<rparr>))"

definition on_screen :: "(video \<times> 'w \<Rightarrow> (video \<times> 'w) result) \<Rightarrow> proj \<times> 'w \<Rightarrow> (proj \<times> 'w) result" where
  "on_screen f st = (case st of (s, w) \<Rightarrow> andthen (f (vid s, w)) (\<lambda>(v, w'). Inr (s\<lparr>vid := v\<rparr>, w')))"

definition on_cards :: "(game \<times> video \<Rightarrow> (game \<times> video) result) \<Rightarrow> proj \<Rightarrow> proj result" where
  "on_cards f s = andthen (f (gm s, vid s)) (\<lambda>(g, v). Inr (s\<lparr>gm := g, vid := v\<rparr>))"

definition green_screen :: "video \<Rightarrow> video result" where
  "green_screen v = map_sum id snd (greenScreen v)"

definition daytime :: "rtc \<Rightarrow> bool" where
  "daytime d \<longleftrightarrow> hour (date d) < 20 \<and> hour (date d) \<ge> 6"

definition menu_tick :: "'w kernel \<Rightarrow> u8 \<Rightarrow> proj \<times> 'w \<Rightarrow> (proj \<times> 'w) result" where
  "menu_tick K ju st =
     (case st of (s, w) \<Rightarrow>
      andthen (on_video green_screen s) (\<lambda>s1.
      andthen (on_video (if daytime (clk s1) then drawSun ju (gm s1) else drawMoon ju (gm s1)) s1) (\<lambda>s2.
      andthen (on_screen (draw_menu K ju (gm s2)) (s2, w)) (\<lambda>(s3, w3).
      andthen (on_video my_updateVideoMem s3) (\<lambda>s4.
      Inr (menu_buttons s4, w3))))))"

definition deal_in :: "proj \<Rightarrow> proj" where
  "deal_in s =
     (if tmr_tck_counter (tmr s) mod 240 = 0 then
        s\<lparr>gm := (gm s)\<lparr>cardArray := map (isFlipping_update (\<lambda>_. True)) (cardArray (gm s))\<rparr>, initGame := False\<rparr>
      else s)"

definition any_flipping :: "game \<Rightarrow> bool" where
  "any_flipping g \<longleftrightarrow> list_ex isFlipping (cardArray g)"

definition click_cards :: "proj \<Rightarrow> proj result" where
  "click_cards s =
     (let s1 = s\<lparr>isAnyCardFlipping := False\<rparr> in
      if lb (packet1 (mdrv s1)) then
        (let s2 = (if any_flipping (gm s1) then s1\<lparr>isAnyCardFlipping := True\<rparr> else s1) in
         if \<not> isAnyCardFlipping s2 then
           andthen (flipCardOnClick (vid s2) (gm s2)) (\<lambda>g. Inr (s2\<lparr>gm := g\<rparr>))
         else Inr s2)
      else Inr s1)"

text \<open>The pair test: its state is \<open>flipCount\<close>, \<open>cardPosInArray\<close>, the program and the world.\<close>

definition set_success :: "nat \<Rightarrow> nat \<Rightarrow> game \<Rightarrow> game" where
  "set_success i j g =
     (let cs = (cardArray g)[i := (cardArray g ! i)\<lparr>flipSuccess := True\<rparr>] in
      g\<lparr>cardArray := cs[j := (cs ! j)\<lparr>flipSuccess := True\<rparr>]\<rparr>)"

definition lose_life :: "proj \<Rightarrow> proj" where
  "lose_life s =
     (let g = (gm s)\<lparr>p1 := (p1 (gm s))\<lparr>lives := lives (p1 (gm s)) - 1\<rparr>\<rparr> in
      if lives (p1 g) = 0 then
        s\<lparr>gm := g\<lparr>p1 := (p1 g)\<lparr>isAlive := False\<rparr>\<rparr>, game_over := True, gs := Exit\<rparr>
      else s\<lparr>gm := g\<rparr>)"

definition match_step :: "'w kernel \<Rightarrow> nat \<Rightarrow> nat \<times> nat \<times> proj \<times> 'w \<Rightarrow> nat \<times> nat \<times> proj \<times> 'w" where
  "match_step K i st =
     (case st of (flipCount, pos, s, w) \<Rightarrow>
      let c = cardArray (gm s) ! i; d = cardArray (gm s) ! pos in
      if \<not> isFlipped c \<and> flipCount = 0 \<and> \<not> flipSuccess c then (flipCount + 1, i, s, w)
      else if \<not> isFlipped c \<and> flipCount = 1 \<and> \<not> flipSuccess c then
        (if num c = num d \<and> suit c = suit d then
           (flipCount, pos, s\<lparr>gm := set_success i pos (gm s)\<rparr>, w)
         else
           (let (s1, w1) = (if \<not> isFlipping c then (lose_life s, sleep K 1 w) else (s, w)) in
            (flipCount, pos, s1\<lparr>gm := set_flipping True pos (set_flipping True i (gm s1))\<rparr>, w1)))
      else st)"

definition match_cards :: "'w kernel \<Rightarrow> proj \<times> 'w \<Rightarrow> proj \<times> 'w" where
  "match_cards K st =
     (case st of (s, w) \<Rightarrow>
      if \<not> isAnyCardFlipping s then
        (case fold (match_step K) [0..<16] (0, 0, s, w) of (_, _, s1, w1) \<Rightarrow> (s1, w1))
      else (s, w))"

definition check_victory :: "proj \<Rightarrow> proj" where
  "check_victory s =
     (let s1 = s\<lparr>endGame := list_all flipSuccess (cardArray (gm s))\<rparr> in
      if tmr_tck_counter (tmr s1) mod 120 = 0 \<and> endGame s1 then s1\<lparr>gs := Exit, victory := True\<rparr>
      else s1)"

definition game_play :: "'w kernel \<Rightarrow> u8 \<Rightarrow> proj \<times> 'w \<Rightarrow> (proj \<times> 'w) result" where
  "game_play K ju st =
     (case st of (s, w) \<Rightarrow>
      andthen (if tmr_tck_counter (tmr s) mod 2 = 0 then on_cards (draw_game_cards ju) s else Inr s) (\<lambda>s1.
      andthen (on_video (drawHearts ju (gm s1)) s1) (\<lambda>s2.
      andthen (on_video my_updateVideoMem s2) (\<lambda>s3.
      let s4 = (if scancode (kbd s3) = 0x81 then s3\<lparr>gs := Pause\<rparr> else s3) in
      andthen (click_cards s4) (\<lambda>s5.
      case match_cards K (s5, w) of (s6, w6) \<Rightarrow> Inr (check_victory s6, w6))))))"

definition game_tick :: "'w kernel \<Rightarrow> u8 \<Rightarrow> proj \<times> 'w \<Rightarrow> (proj \<times> 'w) result" where
  "game_tick K ju st =
     (case st of (s, w) \<Rightarrow>
      if initGame s then
        andthen (on_cards (draw_game_cards ju) (deal_in s)) (\<lambda>s1.
        andthen (on_video (drawHearts ju (gm s1)) s1) (\<lambda>s2.
        andthen (on_video my_updateVideoMem s2) (\<lambda>s3. Inr (s3, w))))
      else game_play K ju (s, w))"

definition pause_tick :: "'w kernel \<Rightarrow> u8 \<Rightarrow> proj \<times> 'w \<Rightarrow> (proj \<times> 'w) result" where
  "pause_tick K ju st =
     (case st of (s, w) \<Rightarrow>
      andthen (on_video green_screen s) (\<lambda>s1.
      andthen (on_screen (draw_pause K ju (gm s1)) (s1, w)) (\<lambda>(s2, w2).
      Inr (pause_buttons s2, w2))))"

text \<open>The last \<open>packet1.lb = false\<close> of the instructions screen is not part of its \<open>if\<close>.\<close>

definition instructions_keys :: "proj \<Rightarrow> proj" where
  "instructions_keys s =
     (if prevState s = In_Game then
        (if scancode (kbd s) = ESCAPE \<or> lb (packet1 (mdrv s))
         then set_lb False (s\<lparr>gs := In_Game, prevState := Instructions\<rparr>) else s)
      else set_lb False (if scancode (kbd s) = ESCAPE then s\<lparr>gs := Menu\<rparr> else s))"

definition instructions_tick :: "u8 \<Rightarrow> proj \<Rightarrow> proj result" where
  "instructions_tick ju s =
     andthen (on_video green_screen s) (\<lambda>s1.
     andthen (on_video (drawInstructions ju (gm s1)) s1) (\<lambda>s2.
     Inr (instructions_keys s2)))"

definition restart :: "'w kernel \<Rightarrow> proj \<times> 'w \<Rightarrow> (proj \<times> 'w) run" where
  "restart K st =
     (case st of (s, w) \<Rightarrow>
      if tmr_tck_counter (tmr s) mod 240 = 0 then
        (let s1 = s\<lparr>gs := Menu, game_over := False, victory := False, initGame := True\<rparr> in
         run_then (initialize_game_cards K (cardArray (gm s1)) w) (\<lambda>(cs, w1).
         Some (Inr (s1\<lparr>gm := initializePlayer ((gm s1)\<lparr>cardArray := cs\<rparr>)\<rparr>, w1))))
      else Some (Inr (s, w)))"

definition exit_tick :: "'w kernel \<Rightarrow> u8 \<Rightarrow> proj \<times> 'w \<Rightarrow> (proj \<times> 'w) run" where
  "exit_tick K ju st =
     (case st of (s, w) \<Rightarrow>
      run_then (Some (on_video green_screen s)) (\<lambda>s1.
      run_then
        (if game_over s1 then
           run_then (Some (on_video (draw_game_over ju (gm s1)) s1)) (\<lambda>s2. restart K (s2, w))
         else if victory s1 then
           run_then (Some (on_video (draw_victory ju (gm s1)) s1)) (\<lambda>s2. restart K (s2, w))
         else Some (Inr (s1\<lparr>condition := False\<rparr>, w))) (\<lambda>(s3, w3).
      run_then (Some (on_video my_updateVideoMem s3)) (\<lambda>s4. Some (Inr (s4, w3))))))"

section \<open>The interrupt loop\<close>

definition state_tick :: "'w kernel \<Rightarrow> u8 \<Rightarrow> proj \<times> 'w \<Rightarrow> (proj \<times> 'w) run" where
  "state_tick K ju st =
     (case gs (fst st) of
        Menu \<Rightarrow> Some (menu_tick K ju st)
      | In_Game \<Rightarrow> Some (game_tick K ju st)
      | Pause \<Rightarrow> Some (pause_tick K ju st)
      | Instructions \<Rightarrow> Some (andthen (instructions_tick ju (fst st)) (\<lambda>s. Inr (s, snd st)))
      | Exit \<Rightarrow> exit_tick K ju st
      | _ \<Rightarrow> Some (Inr st))"

definition timer_part :: "'w kernel \<Rightarrow> message \<Rightarrow> proj \<times> 'w \<Rightarrow> (proj \<times> 'w) run" where
  "timer_part K msg st =
     (case st of (s, w) \<Rightarrow>
      if interrupts msg AND ucast (irq_set2 s) \<noteq> 0 then
        (let ju = indeterminate K w in
         run_then (state_tick K ju (s\<lparr>tmr := timer_int_handler (tmr s)\<rparr>, w)) (\<lambda>(s1, w1).
         run_then (Some (on_video (draw_mouse ju (gm s1)) s1)) (\<lambda>s2.
         run_then (Some (on_video my_updateVideoMem s2)) (\<lambda>s3. Some (Inr (s3, w1))))))
      else Some (Inr (s, w)))"

definition mouse_part :: "'w kernel \<Rightarrow> message \<Rightarrow> proj \<times> 'w \<Rightarrow> (mouse_event \<times> proj \<times> 'w) option" where
  "mouse_part K msg st =
     (case st of (s, w) \<Rightarrow>
      if interrupts msg AND ucast (irq_set3 s) \<noteq> 0 then
        (case mouse_ih K (mdrv s) w of None \<Rightarrow> None
         | Some (d, w1) \<Rightarrow>
             (case mouse_dispatch d of (ev, d1) \<Rightarrow>
                let s1 = s\<lparr>mdrv := d1\<rparr> in
                Some (ev, if ev = Byte_Accepted then
                            s1\<lparr>gm := update_mouse_position (delta_x (packet1 d1)) (delta_y (packet1 d1)) (vid s1) (gm s1)\<rparr>
                          else s1, w1)))
      else Some (Byte_Accepted, s, w))"

definition keyboard_part :: "'w kernel \<Rightarrow> message \<Rightarrow> proj \<times> 'w \<Rightarrow> proj \<times> 'w" where
  "keyboard_part K msg st =
     (case st of (s, w) \<Rightarrow>
      if interrupts msg AND ucast (irq_set s) \<noteq> 0 then
        (case kbc_ih K (kbd s) w of (k, w1) \<Rightarrow> (s\<lparr>kbd := k\<rparr>, w1))
      else (s, w))"

definition proj_iteration :: "'w kernel \<Rightarrow> proj \<times> 'w \<Rightarrow> (proj \<times> 'w) run" where
  "proj_iteration K st =
     (case st of (s, w) \<Rightarrow>
      case driver_receive K w of ((r, msg, ipc_status), w1) \<Rightarrow>
      if r \<noteq> 0 then Some (Inr (s, w1))
      else if is_ipc_notify ipc_status \<and> ENDPOINT_P (m_source msg) = HARDWARE then
        (case mouse_part K msg (keyboard_part K msg (s, w1)) of None \<Rightarrow> None
         | Some (ev, st2) \<Rightarrow> if ev = Skip_Iteration then Some (Inr st2) else timer_part K msg st2)
      else Some (Inr (s, w1)))"

partial_function (option) proj_loop :: "'w kernel \<Rightarrow> proj \<times> 'w \<Rightarrow> (proj \<times> 'w) run" where
  "proj_loop K st =
     (if condition (fst st) then
        (case proj_iteration K st of
           None \<Rightarrow> None
         | Some (Inl f) \<Rightarrow> Some (Inl f)
         | Some (Inr st') \<Rightarrow> proj_loop K st')
      else Some (Inr st))"

section \<open>Initialisation and shutdown\<close>

definition load_sprites :: "'w kernel \<Rightarrow> game \<Rightarrow> video \<Rightarrow> 'w \<Rightarrow> game \<times> video \<times> 'w" where
  "load_sprites K g v w =
     (case xpm_load K ''gameName'' XPM_8_8_8 w of ((b1, i1), w1) \<Rightarrow>
      case xpm_load K ''deck'' XPM_8_8_8 w1 of ((b2, i2), w2) \<Rightarrow>
      case xpm_load K ''cardback'' XPM_8_8_8 w2 of ((b3, i3), w3) \<Rightarrow>
      case xpm_load K ''mouse_cursor'' XPM_8_8_8 w3 of ((b4, i4), w4) \<Rightarrow>
      case xpm_load K ''heart'' XPM_8_8_8 w4 of ((b5, i5), w5) \<Rightarrow>
      case xpm_load K ''victory'' XPM_8_8_8 w5 of ((b6, i6), w6) \<Rightarrow>
      case xpm_load K ''game_over'' XPM_8_8_8 w6 of ((b7, i7), w7) \<Rightarrow>
      case xpm_load K ''instructions'' XPM_8_8_8 w7 of ((b8, i8), w8) \<Rightarrow>
      case xpm_load K ''sun'' XPM_8_8_8 w8 of ((b9, i9), w9) \<Rightarrow>
      case xpm_load K ''moon'' XPM_8_8_8 w9 of ((b10, i10), w10) \<Rightarrow>
      case xpm_load K ''background'' XPM_8_8_8 w10 of ((b11, i11), w11) \<Rightarrow>
        (g\<lparr>spriteGameName := b1, imgGameName := i1, spriteMouse := b4, imgMouse := i4,
           spriteHeart := b5, imgHeart := i5, spriteVictory := b6, imgVictory := i6,
           spriteGameOver := b7, imgGameOver := i7, spriteInstructions := b8, imgInstructions := i8,
           spriteSun := b9, imgSun := i9, spriteMoon := b10, imgMoon := i10,
           spriteBackground := b11, imgBackground := i11\<rparr>,
         v\<lparr>spriteDeck := b2, imgDeck := i2, spriteCardBack := b3, imgCardBack := i3\<rparr>, w11))"

definition bit_mask :: "u8 \<Rightarrow> u8" where
  "bit_mask hookid = BIT (unat hookid)"

text \<open>
  The statements before the interrupt subscriptions, and those from there to the loop.
  A \<open>return 1\<close> of the second part is \<open>Inl 1\<close> inside the result.
\<close>

definition proj_setup_game :: "'w kernel \<Rightarrow> proj \<times> 'w \<Rightarrow> (proj \<times> 'w) run" where
  "proj_setup_game K st =
     (case st of (s, w) \<Rightarrow>
      run_then (initialize_game_cards K (cardArray (gm s)) (srand_time K w)) (\<lambda>(cs, w1).
      let g1 = create_mouse (initializePlayer ((gm s)\<lparr>cardArray := cs\<rparr>)) in
      case load_sprites K g1 (vid s) w1 of (g2, v2, w2) \<Rightarrow>
      case get_date K (clk s) w2 of ((_, d), w3) \<Rightarrow>
        Some (Inr (s\<lparr>gm := g2, vid := v2, gs := Menu, prevState := Exit, clk := d\<rparr>, w3))))"

definition proj_setup_devices :: "'w kernel \<Rightarrow> proj \<times> 'w \<Rightarrow> ((int + proj) \<times> 'w) result" where
  "proj_setup_devices K st =
     (case st of (s, w) \<Rightarrow>
      case kbc_subscribe K (kbd s) w of ((r1, bit1, k1), w1) \<Rightarrow>
      if r1 \<noteq> OK then Inr (Inl 1, w1) else
      case timer_subscribe_int K (tmr s) w1 of ((r2, bit2, t1), w2) \<Rightarrow>
      if r2 \<noteq> OK then Inr (Inl 1, w2) else
      case mouse_subscribe K (mdrv s) w2 of ((r3, bit3, d1), w3) \<Rightarrow>
      if r3 \<noteq> OK then Inr (Inl 1, w3) else
      case mouse_enable_data_reporting K w3 of (r4, w4) \<Rightarrow>
      if r4 \<noteq> 0 then Inr (Inl 1, w4) else
      andthen (vg_start K 0x115 (vid s) w4) (\<lambda>(r5, v1, w5).
      if r5 \<noteq> 0 then Inr (Inl 1, w5) else
      Inr (Inr (s\<lparr>kbd := k1, irq_set := bit_mask bit1, tmr := t1, irq_set2 := bit_mask bit2,
                  mdrv := d1, irq_set3 := bit_mask bit3, vid := v1, endGame := True,
                  initGame := True, condition := True, game_over := False, victory := False\<rparr>), w5)))"

definition proj_teardown :: "'w kernel \<Rightarrow> proj \<times> 'w \<Rightarrow> (int \<times> proj \<times> 'w) option" where
  "proj_teardown K st =
     (case st of (s, w) \<Rightarrow>
      case disable_mouse_data K w of None \<Rightarrow> None
      | Some (r1, w1) \<Rightarrow> if r1 \<noteq> 0 then Some (1, s, w1) else
      case timer_unsubscribe_int K (tmr s) w1 of ((r2, t1), w2) \<Rightarrow>
      if r2 \<noteq> 0 then Some (1, s\<lparr>tmr := t1\<rparr>, w2) else
      case kbc_unsubscribe K (kbd s) w2 of ((r3, k1), w3) \<Rightarrow>
      if r3 \<noteq> 0 then Some (1, s\<lparr>tmr := t1, kbd := k1\<rparr>, w3) else
      case mouse_unsubscribe K (mdrv s) w3 of ((r4, d1), w4) \<Rightarrow>
      if r4 \<noteq> 0 then Some (1, s\<lparr>tmr := t1, kbd := k1, mdrv := d1\<rparr>, w4) else
      case vg_exit K w4 of (r5, w5) \<Rightarrow>
      if r5 \<noteq> 0 then Some (1, s\<lparr>tmr := t1, kbd := k1, mdrv := d1\<rparr>, w5) else
      Some (0, s\<lparr>tmr := t1, kbd := k1, mdrv := d1, vid := clear_buffer (vid s)\<rparr>, w5))"

definition proj_main_loop :: "'w kernel \<Rightarrow> proj \<times> 'w \<Rightarrow> (int \<times> 'w) run" where
  "proj_main_loop K st =
     run_then (proj_setup_game K st) (\<lambda>st1.
     run_then (Some (proj_setup_devices K st1)) (\<lambda>(r, w2).
     case r of
       Inl code \<Rightarrow> Some (Inr (code, w2))
     | Inr s2 \<Rightarrow>
         run_then (proj_loop K (s2, w2)) (\<lambda>st3.
         case proj_teardown K st3 of None \<Rightarrow> None
         | Some (code, _, w4) \<Rightarrow> Some (Inr (code, w4)))))"

end
