(* ===== verification/Frames.thy ===== *)
theory Frames
  imports Proj_Main
begin

text \<open>
  What the operations of the program leave alone.  \<open>vkeeps\<close>: drawing changes the contents of the
  two buffers and nothing else of the video state.  \<open>gkeeps\<close>: the animation, the clicks and the
  pair test change the flags of the cards, never their faces or the images.  \<open>pkeeps\<close> combines both for the
  program state; there is one lemma for each game state's tick.
\<close>

unbundle bit_operations_syntax

section \<open>The frame buffer\<close>

definition vkeeps :: "video \<Rightarrow> video \<Rightarrow> bool" where
  "vkeeps v v' \<longleftrightarrow> (\<exists>b m. v' = v\<lparr>buffer := b, video_mem := m\<rparr> \<and>
     length b = length (buffer v) \<and> length m = length (video_mem v))"

lemma vkeepsI: "length b = length (buffer v) \<Longrightarrow> length m = length (video_mem v) \<Longrightarrow>
    vkeeps v (v\<lparr>buffer := b, video_mem := m\<rparr>)"
  by (auto simp: vkeeps_def)

lemma vkeeps_refl [simp, intro]: "vkeeps v v"
  unfolding vkeeps_def by (rule exI [of _ "buffer v"], rule exI [of _ "video_mem v"]) simp

lemma vkeeps_trans [trans]: "vkeeps u v \<Longrightarrow> vkeeps v w \<Longrightarrow> vkeeps u w"
  by (auto simp: vkeeps_def) blast

lemma vkeeps_simps:
  assumes "vkeeps v v'"
  shows "modeinfo v' = modeinfo v" "vid_ok v' = vid_ok v" "xres v' = xres v" "yres v' = yres v" "gfx_ok v' = gfx_ok v"
  using assms by (auto simp: vkeeps_def vid_ok_def xres_def yres_def pixel_bytes_def gfx_ok_def)

lemma draw_px_vkeeps:
  assumes "draw_px x y c u = Inr u'"
  shows "vkeeps u u'"
proof -
  from assms have "u' = u \<or> (\<exists>b off src. memcpy_to (buffer u) off src = Inr b \<and> u' = u\<lparr>buffer := b\<rparr>)"
    by (auto simp: draw_px_def my_draw_pixel_def andthen_def split: if_splits sum.splits)
  then consider "u' = u" | b where "length b = length (buffer u)" "u' = u\<lparr>buffer := b\<rparr>"
    using memcpy_to_length by blast
  then show ?thesis
  proof cases
    case 2
    then have "u' = u\<lparr>buffer := b, video_mem := video_mem u\<rparr>" by simp
    with 2(1) vkeepsI [of b u "video_mem u"] show ?thesis by simp
  qed simp
qed

lemma blit_vkeeps:
  assumes "blit ju sprite ptr sx sy w h adv skip v = Inr v'"
  shows "vkeeps v v'"
proof -
  have px: "vkeeps v (snd st')" if "vkeeps v (snd st)" "blit_pixel ju sprite adv line col st = Inr st'" for st st' line col
    using that draw_px_vkeeps vkeeps_trans by (cases st) (fastforce simp: blit_pixel_def andthen_eq_Inr)
  have row: "vkeeps v (snd st')" if k: "vkeeps v (snd st)" and r: "blit_row ju sprite sx w adv skip line st = Inr st'" for st st' line
  proof -
    from r obtain q where q: "for_each [sx..w + sx - 1] (blit_pixel ju sprite adv line) st = Inr q" "snd st' = snd q"
      by (auto simp: blit_row_def andthen_eq_Inr)
    have "vkeeps v (snd q)"
      by (rule for_each_preserves [where P = "\<lambda>st. vkeeps v (snd st)", OF q(1) k]) (rule px)
    then show ?thesis using q(2) by simp
  qed
  from assms obtain q where q: "for_each [sy..h + sy - 1] (blit_row ju sprite sx w adv skip) (ptr, v) = Inr q" "v' = snd q"
    by (auto simp: blit_def andthen_eq_Inr)
  have "vkeeps v (snd q)"
    by (rule for_each_preserves [where P = "\<lambda>st. vkeeps v (snd st)", OF q(1)]) (auto intro: row)
  then show ?thesis using q(2) by simp
qed

lemma draw_image_vkeeps: "draw_image ju sprite img sx sy v = Inr v' \<Longrightarrow> vkeeps v v'"
  by (auto simp: draw_image_def intro: blit_vkeeps)

lemma fill_vkeeps:
  assumes "for_each ys (\<lambda>i. for_each xs (\<lambda>j. draw_px j i c)) v = Inr v'"
  shows "vkeeps v v'"
proof -
  have row: "vkeeps v t'" if k: "vkeeps v t" and r: "for_each xs (\<lambda>j. draw_px j i c) t = Inr t'" for t t' i
    by (rule for_each_preserves [where P = "vkeeps v", OF r k]) (auto intro: vkeeps_trans draw_px_vkeeps)
  show ?thesis
    by (rule for_each_preserves [where P = "vkeeps v", OF assms]) (auto intro: row)
qed

lemma green_vkeeps:
  "green_screen v = Inr v' \<Longrightarrow> vkeeps v v'"
  "greenPartOfScreen sx sy w h v = Inr v' \<Longrightarrow> vkeeps v v'"
  by (auto simp: green_screen_def greenScreen_def greenPartOfScreen_def andthen_def split: sum.splits intro: fill_vkeeps)

lemma update_vkeeps:
  assumes "my_updateVideoMem v = Inr v'"
  shows "vkeeps v v'"
proof -
  from assms obtain src mem where "memcpy_to (video_mem v) 0 src = Inr mem" "v' = v\<lparr>video_mem := mem\<rparr>"
    by (auto simp: my_updateVideoMem_def Let_def andthen_eq_Inr)
  then have "v' = v\<lparr>buffer := buffer v, video_mem := mem\<rparr>" "length mem = length (video_mem v)"
    using memcpy_to_length by auto
  then show ?thesis using vkeepsI by metis
qed

lemma vg_draw_card_vkeeps: "vg_draw_card ju x y px py v = Inr v' \<Longrightarrow> vkeeps v v'"
  by (auto simp: vg_draw_card_def Let_def intro: blit_vkeeps draw_image_vkeeps split: if_splits)

lemma draw_word_vkeeps: "draw_word K ju x y ls (v, w) = Inr (v', w') \<Longrightarrow> vkeeps v v'"
proof (induction ls arbitrary: x v w)
  case Nil
  then show ?case by simp
next
  case (Cons l ls)
  then obtain v1 w1 where "draw_letter K ju x y l (v, w) = Inr (v1, w1)" "draw_word K ju (x + (LETTER_WIDTH + 5)) y ls (v1, w1) = Inr (v', w')"
    by (auto simp: andthen_eq_Inr)
  moreover from this(1) have "vkeeps v v1"
    by (auto simp: draw_letter_def andthen_eq_Inr split: prod.splits intro: draw_image_vkeeps)
  ultimately show ?case using Cons.IH vkeeps_trans by blast
qed

lemma menu_vkeeps:
  "draw_menu K ju g (v, w) = Inr (v', w') \<Longrightarrow> vkeeps v v'"
  "draw_pause K ju g (v, w) = Inr (v', w') \<Longrightarrow> vkeeps v v'"
  by (auto simp: draw_menu_def draw_pause_def andthen_eq_Inr; meson draw_image_vkeeps draw_word_vkeeps vkeeps_trans)+

lemma hearts_vkeeps: "draw_hearts_at ju g x n v = Inr v' \<Longrightarrow> vkeeps v v'"
proof (induction n arbitrary: x v)
  case 0
  then show ?case by simp
next
  case (Suc n)
  then show ?case using draw_image_vkeeps vkeeps_trans by (fastforce simp: andthen_eq_Inr)
qed


section \<open>The table\<close>

definition face :: "card \<Rightarrow> int \<times> int \<times> cardNumber \<times> cardSuit" where
  "face c = (card_x c, card_y c, num c, suit c)"

definition images :: "game \<Rightarrow> (u8 list \<times> xpm_image) list" where
  "images g = [(spriteGameName g, imgGameName g), (spriteMouse g, imgMouse g), (spriteHeart g, imgHeart g),
     (spriteVictory g, imgVictory g), (spriteGameOver g, imgGameOver g), (spriteInstructions g, imgInstructions g),
     (spriteMoon g, imgMoon g), (spriteSun g, imgSun g), (spriteBackground g, imgBackground g)]"

definition gkeeps :: "game \<Rightarrow> game \<Rightarrow> bool" where
  "gkeeps g g' \<longleftrightarrow> map face (cardArray g') = map face (cardArray g) \<and>
     length (otherSide g') = length (otherSide g) \<and> mouse g' = mouse g \<and> images g' = images g"

lemma gkeeps_refl [simp, intro]: "gkeeps g g"
  by (simp add: gkeeps_def)

lemma gkeeps_trans [trans]: "gkeeps g h \<Longrightarrow> gkeeps h k \<Longrightarrow> gkeeps g k"
  by (simp add: gkeeps_def)

lemma map_update_same:
  assumes "f x = f (xs ! i)"
  shows "map f (xs[i := x]) = map f xs"
proof (cases "i < length xs")
  case True
  with assms list_update_id [of "map f xs" i] show ?thesis by (simp add: map_update)
next
  case False
  then show ?thesis by (simp add: list_update_beyond)
qed

text \<open>The animation and the clicks leave the matches and the player alone, too.\<close>

definition gcalm :: "game \<Rightarrow> game \<Rightarrow> bool" where
  "gcalm g g' \<longleftrightarrow> gkeeps g g' \<and> map flipSuccess (cardArray g') = map flipSuccess (cardArray g) \<and> p1 g' = p1 g"

lemma gcalm_refl [simp, intro]: "gcalm g g"
  by (simp add: gcalm_def)

lemma gcalm_trans [trans]: "gcalm g h \<Longrightarrow> gcalm h k \<Longrightarrow> gcalm g k"
  using gkeeps_trans by (simp add: gcalm_def) blast

lemma gcalm_gkeeps: "gcalm g g' \<Longrightarrow> gkeeps g g'"
  by (simp add: gcalm_def)

lemma gcalm_steps:
  "gcalm g (mark_other_side up i g)" "gcalm g (flip_width i g)" "gcalm g (settle hidden i g)"
  "gcalm g (set_flipping b i g)"
  by (auto simp: gcalm_def gkeeps_def images_def mark_other_side_def flip_width_def settle_def set_flipping_def face_def map_update_same)

lemma set_success_gkeeps: "gkeeps g (set_success i j g)"
  by (auto simp: gkeeps_def images_def mark_other_side_def flip_width_def settle_def set_flipping_def set_success_def Let_def face_def map_update_same)

lemma fold_keeps:
  assumes "\<And>x s. R s (f x s)" and "\<And>s. R s s" and "\<And>s t u. R s t \<Longrightarrow> R t u \<Longrightarrow> R s u"
  shows "R s (fold f xs s)"
proof (induction xs arbitrary: s)
  case Nil
  show ?case by (simp add: assms(2))
next
  case (Cons x xs)
  from assms(3) [OF assms(1) Cons.IH] show ?case by simp
qed

lemma gcalm_folds: "gcalm g (fold flip_width is g)" "gcalm g (fold (settle hidden) is g)"
  by (rule fold_keeps [where R = gcalm]; blast intro: gcalm_steps gcalm_trans)+

definition gvkeeps :: "game \<times> video \<Rightarrow> game \<times> video \<Rightarrow> bool" where
  "gvkeeps a b \<longleftrightarrow> gcalm (fst a) (fst b) \<and> vkeeps (snd a) (snd b)"

lemma gvkeeps_refl [simp, intro]: "gvkeeps a a"
  by (simp add: gvkeeps_def)

lemma gvkeeps_trans: "gvkeeps a b \<Longrightarrow> gvkeeps b c \<Longrightarrow> gvkeeps a c"
  using gcalm_trans vkeeps_trans unfolding gvkeeps_def by blast

lemma flip_draw_vkeeps:
  "flip_draw_front ju g i v = Inr v' \<Longrightarrow> vkeeps v v'"
  "flip_draw_back ju g i v = Inr v' \<Longrightarrow> vkeeps v v'"
  unfolding flip_draw_front_def flip_draw_back_def Let_def
  by (auto simp: andthen_eq_Inr split: prod.splits if_splits; meson green_vkeeps blit_vkeeps vkeeps_trans)+

lemma flip_draw_gvkeeps:
  assumes "flip_down_draw ju i st = Inr st' \<or> flip_up_draw ju i st = Inr st'"
  shows "gvkeeps st st'"
  using assms gcalm_steps(1) flip_draw_vkeeps
  by (cases st) (auto simp: gvkeeps_def flip_down_draw_def flip_up_draw_def Let_def andthen_eq_Inr split: if_splits)

lemma flip_parts:
  "flipACardDown ju st = Inr (b, st') \<Longrightarrow> \<exists>t. for_each [0..<16] (flip_down_draw ju) st = Inr t \<and> snd st' = snd t \<and>
     (fst st' = fold flip_width [0..<16] (fst t) \<or> fst st' = fold (settle True) [0..<16] (fold flip_width [0..<16] (fst t)))"
  "flipACardUp ju st = Inr (b, st') \<Longrightarrow> \<exists>t. for_each [0..<16] (flip_up_draw ju) st = Inr t \<and> snd st' = snd t \<and>
     (fst st' = fold flip_width [0..<16] (fst t) \<or> fst st' = fold (settle False) [0..<16] (fold flip_width [0..<16] (fst t)))"
  by (auto simp: flipACardDown_def flipACardUp_def andthen_eq_Inr Let_def split: if_splits)

lemma flip_tail_gcalm:
  assumes "g = fold flip_width is h \<or> g = fold (settle hidden) is (fold flip_width is h)"
  shows "gcalm h g"
  using assms gcalm_folds gcalm_trans by blast

lemma flip_gvkeeps:
  assumes "flipACardDown ju st = Inr (b, st') \<or> flipACardUp ju st = Inr (b, st')"
  shows "gvkeeps st st'"
  using assms
proof
  assume "flipACardDown ju st = Inr (b, st')"
  from flip_parts(1) [OF this] obtain t where t: "for_each [0..<16] (flip_down_draw ju) st = Inr t"
    and "gcalm (fst t) (fst st')" "snd st' = snd t" using flip_tail_gcalm by blast
  then have "gvkeeps t st'" by (simp add: gvkeeps_def)
  moreover have "gvkeeps st t"
    by (rule for_each_preserves [where P = "gvkeeps st", OF t]) (auto intro: gvkeeps_trans flip_draw_gvkeeps)
  ultimately show ?thesis using gvkeeps_trans by blast
next
  assume "flipACardUp ju st = Inr (b, st')"
  from flip_parts(2) [OF this] obtain t where t: "for_each [0..<16] (flip_up_draw ju) st = Inr t"
    and "gcalm (fst t) (fst st')" "snd st' = snd t" using flip_tail_gcalm by blast
  then have "gvkeeps t st'" by (simp add: gvkeeps_def)
  moreover have "gvkeeps st t"
    by (rule for_each_preserves [where P = "gvkeeps st", OF t]) (auto intro: gvkeeps_trans flip_draw_gvkeeps)
  ultimately show ?thesis using gvkeeps_trans by blast
qed

lemma draw_one_card_gvkeeps: "draw_one_card ju i x y st = Inr st' \<Longrightarrow> gvkeeps st st'"
  by (cases st) (auto simp: draw_one_card_def andthen_eq_Inr gvkeeps_def dest!: flip_gvkeeps [of ju, OF disjI1] flip_gvkeeps [of ju, OF disjI2]
      split: if_splits intro: vg_draw_card_vkeeps)

lemma draw_cards_from_gvkeeps: "draw_cards_from ju is n x y st = Inr st' \<Longrightarrow> gvkeeps st st'"
proof (induction "is" arbitrary: n x y st)
  case Nil
  then show ?case by simp
next
  case (Cons i "is")
  from Cons.prems obtain t where t: "draw_one_card ju i x y st = Inr t" by (auto simp: andthen_eq_Inr)
  with Cons.prems have "st' = t \<or> (\<exists>n x y. draw_cards_from ju is n x y t = Inr st')"
    by (auto simp: Let_def split: prod.splits if_splits)
  then have "gvkeeps t st'" using Cons.IH by blast
  with draw_one_card_gvkeeps [OF t] show ?case by (rule gvkeeps_trans)
qed

lemma draw_game_cards_gvkeeps:
  assumes "draw_game_cards ju st = Inr st'"
  shows "gvkeeps st st'"
proof -
  from assms obtain v1 where "drawBackground ju (fst st) (snd st) = Inr v1" and d: "\<exists>n x y. draw_cards_from ju [0..<16] n x y (fst st, v1) = Inr st'"
    by (cases st) (auto simp: draw_game_cards_def andthen_eq_Inr)
  then have "gvkeeps st (fst st, v1)" by (auto simp: gvkeeps_def drawBackground_def intro: draw_image_vkeeps)
  with d draw_cards_from_gvkeeps gvkeeps_trans show ?thesis by blast
qed

lemma click_fold_gcalm: "gcalm g (snd (fold (click_card v) xs (p, g)))"
proof (induction xs arbitrary: p g)
  case Nil
  show ?case by simp
next
  case (Cons xy xs)
  obtain q h where c: "click_card v xy (p, g) = (q, h)" by fastforce
  then have "gcalm g h" using gcalm_steps(4) by (cases xy) (auto simp: click_card_eq split: if_splits)
  with gcalm_trans [OF this Cons.IH] c show ?case by simp
qed

lemma click_gcalm:
  assumes "flipCardOnClick v g = Inr g'"
  shows "gcalm g g'"
proof -
  obtain q g1 where q: "fold (click_card v) click_order (None, g) = (q, g1)" by fastforce
  then have "gcalm g g1" using click_fold_gcalm [of g v click_order None] by simp
  moreover have "gcalm g1 g'"
    using assms gcalm_steps(4) q by (auto simp: flipCardOnClick_def split: option.splits if_splits)
  ultimately show ?thesis by (rule gcalm_trans)
qed

section \<open>Frames of the states\<close>

definition pkeeps :: "proj \<Rightarrow> proj \<Rightarrow> bool" where
  "pkeeps s s' \<longleftrightarrow> gkeeps (gm s) (gm s') \<and> vkeeps (vid s) (vid s') \<and>
     irq_set s' = irq_set s \<and> irq_set2 s' = irq_set2 s \<and> irq_set3 s' = irq_set3 s"

lemma pkeeps_refl [simp, intro]: "pkeeps s s"
  by (simp add: pkeeps_def)

lemma pkeeps_trans: "pkeeps s t \<Longrightarrow> pkeeps t u \<Longrightarrow> pkeeps s u"
  using gkeeps_trans vkeeps_trans unfolding pkeeps_def by metis

lemma on_video_pkeeps:
  assumes "on_video f s = Inr s'" and "\<And>v v'. f v = Inr v' \<Longrightarrow> vkeeps v v'"
  shows "pkeeps s s' \<and> gs s' = gs s \<and> s' = s\<lparr>vid := vid s'\<rparr>"
  using assms by (auto simp: on_video_def andthen_eq_Inr pkeeps_def)

lemma on_screen_pkeeps:
  assumes "on_screen f (s, w) = Inr (s', w')" and "\<And>v v' w w'. f (v, w) = Inr (v', w') \<Longrightarrow> vkeeps v v'"
  shows "pkeeps s s' \<and> gs s' = gs s \<and> s' = s\<lparr>vid := vid s'\<rparr>"
  using assms by (auto simp: on_screen_def andthen_eq_Inr pkeeps_def)

lemma on_cards_pkeeps:
  assumes "on_cards (draw_game_cards ju) s = Inr s'"
  shows "pkeeps s s' \<and> gs s' = gs s \<and> s' = s\<lparr>gm := gm s', vid := vid s'\<rparr>"
  using assms draw_game_cards_gvkeeps by (fastforce simp: on_cards_def andthen_eq_Inr pkeeps_def gvkeeps_def gcalm_def)

lemmas image_defs = draw_mouse_def drawMoon_def drawSun_def drawInstructions_def drawHearts_def draw_victory_def
  draw_game_over_def

lemma button_pkeeps:
  "pkeeps s (menu_buttons s)" "pkeeps s (pause_buttons s)" "pkeeps s (instructions_keys s)"
  "pkeeps s (lose_life s)" "pkeeps s (check_victory s)" "pkeeps s (deal_in s)"
  by (auto simp: pkeeps_def menu_buttons_def pause_buttons_def instructions_keys_def lose_life_def check_victory_def
      deal_in_def set_lb_def set_ticks_def set_scancode_def Let_def gkeeps_def images_def face_def)

lemma menu_tick_pkeeps:
  assumes "menu_tick K ju (s, w) = Inr (s', w')"
  shows "\<exists>t. pkeeps s t \<and> gs t = gs s \<and> s' = menu_buttons t"
proof -
  from assms obtain s1 s2 s3 s4 w3 where s: "on_video green_screen s = Inr s1"
    "on_video (if daytime (clk s1) then drawSun ju (gm s1) else drawMoon ju (gm s1)) s1 = Inr s2"
    "on_screen (draw_menu K ju (gm s2)) (s2, w) = Inr (s3, w3)" "on_video my_updateVideoMem s3 = Inr s4"
    and s': "s' = menu_buttons s4"
    by (auto simp: menu_tick_def andthen_eq_Inr)
  have 1: "pkeeps s s1 \<and> gs s1 = gs s" using on_video_pkeeps [OF s(1) green_vkeeps(1)] by simp
  have "vkeeps v v'" if "(if daytime (clk s1) then drawSun ju (gm s1) else drawMoon ju (gm s1)) v = Inr v'" for v v'
    using that draw_image_vkeeps by (auto simp: image_defs split: if_splits)
  then have 2: "pkeeps s1 s2 \<and> gs s2 = gs s1" using on_video_pkeeps [OF s(2)] by blast
  have 3: "pkeeps s2 s3 \<and> gs s3 = gs s2"
    using on_screen_pkeeps [OF s(3)] menu_vkeeps(1) [of K ju "gm s2"] by simp
  have 4: "pkeeps s3 s4 \<and> gs s4 = gs s3" using on_video_pkeeps [OF s(4) update_vkeeps] by simp
  from 1 2 3 4 s' pkeeps_trans show ?thesis by metis
qed


text \<open>A tick of the table may also end the game.\<close>

definition mkeeps :: "proj \<Rightarrow> proj \<Rightarrow> bool" where
  "mkeeps s s' \<longleftrightarrow> pkeeps s s' \<and> (gs s' = gs s \<or> gs s' = Exit)"

lemma mkeeps_refl [simp, intro]: "mkeeps s s"
  by (simp add: mkeeps_def)

lemma mkeeps_trans: "mkeeps s t \<Longrightarrow> mkeeps t u \<Longrightarrow> mkeeps s u"
  using pkeeps_trans unfolding mkeeps_def by metis

lemma gm_mkeeps: "gkeeps (gm s) g \<Longrightarrow> mkeeps s (s\<lparr>gm := g\<rparr>)"
  by (simp add: mkeeps_def pkeeps_def)

lemma lose_life_mkeeps: "mkeeps s (lose_life s)"
  using button_pkeeps(4) by (auto simp: mkeeps_def lose_life_def Let_def)

lemma match_step_mkeeps:
  assumes "match_step K i (n, p, s, w) = (n', p', s', w')"
  shows "mkeeps s s'"
proof -
  have fl: "mkeeps t (t\<lparr>gm := set_flipping True j (set_flipping True k (gm t))\<rparr>)" for t j k
    by (rule gm_mkeeps) (blast intro: gcalm_gkeeps gcalm_steps gcalm_trans)
  have su: "mkeeps s (s\<lparr>gm := set_success i p (gm s)\<rparr>)"
    by (rule gm_mkeeps) (rule set_success_gkeeps)
  from assms consider "s' = s" | "s' = s\<lparr>gm := set_success i p (gm s)\<rparr>"
    | t where "mkeeps s t" "s' = t\<lparr>gm := set_flipping True p (set_flipping True i (gm t))\<rparr>"
    using lose_life_mkeeps by (auto simp: match_step_def Let_def split: if_splits)
  then show ?thesis using fl su mkeeps_trans by cases auto
qed

lemma match_fold_mkeeps:
  "fold (match_step K) is (n, p, s, w) = (n', p', s', w') \<Longrightarrow> mkeeps s s'"
proof (induction "is" arbitrary: n p s w)
  case Nil
  then show ?case by simp
next
  case (Cons i "is")
  obtain n1 q1 s1 w1 where 1: "match_step K i (n, p, s, w) = (n1, q1, s1, w1)" by (metis prod.exhaust)
  with Cons.prems have "mkeeps s1 s'" by (auto intro: Cons.IH)
  with match_step_mkeeps [OF 1] show ?case by (rule mkeeps_trans)
qed

lemma match_cards_mkeeps: "match_cards K (s, w) = (s', w') \<Longrightarrow> mkeeps s s'"
  using match_fold_mkeeps by (auto simp: match_cards_def split: if_splits prod.splits)

lemma click_cards_pkeeps:
  "click_cards s = Inr s' \<Longrightarrow> pkeeps s s' \<and> gs s' = gs s"
  using click_gcalm [THEN gcalm_gkeeps] by (auto simp: click_cards_def Let_def andthen_eq_Inr pkeeps_def split: if_splits)

lemma hearts_update:
  assumes "on_video (drawHearts ju (gm s1)) s1 = Inr s2" and "on_video my_updateVideoMem s2 = Inr s3"
  shows "pkeeps s1 s3 \<and> gs s3 = gs s1"
proof -
  have "pkeeps s1 s2 \<and> gs s2 = gs s1"
    using on_video_pkeeps [OF assms(1)] hearts_vkeeps by (auto simp: drawHearts_def)
  moreover have "pkeeps s2 s3 \<and> gs s3 = gs s2" using on_video_pkeeps [OF assms(2) update_vkeeps] by simp
  ultimately show ?thesis using pkeeps_trans by metis
qed

lemma game_play_parts:
  assumes "game_play (K :: 'a kernel) ju (s, w) = Inr (s', w')"
  obtains s1 s2 s3 s5 s6 where
    "(if tmr_tck_counter (tmr s) mod 2 = 0 then on_cards (draw_game_cards ju) s else Inr s) = Inr s1"
    "on_video (drawHearts ju (gm s1)) s1 = Inr s2" "on_video my_updateVideoMem s2 = Inr s3"
    "click_cards (if scancode (kbd s3) = 0x81 then s3\<lparr>gs := Pause\<rparr> else s3) = Inr s5"
    "match_cards K (s5, w) = (s6, w')" "s' = check_victory s6"
proof -
  from assms obtain s1 s2 s3 s5 where
    1: "(if tmr_tck_counter (tmr s) mod 2 = 0 then on_cards (draw_game_cards ju) s else Inr s) = Inr s1" and
    2: "on_video (drawHearts ju (gm s1)) s1 = Inr s2" and 3: "on_video my_updateVideoMem s2 = Inr s3" and
    5: "click_cards (if scancode (kbd s3) = 0x81 then s3\<lparr>gs := Pause\<rparr> else s3) = Inr s5" and
    "(case match_cards K (s5, w) of (s6, w6) \<Rightarrow> (Inr (check_victory s6, w6) :: fault + (proj \<times> 'a))) = Inr (s', w')"
    by (auto simp: game_play_def andthen_eq_Inr Let_def)
  with that show thesis by (auto split: prod.splits)
qed

lemma game_play_keeps:
  assumes "game_play K ju (s, w) = Inr (s', w')"
  shows "pkeeps s s' \<and> gs s' \<in> {gs s, Pause, Exit}"
proof -
  from assms obtain s1 s2 s3 s5 s6 where
    1: "(if tmr_tck_counter (tmr s) mod 2 = 0 then on_cards (draw_game_cards ju) s else Inr s) = Inr s1" and
    2: "on_video (drawHearts ju (gm s1)) s1 = Inr s2" and 3: "on_video my_updateVideoMem s2 = Inr s3" and
    5: "click_cards (if scancode (kbd s3) = 0x81 then s3\<lparr>gs := Pause\<rparr> else s3) = Inr s5" and
    6: "match_cards K (s5, w) = (s6, w')" and s': "s' = check_victory s6"
    by (rule game_play_parts)
  have k1: "pkeeps s s1 \<and> gs s1 = gs s" using 1 on_cards_pkeeps by (auto split: if_splits)
  have k3: "pkeeps s1 s3 \<and> gs s3 = gs s1" using hearts_update [OF 2 3] .
  have k4: "pkeeps s3 (if scancode (kbd s3) = 0x81 then s3\<lparr>gs := Pause\<rparr> else s3)" by (auto simp: pkeeps_def)
  have k5: "pkeeps s3 s5 \<and> gs s5 \<in> {gs s3, Pause}"
    using click_cards_pkeeps [OF 5] pkeeps_trans [OF k4] by (auto split: if_splits)
  have k6: "pkeeps s5 s6 \<and> (gs s6 = gs s5 \<or> gs s6 = Exit)"
    using match_cards_mkeeps [OF 6] by (simp add: mkeeps_def)
  have k7: "pkeeps s6 s' \<and> (gs s' = gs s6 \<or> gs s' = Exit)"
    using button_pkeeps(5) by (auto simp: s' check_victory_def Let_def)
  from k1 k3 k5 k6 k7 pkeeps_trans have "pkeeps s s'" by metis
  with k1 k3 k5 k6 k7 show ?thesis by auto
qed

lemma game_tick_keeps:
  assumes "game_tick K ju (s, w) = Inr (s', w')"
  shows "pkeeps s s' \<and> gs s' \<in> {gs s, Pause, Exit}"
proof (cases "initGame s")
  case True
  with assms obtain s1 s2 where 1: "on_cards (draw_game_cards ju) (deal_in s) = Inr s1"
    and 2: "on_video (drawHearts ju (gm s1)) s1 = Inr s2" "on_video my_updateVideoMem s2 = Inr s'"
    by (auto simp: game_tick_def andthen_eq_Inr)
  have "pkeeps s (deal_in s)" "gs (deal_in s) = gs s" using button_pkeeps(6) by (auto simp: deal_in_def)
  with on_cards_pkeeps [OF 1] hearts_update [OF 2] pkeeps_trans show ?thesis by (metis insertI1)
next
  case False
  then show ?thesis using assms game_play_keeps by (simp add: game_tick_def)
qed

lemma pause_tick_keeps:
  assumes "pause_tick K ju (s, w) = Inr (s', w')"
  shows "\<exists>t. pkeeps s t \<and> gs t = gs s \<and> s' = pause_buttons t"
proof -
  from assms obtain s1 s2 w2 where s: "on_video green_screen s = Inr s1"
    "on_screen (draw_pause K ju (gm s1)) (s1, w) = Inr (s2, w2)" and s': "s' = pause_buttons s2"
    by (auto simp: pause_tick_def andthen_eq_Inr)
  have "pkeeps s s1 \<and> gs s1 = gs s" using on_video_pkeeps [OF s(1) green_vkeeps(1)] by simp
  moreover have "pkeeps s1 s2 \<and> gs s2 = gs s1"
    using on_screen_pkeeps [OF s(2)] menu_vkeeps(2) [of K ju "gm s1"] by simp
  ultimately show ?thesis using s' pkeeps_trans by metis
qed

lemma instructions_tick_keeps:
  assumes "instructions_tick ju s = Inr s'"
  shows "\<exists>t. pkeeps s t \<and> gs t = gs s \<and> s' = instructions_keys t"
proof -
  from assms obtain s1 s2 where s: "on_video green_screen s = Inr s1"
    "on_video (drawInstructions ju (gm s1)) s1 = Inr s2" and s': "s' = instructions_keys s2"
    by (auto simp: instructions_tick_def andthen_eq_Inr)
  have "pkeeps s s1 \<and> gs s1 = gs s" using on_video_pkeeps [OF s(1) green_vkeeps(1)] by simp
  moreover have "pkeeps s1 s2 \<and> gs s2 = gs s1"
    using on_video_pkeeps [OF s(2)] draw_image_vkeeps by (auto simp: image_defs)
  ultimately show ?thesis using s' pkeeps_trans by metis
qed

end
