(* ===== verification/Proj_Props.thy ===== *)
theory Proj_Props
  imports Frames
begin

text \<open>
  The properties of the interrupt loop of \<open>proj.c\<close>: the invariant of all reachable states, the
  transitions between the game states, the pair test, the way out of the loop and the interrupt
  masks.
\<close>

unbundle bit_operations_syntax

section \<open>The invariant of the loop\<close>

text \<open>The table holds eight distinct faces of the deck, each twice.\<close>

definition eight_pairs :: "card list \<Rightarrow> bool" where
  "eight_pairs cs \<longleftrightarrow> (\<exists>fs. length fs = 8 \<and> distinct fs \<and> set fs \<subseteq> {0..<13} \<times> {0..<4} \<and>
     mset (map face cs) = mset (map (\<lambda>(x, y). (x, y, getCardNumber x, getCardSuit y)) (fs @ fs)))"

definition pointer_ok :: "proj \<Rightarrow> bool" where
  "pointer_ok s \<longleftrightarrow> 0 \<le> mouse_x (mouse (gm s)) \<and> mouse_x (mouse (gm s)) < xres (vid s) \<and> 0 \<le> mouse_y (mouse (gm s))"

definition table_inv :: "vbe_mode_info \<Rightarrow> (u8 list \<times> xpm_image) list \<Rightarrow> proj \<Rightarrow> bool" where
  "table_inv mi im s \<longleftrightarrow> eight_pairs (cardArray (gm s)) \<and> length (otherSide (gm s)) = 16 \<and>
     vid_ok (vid s) \<and> modeinfo (vid s) = mi \<and> pointer_ok s \<and> images (gm s) = im \<and> gs s \<notin> {HighScores, Wait}"

inductive proj_step :: "'w kernel \<Rightarrow> proj \<times> 'w \<Rightarrow> proj \<times> 'w \<Rightarrow> bool" for K where
  proj_stepI: "condition s \<Longrightarrow> proj_iteration K (s, w) = Some (Inr (s', w')) \<Longrightarrow> proj_step K (s, w) (s', w')"

inductive_cases proj_stepE: "proj_step K (s, w) (s', w')"

lemma dealt_eight_pairs: "dealt cs \<Longrightarrow> eight_pairs cs"
proof -
  assume "dealt cs"
  then obtain fs where fs: "length fs = 8" "distinct fs" "set fs \<subseteq> {0..<13} \<times> {0..<4}"
    and m: "mset cs = mset (map (\<lambda>(x, y). mk_card x y) (fs @ fs))" by (auto simp: dealt_def)
  have "mset (map face cs) = image_mset face (mset cs)" by simp
  also have "\<dots> = mset (map (face \<circ> (\<lambda>(x, y). mk_card x y)) (fs @ fs))"
    by (simp only: m mset_map image_mset.compositionality)
  also have "face \<circ> (\<lambda>(x, y). mk_card x y) = (\<lambda>(x, y). (x, y, getCardNumber x, getCardSuit y))"
    by (auto simp: fun_eq_iff face_def mk_card_def)
  finally show ?thesis using fs by (auto simp: eight_pairs_def)
qed

lemma eight_pairs_length: "eight_pairs cs \<Longrightarrow> length cs = 16"
proof -
  assume "eight_pairs cs"
  then obtain fs where fs: "length fs = 8"
    and m: "mset (map face cs) = mset (map (\<lambda>(x, y). (x, y, getCardNumber x, getCardSuit y)) (fs @ fs))"
    by (auto simp: eight_pairs_def)
  from arg_cong [OF m, of size] fs show ?thesis by simp
qed

lemma pkeeps_inv:
  assumes "pkeeps s s'" and "table_inv mi im s" and "gs s' \<notin> {HighScores, Wait}"
  shows "table_inv mi im s'"
  using assms vkeeps_simps [of "vid s" "vid s'"]
  by (auto simp: table_inv_def pkeeps_def gkeeps_def eight_pairs_def pointer_ok_def)

lemma restart_keeps:
  assumes K: "rand_ok K" "rand_fair K" and inv: "table_inv mi im s" and "gs s = Exit"
    and "restart K (s, w) = Some (Inr (s', w'))"
  shows "table_inv mi im s' \<and> gs s' \<in> {Exit, Menu}"
proof (cases "tmr_tck_counter (tmr s) mod 240 = 0")
  case True
  have len: "length (cardArray (gm s)) = 16" using inv eight_pairs_length by (simp add: table_inv_def)
  from deal_total [OF K len, of w] obtain cs w1 where
    cs: "initialize_game_cards K (cardArray (gm s)) w = Some (Inr (cs, w1))" "dealt cs" by blast
  with True assms(5) have "s' = s\<lparr>gs := Menu, game_over := False, victory := False, initGame := True,
      gm := initializePlayer ((gm s)\<lparr>cardArray := cs\<rparr>)\<rparr>"
    by (simp add: restart_def Let_def)
  with inv dealt_eight_pairs [OF cs(2)] show ?thesis
    by (simp add: table_inv_def initializePlayer_def pointer_ok_def images_def)
next
  case False
  then show ?thesis using assms by (simp add: restart_def)
qed

lemma exit_tick_parts:
  assumes "exit_tick K ju (s, w) = Some (Inr (s', w'))"
  obtains s1 s3 where "on_video green_screen s = Inr s1" and "on_video my_updateVideoMem s3 = Inr s'"
    and "s3 = s1\<lparr>condition := False\<rparr> \<or>
      (\<exists>s2 w3. (on_video (draw_game_over ju (gm s1)) s1 = Inr s2 \<or> on_video (draw_victory ju (gm s1)) s1 = Inr s2) \<and>
        restart K (s2, w) = Some (Inr (s3, w3)))"
  using assms by (auto simp: exit_tick_def run_then_eq_Inr split: if_splits)

lemma exit_tick_keeps:
  assumes K: "rand_ok K" "rand_fair K" and inv: "table_inv mi im s" and "gs s = Exit"
    and tick: "exit_tick K ju (s, w) = Some (Inr (s', w'))"
  shows "table_inv mi im s' \<and> gs s' \<in> {Exit, Menu}"
proof -
  from tick obtain s1 s3 where s1: "on_video green_screen s = Inr s1" and s': "on_video my_updateVideoMem s3 = Inr s'"
    and s3: "s3 = s1\<lparr>condition := False\<rparr> \<or>
      (\<exists>s2 w3. (on_video (draw_game_over ju (gm s1)) s1 = Inr s2 \<or> on_video (draw_victory ju (gm s1)) s1 = Inr s2) \<and>
        restart K (s2, w) = Some (Inr (s3, w3)))"
    by (rule exit_tick_parts)
  have k1: "pkeeps s s1 \<and> gs s1 = gs s" using on_video_pkeeps [OF s1 green_vkeeps(1)] by simp
  then have i1: "table_inv mi im s1" using pkeeps_inv [of s s1 mi im] inv assms(4) by simp
  have k4: "pkeeps s3 s' \<and> gs s' = gs s3" using on_video_pkeeps [OF s' update_vkeeps] by simp
  from s3 have "table_inv mi im s3 \<and> gs s3 \<in> {Exit, Menu}"
  proof
    assume "s3 = s1\<lparr>condition := False\<rparr>"
    then show ?thesis using i1 k1 assms(4) by (simp add: table_inv_def pointer_ok_def)
  next
    assume "\<exists>s2 w3. (on_video (draw_game_over ju (gm s1)) s1 = Inr s2 \<or> on_video (draw_victory ju (gm s1)) s1 = Inr s2) \<and>
        restart K (s2, w) = Some (Inr (s3, w3))"
    then obtain s2 w3 where o: "on_video (draw_game_over ju (gm s1)) s1 = Inr s2 \<or> on_video (draw_victory ju (gm s1)) s1 = Inr s2"
      and r: "restart K (s2, w) = Some (Inr (s3, w3))" by blast
    from o have "pkeeps s1 s2 \<and> gs s2 = gs s1"
      by (elim disjE) (auto dest!: on_video_pkeeps simp: draw_game_over_def draw_victory_def draw_image_vkeeps)
    then have "table_inv mi im s2" "gs s2 = Exit" using pkeeps_inv i1 k1 assms(4) by auto
    with restart_keeps [OF K _ _ r] show ?thesis by blast
  qed
  with k4 pkeeps_inv show ?thesis by auto
qed

text \<open>The transitions between the game states.\<close>

fun may_follow :: "gameState \<Rightarrow> gameState set" where
  "may_follow Menu = {Menu, In_Game, Instructions, Exit}"
| "may_follow In_Game = {In_Game, Pause, Exit}"
| "may_follow Pause = {Pause, In_Game, Instructions, Exit}"
| "may_follow Instructions = {Instructions, In_Game, Menu}"
| "may_follow Exit = {Exit, Menu}"
| "may_follow HighScores = {HighScores}"
| "may_follow Wait = {Wait}"

lemma button_follow:
  "gs (menu_buttons t) \<in> {gs t, In_Game, Instructions, Exit}"
  "gs (pause_buttons t) \<in> {gs t, In_Game, Instructions, Exit}"
  "gs (instructions_keys t) \<in> {gs t, In_Game, Menu}"
  by (auto simp: menu_buttons_def pause_buttons_def instructions_keys_def Let_def set_lb_def set_ticks_def set_scancode_def)

lemma state_tick_keeps:
  assumes K: "rand_ok K" "rand_fair K" and inv: "table_inv mi im s"
    and "state_tick K ju (s, w) = Some (Inr (s', w'))"
  shows "table_inv mi im s' \<and> gs s' \<in> may_follow (gs s)"
proof (cases "gs s")
  case Menu
  with assms(4) obtain t where "pkeeps s t" "gs t = Menu" "s' = menu_buttons t"
    using menu_tick_pkeeps by (fastforce simp: state_tick_def)
  with button_follow(1) [of t] button_pkeeps(1) [of t] Menu inv show ?thesis
    by (auto intro: pkeeps_inv pkeeps_trans)
next
  case In_Game
  with assms(4) have "pkeeps s s' \<and> gs s' \<in> {In_Game, Pause, Exit}"
    using game_tick_keeps by (fastforce simp: state_tick_def)
  with In_Game inv show ?thesis by (auto intro: pkeeps_inv)
next
  case Pause
  with assms(4) obtain t where "pkeeps s t" "gs t = Pause" "s' = pause_buttons t"
    using pause_tick_keeps by (fastforce simp: state_tick_def)
  with button_follow(2) [of t] button_pkeeps(2) [of t] Pause inv show ?thesis
    by (auto intro: pkeeps_inv pkeeps_trans)
next
  case Instructions
  with assms(4) obtain t where "pkeeps s t" "gs t = Instructions" "s' = instructions_keys t"
    using instructions_tick_keeps by (fastforce simp: state_tick_def andthen_eq_Inr)
  with button_follow(3) [of t] button_pkeeps(3) [of t] Instructions inv show ?thesis
    by (auto intro: pkeeps_inv pkeeps_trans)
next
  case Exit
  with assms exit_tick_keeps [OF K inv Exit] show ?thesis by (simp add: state_tick_def)
qed (use assms in \<open>simp_all add: state_tick_def\<close>)

lemma exit_tick_mouse:
  assumes "exit_tick K ju (s, w) = Some (Inr (s', w'))"
  shows "mouse (gm s') = mouse (gm s)"
proof -
  have v: "gm t' = gm t" if "on_video f t = Inr t'" for f t t' using that by (auto simp: on_video_def andthen_eq_Inr)
  have r: "mouse (gm t') = mouse (gm t)" if "restart K (t, u) = Some (Inr (t', u'))" for t t' u u'
    using that by (auto simp: restart_def run_then_eq_Inr initializePlayer_def Let_def split: if_splits)
  obtain s1 s3 where s1: "on_video green_screen s = Inr s1" and s': "on_video my_updateVideoMem s3 = Inr s'"
    and s3: "s3 = s1\<lparr>condition := False\<rparr> \<or>
      (\<exists>s2 w3. (on_video (draw_game_over ju (gm s1)) s1 = Inr s2 \<or> on_video (draw_victory ju (gm s1)) s1 = Inr s2) \<and>
        restart K (s2, w) = Some (Inr (s3, w3)))"
    using assms by (rule exit_tick_parts)
  from s3 have "mouse (gm s3) = mouse (gm s1)"
  proof
    assume "\<exists>s2 w3. (on_video (draw_game_over ju (gm s1)) s1 = Inr s2 \<or> on_video (draw_victory ju (gm s1)) s1 = Inr s2) \<and>
        restart K (s2, w) = Some (Inr (s3, w3))"
    then obtain s2 w3 where "gm s2 = gm s1" "restart K (s2, w) = Some (Inr (s3, w3))" using v by blast
    then show ?thesis using r by simp
  qed simp
  with v [OF s1] v [OF s'] show ?thesis by simp
qed

lemma state_tick_mouse:
  assumes "state_tick K ju (s, w) = Some (Inr (s', w'))"
  shows "mouse (gm s') = mouse (gm s)"
proof -
  have p: "mouse (gm t) = mouse (gm s)" if "pkeeps s t" for t using that by (simp add: pkeeps_def gkeeps_def)
  show ?thesis
  proof (cases "gs s")
    case Menu
    with assms obtain t where "pkeeps s t" "s' = menu_buttons t" using menu_tick_pkeeps by (fastforce simp: state_tick_def)
    then show ?thesis using p button_pkeeps(1) pkeeps_trans by blast
  next
    case In_Game
    with assms have "pkeeps s s' \<and> gs s' \<in> {In_Game, Pause, Exit}" using game_tick_keeps by (fastforce simp: state_tick_def)
    then show ?thesis using p by blast
  next
    case Pause
    with assms obtain t where "pkeeps s t" "s' = pause_buttons t" using pause_tick_keeps by (fastforce simp: state_tick_def)
    then show ?thesis using p button_pkeeps(2) pkeeps_trans by blast
  next
    case Instructions
    with assms obtain t where "pkeeps s t" "s' = instructions_keys t"
      using instructions_tick_keeps by (fastforce simp: state_tick_def andthen_eq_Inr)
    then show ?thesis using p button_pkeeps(3) pkeeps_trans by blast
  next
    case Exit
    with assms exit_tick_mouse show ?thesis by (simp add: state_tick_def)
  qed (use assms in \<open>simp_all add: state_tick_def\<close>)
qed

lemma timer_part_keeps:
  assumes K: "rand_ok K" "rand_fair K" and inv: "table_inv mi im s"
    and "timer_part K msg (s, w) = Some (Inr (s', w'))"
  shows "table_inv mi im s'"
proof (cases "interrupts msg AND ucast (irq_set2 s) \<noteq> 0")
  case True
  with assms(4) obtain ju s1 w1 s2 where
    s1: "state_tick K ju (s\<lparr>tmr := timer_int_handler (tmr s)\<rparr>, w) = Some (Inr (s1, w1))"
    and s2: "on_video (draw_mouse ju (gm s1)) s1 = Inr s2" and s': "on_video my_updateVideoMem s2 = Inr s'"
    by (auto simp: timer_part_def Let_def run_then_eq_Inr)
  have "table_inv mi im (s\<lparr>tmr := timer_int_handler (tmr s)\<rparr>)"
    using inv by (simp add: table_inv_def pointer_ok_def)
  then have i1: "table_inv mi im s1" using state_tick_keeps [OF K _ s1] by blast
  have "pkeeps s1 s2 \<and> gs s2 = gs s1"
    using on_video_pkeeps [OF s2] draw_image_vkeeps by (auto simp: draw_mouse_def)
  moreover have "pkeeps s2 s' \<and> gs s' = gs s2" using on_video_pkeeps [OF s' update_vkeeps] by simp
  ultimately have "pkeeps s1 s' \<and> gs s' = gs s1" using pkeeps_trans by metis
  moreover have "gs s1 \<notin> {HighScores, Wait}" using i1 by (simp add: table_inv_def)
  ultimately show ?thesis using pkeeps_inv [of s1 s' mi im] i1 by metis
next
  case False
  then show ?thesis using assms(3,4) by (simp add: timer_part_def)
qed

lemma mouse_part_keeps:
  assumes inv: "table_inv mi im s" and "15 \<le> uint (XResolution mi)" and "15 \<le> uint (YResolution mi)"
    and "mouse_part K msg (s, w) = Some (ev, s', w')"
  shows "table_inv mi im s'"
proof -
  have "table_inv mi im (s\<lparr>mdrv := d\<rparr>)" for d using inv by (simp add: table_inv_def pointer_ok_def)
  moreover have "table_inv mi im (s\<lparr>mdrv := d, gm := update_mouse_position x y (vid s) (gm s)\<rparr>)" for d x y
    using inv assms(2,3) update_mouse_x_bound [of "vid s" "mouse_x (mouse (gm s))" x]
      update_mouse_y_nonneg [of "vid s" "mouse_y (mouse (gm s))" y]
    by (auto simp: table_inv_def pointer_ok_def images_def xres_def yres_def update_mouse_position_def)
  ultimately show ?thesis
    using inv assms(4) by (auto simp: mouse_part_def Let_def split: if_splits option.splits prod.splits)
qed

lemma keyboard_part_keeps:
  "table_inv mi im s \<Longrightarrow> keyboard_part K msg (s, w) = (s', w') \<Longrightarrow> table_inv mi im s'"
  by (auto simp: keyboard_part_def table_inv_def pointer_ok_def split: if_splits prod.splits)

lemma iteration_keeps:
  assumes K: "rand_ok K" "rand_fair K" and "15 \<le> uint (XResolution mi)" and "15 \<le> uint (YResolution mi)"
    and inv: "table_inv mi im s" and it: "proj_iteration K (s, w) = Some (Inr (s', w'))"
  shows "table_inv mi im s'"
proof -
  obtain r msg ipc w1 where r: "driver_receive K w = ((r, msg, ipc), w1)" by (metis prod.exhaust)
  obtain s1 w2 where kp: "keyboard_part K msg (s, w1) = (s1, w2)" by fastforce
  have i1: "table_inv mi im s1" using keyboard_part_keeps [OF inv kp] .
  from it consider "s' = s"
    | ev where "mouse_part K msg (s1, w2) = Some (ev, s', w')"
    | ev s2 w3 where "mouse_part K msg (s1, w2) = Some (ev, s2, w3)" "timer_part K msg (s2, w3) = Some (Inr (s', w'))"
    by (auto simp: proj_iteration_def r kp split: if_splits option.splits)
  then show ?thesis
  proof cases
    case 1
    then show ?thesis using inv by simp
  next
    case 2
    then show ?thesis by (rule mouse_part_keeps [OF i1 assms(3,4)])
  next
    case 3
    then show ?thesis by (intro timer_part_keeps [OF K mouse_part_keeps [OF i1 assms(3,4) 3(1)] 3(2)])
  qed
qed

text \<open>
  What the initialisation expects of the machine: the interrupt lines are free, the mouse
  answers, the video BIOS describes mode \<open>0x115\<close> by \<open>mi\<close> and can set it, and memory is available.
\<close>

definition machine_ok :: "'w kernel \<Rightarrow> vbe_mode_info \<Rightarrow> bool" where
  "machine_ok K mi \<longleftrightarrow>
     (\<forall>irq pol h w. fst (fst (sys_irqsetpolicy K irq pol h w)) = 0) \<and>
     (\<forall>w. fst (mouse_enable_data_reporting K w) = 0) \<and>
     (\<forall>i w. fst (vbe_get_mode_info K 0x115 i w) = (0, mi)) \<and>
     (\<forall>a b w. fst (sys_privctl_add_mem K a b w) = 0) \<and>
     (\<forall>n w. fst (malloc K n w) \<noteq> None) \<and> (\<forall>a n w. fst (vm_map_phys K a n w) \<noteq> None) \<and>
     (\<forall>a b c w. fst (sys_int86 K a b c w) = 0)"

lemma vg_start_ok:
  assumes "machine_ok K mi"
  shows "\<exists>v' w'. vg_start K 0x115 v w = Inr (0, v', w') \<and> modeinfo v' = mi"
proof -
  have "fst (vbe_get_mode_info K 0x115 i w) = (0, mi)" "fst (sys_privctl_add_mem K a b w) = 0"
    "fst (vm_map_phys K a n w) \<noteq> None" "fst (sys_int86 K a' b' c' w) = 0" for i a b a' b' c' n w
    using assms unfolding machine_ok_def by blast+
  then show ?thesis
    by (simp add: vg_start_def Let_def OK_def split_beta)
qed

lemma setup_devices_ok:
  assumes "machine_ok K mi"
  shows "\<exists>s' w'. proj_setup_devices K (s, w) = Inr (Inr s', w') \<and> gm s' = gm s \<and> gs s' = gs s \<and> modeinfo (vid s') = mi \<and>
    (\<exists>w3 w4. vg_start K 0x115 (vid s) w3 = Inr (0, vid s', w4)) \<and>
    irq_set s' = 0x02 \<and> irq_set2 s' = 0x01 \<and> irq_set3 s' = 0x04 \<and> condition s' \<and> \<not> game_over s' \<and> \<not> victory s'"
proof -
  have irq: "fst (fst (sys_irqsetpolicy K i p h w)) = 0" for i p h w using assms unfolding machine_ok_def by blast
  have en: "fst (mouse_enable_data_reporting K w) = 0" for w using assms unfolding machine_ok_def by blast
  let ?w3 = "snd (mouse_enable_data_reporting K (snd (mouse_subscribe K (mdrv s) (snd (timer_subscribe_int K (tmr s) (snd (kbc_subscribe K (kbd s) w)))))))"
  obtain v' w' where v': "vg_start K 0x115 (vid s) ?w3 = Inr (0, v', w')" "modeinfo v' = mi"
    using vg_start_ok [OF assms] by blast
  then show ?thesis
    using irq en
    by (simp add: proj_setup_devices_def kbd_line.subscribe_call timer_line.subscribe_call mouse_line.subscribe_call
        split_beta OK_def bit_mask_def BIT_def) blast
qed


interpretation loop_inv: step_invariant "proj_step K"
    "\<lambda>(s, w). table_inv mi im s \<and> rand_ok K \<and> rand_fair K \<and> 15 \<le> uint (XResolution mi) \<and> 15 \<le> uint (YResolution mi)" for K mi im
  by unfold_locales (auto elim!: proj_stepE intro: iteration_keeps)

definition svga :: "vbe_mode_info \<Rightarrow> bool" where
  "svga mi \<longleftrightarrow> XResolution mi = 800 \<and> YResolution mi = 600 \<and> BitsPerPixel mi = 24"

lemma load_sprites_frame:
  assumes "load_sprites K g v w = (g', v', w')"
  shows "cardArray g' = cardArray g \<and> otherSide g' = otherSide g \<and> mouse g' = mouse g \<and> p1 g' = p1 g"
  using assms by (auto simp: load_sprites_def split: prod.splits)

text \<open>The table and the player as the initialisation leaves them, with the images loaded.\<close>

definition fresh_game :: "'w kernel \<Rightarrow> game \<Rightarrow> bool" where
  "fresh_game K g \<longleftrightarrow> dealt (cardArray g) \<and> isAlive (p1 g) \<and> lives (p1 g) = 5 \<and>
     (\<exists>g0 v u v' u'. load_sprites K g0 v u = (g, v', u'))"

lemma setup_game_ok:
  assumes "rand_ok K" and "rand_fair K" and "length (cardArray (gm s)) = 16"
  shows "\<exists>s' w'. proj_setup_game K (s, w) = Some (Inr (s', w')) \<and> fresh_game K (gm s') \<and>
    otherSide (gm s') = otherSide (gm s) \<and> mouse (gm s') = \<lparr>mouse_x = 0, mouse_y = 0\<rparr> \<and> gs s' = Menu"
proof -
  obtain cs w1 where cs: "initialize_game_cards K (cardArray (gm s)) (srand_time K w) = Some (Inr (cs, w1))" "dealt cs"
    using deal_total [OF assms] by blast
  let ?g = "create_mouse (initializePlayer ((gm s)\<lparr>cardArray := cs\<rparr>))"
  obtain g2 v2 w2 where l: "load_sprites K ?g (vid s) w1 = (g2, v2, w2)" by (metis prod.exhaust)
  obtain r d w3 where "get_date K (clk s) w2 = ((r, d), w3)" by (metis prod.exhaust)
  with cs l load_sprites_frame [OF l] show ?thesis
    by (simp add: proj_setup_game_def Let_def fresh_game_def) (simp add: create_mouse_def initializePlayer_def, blast)
qed

lemma program_runs:
  assumes "rand_ok K" and "rand_fair K" and "machine_ok K mi" and "svga mi"
    and "length (cardArray (gm s0)) = 16" and "length (otherSide (gm s0)) = 16"
  shows "\<exists>st1 s2 w2. proj_setup_game K (s0, w0) = Some (Inr st1) \<and> proj_setup_devices K st1 = Inr (Inr s2, w2) \<and>
    fresh_game K (gm s2) \<and> gs s2 = Menu \<and> \<not> game_over s2 \<and> \<not> victory s2 \<and>
    (\<forall>s w. (proj_step K)\<^sup>*\<^sup>* (s2, w2) (s, w) \<longrightarrow> table_inv mi (images (gm s2)) s)"
proof -
  obtain s1 w1 where 1: "proj_setup_game K (s0, w0) = Some (Inr (s1, w1))" "fresh_game K (gm s1)"
    "otherSide (gm s1) = otherSide (gm s0)" "mouse (gm s1) = \<lparr>mouse_x = 0, mouse_y = 0\<rparr>" "gs s1 = Menu"
    using setup_game_ok [OF assms(1,2,5)] by blast
  obtain s2 w2 w3 w4 where 2: "proj_setup_devices K (s1, w1) = Inr (Inr s2, w2)" "gm s2 = gm s1" "gs s2 = gs s1"
    "modeinfo (vid s2) = mi" "vg_start K 0x115 (vid s1) w3 = Inr (0, vid s2, w4)"
    "\<not> game_over s2" "\<not> victory s2"
    using setup_devices_ok [OF assms(3)] by blast
  have "vid_ok (vid s2)"
    by (rule vg_start_size [OF 2(5)]) (use assms(3,4) 2(4) in \<open>auto simp: machine_ok_def svga_def\<close>)
  then have inv: "table_inv mi (images (gm s2)) s2"
    using 1 2 assms(4,6) dealt_eight_pairs by (simp add: fresh_game_def table_inv_def pointer_ok_def xres_def svga_def)
  have "table_inv mi (images (gm s2)) s" if "(proj_step K)\<^sup>*\<^sup>* (s2, w2) (s, w)" for s w
    using loop_inv.run_keeps [OF that, of mi "images (gm s2)"] inv assms(1,2,4) by (simp add: svga_def)
  then show ?thesis using 1 2 by auto
qed

text \<open>C1: The program comes up on a machine that answers, and from then on, after any sequence of interrupts and
  messages, the table holds eight distinct faces twice each, the frame buffer has the size of the screen, the
  pointer is not left of, above or right of it, and the state is one of the five that have code.\<close>

lemma main_loop_invariant:
  assumes "rand_ok K" and "rand_fair K" and "machine_ok K mi" and "svga mi"
    and "length (cardArray (gm s0)) = 16" and "length (otherSide (gm s0)) = 16"
  shows "\<exists>st1 s2 w2. proj_setup_game K (s0, w0) = Some (Inr st1) \<and> proj_setup_devices K st1 = Inr (Inr s2, w2) \<and>
    (\<forall>s w. (proj_step K)\<^sup>*\<^sup>* (s2, w2) (s, w) \<longrightarrow>
      eight_pairs (cardArray (gm s)) \<and> length (otherSide (gm s)) = 16 \<and> vid_ok (vid s) \<and> xres (vid s) = 800 \<and> yres (vid s) = 600 \<and>
      0 \<le> mouse_x (mouse (gm s)) \<and> mouse_x (mouse (gm s)) < 800 \<and> 0 \<le> mouse_y (mouse (gm s)) \<and>
      gs s \<in> {Menu, In_Game, Pause, Instructions, Exit})"
proof -
  obtain st1 s2 w2 where 1: "proj_setup_game K (s0, w0) = Some (Inr st1)" "proj_setup_devices K st1 = Inr (Inr s2, w2)"
    and "\<forall>s w. (proj_step K)\<^sup>*\<^sup>* (s2, w2) (s, w) \<longrightarrow> table_inv mi (images (gm s2)) s"
    using program_runs [OF assms] by blast
  moreover have "gs s \<in> {Menu, In_Game, Pause, Instructions, Exit}" if "gs s \<notin> {HighScores, Wait}" for s
    using that by (cases "gs s") auto
  ultimately show ?thesis
    using assms(4) by (fastforce simp: table_inv_def pointer_ok_def svga_def xres_def yres_def)
qed

lemma restart_gs: "restart K (s, w) = Some (Inr (s', w')) \<Longrightarrow> gs s' = gs s \<or> gs s' = Menu"
  by (auto simp: restart_def Let_def run_then_eq_Inr split: if_splits)

lemma exit_tick_gs:
  assumes "exit_tick K ju (s, w) = Some (Inr (s', w'))"
  shows "gs s' = gs s \<or> gs s' = Menu"
proof -
  have v: "gs t' = gs t" if "on_video f t = Inr t'" for f t t' using that by (auto simp: on_video_def andthen_eq_Inr)
  from assms obtain s1 s3 where s1: "on_video green_screen s = Inr s1" and s': "on_video my_updateVideoMem s3 = Inr s'"
    and s3: "s3 = s1\<lparr>condition := False\<rparr> \<or>
      (\<exists>s2 w3. (on_video (draw_game_over ju (gm s1)) s1 = Inr s2 \<or> on_video (draw_victory ju (gm s1)) s1 = Inr s2) \<and>
        restart K (s2, w) = Some (Inr (s3, w3)))"
    by (rule exit_tick_parts)
  from s3 have "gs s3 = gs s1 \<or> gs s3 = Menu" using v restart_gs by fastforce
  with v [OF s1] v [OF s'] show ?thesis by auto
qed

text \<open>C13: The transitions of the game: in a timer tick the menu leads to the game, the instructions or the exit, the
  game to the pause screen or the exit, the pause screen back or to the instructions or the exit, the
  instructions to the menu or the game, and the exit screen to the menu.\<close>

lemma state_transitions:
  assumes "state_tick K ju (s, w) = Some (Inr (s', w'))"
  shows "gs s' \<in> may_follow (gs s)"
proof (cases "gs s")
  case Menu
  with assms obtain t where "gs t = Menu" "s' = menu_buttons t"
    using menu_tick_pkeeps by (fastforce simp: state_tick_def)
  with button_follow(1) [of t] Menu show ?thesis by auto
next
  case In_Game
  with assms have "gs s' \<in> {In_Game, Pause, Exit}" using game_tick_keeps by (fastforce simp: state_tick_def)
  with In_Game show ?thesis by simp
next
  case Pause
  with assms obtain t where "gs t = Pause" "s' = pause_buttons t"
    using pause_tick_keeps by (fastforce simp: state_tick_def)
  with button_follow(2) [of t] Pause show ?thesis by auto
next
  case Instructions
  with assms obtain t where "gs t = Instructions" "s' = instructions_keys t"
    using instructions_tick_keeps by (fastforce simp: state_tick_def andthen_eq_Inr)
  with button_follow(3) [of t] Instructions show ?thesis by auto
next
  case Exit
  with assms have "exit_tick K ju (s, w) = Some (Inr (s', w'))" by (simp add: state_tick_def)
  then have "gs s' = gs s \<or> gs s' = Menu" by (rule exit_tick_gs)
  with Exit show ?thesis by auto
qed (use assms in \<open>simp_all add: state_tick_def\<close>)

definition svga_info :: vbe_mode_info where
  "svga_info = (modeinfo full_screen)"

definition pc_kernel :: "sim kernel" where
  "pc_kernel = cycle_kernel\<lparr>vbe_get_mode_info := (\<lambda>m i w. ((0, svga_info), w))\<rparr>"

lemma rand_cong:
  assumes "rand K = rand L"
  shows "rand_ok K = rand_ok L" and "rand_fair K = rand_fair L"
proof -
  have f: "draw_face K = draw_face L" by (simp add: draw_face_def assms fun_eq_iff)
  have d: "draws K n = draws L n" for n by (induction n) (simp_all add: f fun_eq_iff)
  show "rand_ok K = rand_ok L" "rand_fair K = rand_fair L"
    by (simp_all add: rand_ok_def rand_fair_def assms f d)
qed

lemma pc_kernel_ok: "rand_ok pc_kernel" "rand_fair pc_kernel" "machine_ok pc_kernel svga_info" "svga svga_info"
proof -
  show "rand_ok pc_kernel" "rand_fair pc_kernel"
    using cycle_kernel_ok rand_cong [of pc_kernel cycle_kernel] by (simp_all add: pc_kernel_def)
  show "machine_ok pc_kernel svga_info"
    by (simp add: machine_ok_def pc_kernel_def cycle_kernel_def sim_kernel_def)
  show "svga svga_info"
    by (simp add: svga_def svga_info_def full_screen_def card_screen_def tiny_screen_def)
qed

text \<open>The program before \<open>main\<close>: the globals of the C files.\<close>

definition proj_globals :: proj where
  "proj_globals = \<lparr>kbd = keyboard_init, mdrv = mouse_driver_init, tmr = timer_driver_init,
     clk = \<lparr>date = \<lparr>day = 0, month = 0, year = 0, hour = 0, minute = 0, second = 0\<rparr>, rtc_hook_id = 3\<rparr>,
     vid = tiny_screen, gm = table_with (replicate 16 (mk_card 0 0)), gs = Menu, prevState = Exit,
     endGame = True, initGame = True, condition = True, game_over = False, victory = False,
     isAnyCardFlipping = False, irq_set = 0, irq_set2 = 0, irq_set3 = 0\<rparr>"

theorem main_loop_invariant_witness:
  "\<exists>st1 s2 w2. proj_setup_game pc_kernel (proj_globals, sim0) = Some (Inr st1) \<and>
     proj_setup_devices pc_kernel st1 = Inr (Inr s2, w2) \<and> eight_pairs (cardArray (gm s2))"
proof -
  have "length (cardArray (gm proj_globals)) = 16" "length (otherSide (gm proj_globals)) = 16"
    by (simp_all add: proj_globals_def table_with_def)
  from main_loop_invariant [OF pc_kernel_ok this, of sim0] show ?thesis
    by (meson rtranclp.rtrancl_refl)
qed

text \<open>The program in the game state with the table at rest, on a full screen.\<close>

definition proj_on_screen :: proj where
  "proj_on_screen = proj_globals\<lparr>vid := full_screen\<rparr>"

section \<open>Matching\<close>

text \<open>A card the pair test looks at: face up and not yet matched.\<close>

definition open_card :: "card \<Rightarrow> bool" where
  "open_card c \<longleftrightarrow> \<not> isFlipped c \<and> \<not> flipSuccess c"

definition same_face :: "card \<Rightarrow> card \<Rightarrow> bool" where
  "same_face c d \<longleftrightarrow> num c = num d \<and> suit c = suit d"

lemma match_skip:
  "\<forall>k\<in>set ks. \<not> open_card (cardArray (gm s) ! k) \<Longrightarrow> fold (match_step K) ks (n, p, s, w) = (n, p, s, w)"
  by (induction ks) (auto simp: match_step_def open_card_def Let_def)

lemma upt_around_two:
  assumes "i < j" and "j < n"
  shows "[0..<n] = [0..<i] @ i # [Suc i..<j] @ j # [Suc j..<n]"
proof -
  have "[0..<n] = [0..<i] @ [i..<n]" using assms upt_add_eq_append [of 0 i "n - i"] by simp
  also have "[i..<n] = i # [Suc i..<n]" using assms by (simp add: upt_conv_Cons)
  also have "[Suc i..<n] = [Suc i..<j] @ [j..<n]" using assms upt_add_eq_append [of "Suc i" j "n - j"] by simp
  also have "[j..<n] = j # [Suc j..<n]" using assms by (simp add: upt_conv_Cons)
  finally show ?thesis .
qed

lemma two_open_match:
  assumes "length (cardArray (gm s)) = 16" and "i < j" and "j < 16" and "\<not> isAnyCardFlipping s"
    and two: "\<forall>k<16. open_card (cardArray (gm s) ! k) \<longleftrightarrow> k = i \<or> k = j"
  shows "match_cards K (s, w) =
    (if same_face (cardArray (gm s) ! j) (cardArray (gm s) ! i) then (s\<lparr>gm := set_success j i (gm s)\<rparr>, w)
     else if isFlipping (cardArray (gm s) ! j) then
       (s\<lparr>gm := set_flipping True i (set_flipping True j (gm s))\<rparr>, w)
     else ((lose_life s)\<lparr>gm := set_flipping True i (set_flipping True j (gm (lose_life s)))\<rparr>, sleep K 1 w)) \<and>
    lives (p1 (gm (lose_life s))) = lives (p1 (gm s)) - 1 \<and>
    game_over (lose_life s) = (game_over s \<or> lives (p1 (gm s)) = 1) \<and>
    gs (lose_life s) = (if lives (p1 (gm s)) = 1 then Exit else gs s)"
proof -
  let ?cs = "cardArray (gm s)"
  have o: "open_card (?cs ! i)" "open_card (?cs ! j)" using two assms(2,3) by auto
  have lc: "cardArray (gm (lose_life s)) = ?cs" by (simp add: lose_life_def Let_def)
  have a: "fold (match_step K) [0..<i] (0, 0, s, w) = (0, 0, s, w)"
    using two assms(2,3) by (intro match_skip) auto
  have b: "match_step K i (0, 0, s, w) = (1, i, s, w)" using o(1) by (simp add: match_step_def open_card_def Let_def)
  have c: "fold (match_step K) [Suc i..<j] (1, i, s, w) = (1, i, s, w)"
    using two assms(2,3) by (intro match_skip) auto
  define st where "st = match_step K j (1, i, s, w)"
  have d: "st = (1, i,
      if same_face (?cs ! j) (?cs ! i) then (s\<lparr>gm := set_success j i (gm s)\<rparr>, w)
      else if isFlipping (?cs ! j) then (s\<lparr>gm := set_flipping True i (set_flipping True j (gm s))\<rparr>, w)
      else ((lose_life s)\<lparr>gm := set_flipping True i (set_flipping True j (gm (lose_life s)))\<rparr>, sleep K 1 w))"
    using o(2) by (simp add: st_def match_step_def open_card_def same_face_def Let_def)
  obtain t u where st: "st = (1, i, t, u)" using d by (metis prod.collapse)
  have other: "cardArray (gm t) ! k = ?cs ! k" if "k \<noteq> i" "k \<noteq> j" for k
    using d st that lc by (auto simp: set_success_def set_flipping_def Let_def nth_list_update split: if_splits)
  have e: "fold (match_step K) [Suc j..<16] st = st"
    unfolding st using two other assms(2,3) by (intro match_skip) auto
  have "fold (match_step K) [0..<16] (0, 0, s, w) = st"
    unfolding upt_around_two [OF assms(2,3)] by (simp add: a b c e st_def [symmetric] del: One_nat_def)
  then show ?thesis using d assms(4) by (simp add: match_cards_def) (simp add: lose_life_def Let_def)
qed

text \<open>C12: When exactly two unmatched cards are face up, the pair test marks both as matched if number and suit agree;
  otherwise it sets both in motion and, unless the second one is still moving, takes one life and waits a second; the
  loss of the last life ends the game.  Nothing else changes.\<close>

lemma two_open_cards:
  assumes "length (cardArray (gm s)) = 16" and "i < j" and "j < 16" and "\<not> isAnyCardFlipping s"
    and two: "\<forall>k<16. \<not> isFlipped (cardArray (gm s) ! k) \<and> \<not> flipSuccess (cardArray (gm s) ! k) \<longleftrightarrow> k = i \<or> k = j"
  shows "match_cards K (s, w) =
    (let cs = cardArray (gm s); c = cs ! i; d = cs ! j; p = p1 (gm s);
         turned = cs[i := c\<lparr>isFlipping := True\<rparr>, j := d\<lparr>isFlipping := True\<rparr>] in
     if num c = num d \<and> suit c = suit d then
       (s\<lparr>gm := (gm s)\<lparr>cardArray := cs[i := c\<lparr>flipSuccess := True\<rparr>, j := d\<lparr>flipSuccess := True\<rparr>]\<rparr>\<rparr>, w)
     else if isFlipping d then (s\<lparr>gm := (gm s)\<lparr>cardArray := turned\<rparr>\<rparr>, w)
     else if lives p = 1 then
       (s\<lparr>gm := (gm s)\<lparr>cardArray := turned, p1 := p\<lparr>lives := 0, isAlive := False\<rparr>\<rparr>, game_over := True, gs := Exit\<rparr>, sleep K 1 w)
     else (s\<lparr>gm := (gm s)\<lparr>cardArray := turned, p1 := p\<lparr>lives := lives p - 1\<rparr>\<rparr>\<rparr>, sleep K 1 w))"
proof -
  have two': "\<forall>k<16. open_card (cardArray (gm s) ! k) \<longleftrightarrow> k = i \<or> k = j" using two by (simp add: open_card_def)
  have sw: "xs[j := y, i := x] = xs[i := x, j := y]" for xs :: "card list" and x y using assms(2) by (simp add: list_update_swap)
  have last: "lives (p1 (gm s)) - 1 = 0 \<longleftrightarrow> lives (p1 (gm s)) = 1" by simp
  show ?thesis
    using two_open_match [OF assms(1-4) two', of K w, THEN conjunct1] assms(1-3)
    by (simp add: same_face_def set_success_def set_flipping_def lose_life_def Let_def sw last eq_commute [of "num (cardArray (gm s) ! j)"]
        eq_commute [of "suit (cardArray (gm s) ! j)"])
qed

theorem two_open_cards_witness:
  "match_cards sim_kernel (proj_globals\<lparr>gm := table_with ([mk_card 1 1, mk_card 1 1] @ replicate 14 ((mk_card 5 2)\<lparr>isFlipped := True\<rparr>))\<rparr>, sim0) =
     (proj_globals\<lparr>gm := table_with ([(mk_card 1 1)\<lparr>flipSuccess := True\<rparr>, (mk_card 1 1)\<lparr>flipSuccess := True\<rparr>] @
        replicate 14 ((mk_card 5 2)\<lparr>isFlipped := True\<rparr>))\<rparr>, sim0) \<and>
   cardArray (gm (fst (match_cards sim_kernel (proj_globals\<lparr>gm := table_with ([mk_card 1 1, mk_card 2 1] @
        replicate 14 ((mk_card 5 2)\<lparr>isFlipped := True\<rparr>))\<rparr>, sim0)))) =
     [(mk_card 1 1)\<lparr>isFlipping := True\<rparr>, (mk_card 2 1)\<lparr>isFlipping := True\<rparr>] @ replicate 14 ((mk_card 5 2)\<lparr>isFlipped := True\<rparr>)"
proof -
  let ?s = "\<lambda>c. proj_globals\<lparr>gm := table_with ([mk_card 1 1, c] @ replicate 14 ((mk_card 5 2)\<lparr>isFlipped := True\<rparr>))\<rparr>"
  have "\<forall>k<16. \<not> isFlipped (cardArray (gm (?s (mk_card 1 1))) ! k) \<and> \<not> flipSuccess (cardArray (gm (?s (mk_card 1 1))) ! k) \<longleftrightarrow> k = 0 \<or> k = 1"
    "\<forall>k<16. \<not> isFlipped (cardArray (gm (?s (mk_card 2 1))) ! k) \<and> \<not> flipSuccess (cardArray (gm (?s (mk_card 2 1))) ! k) \<longleftrightarrow> k = 0 \<or> k = 1"
    by code_simp+
  moreover have "length (cardArray (gm (?s c))) = 16" "\<not> isAnyCardFlipping (?s c)" for c
    by (simp_all add: table_with_def proj_globals_def)
  moreover have "num (mk_card 1 1) \<noteq> num (mk_card 2 1)" "\<not> isFlipping (mk_card 2 1)" by code_simp+
  ultimately show ?thesis
    using two_open_cards [of "?s (mk_card 1 1)" 0 1 sim_kernel sim0] two_open_cards [of "?s (mk_card 2 1)" 0 1 sim_kernel sim0]
    by (simp add: table_with_def Let_def)
qed

lemma match_mismatch:
  assumes "open_card (cardArray (gm s) ! m)" and "\<not> same_face (cardArray (gm s) ! m) (cardArray (gm s) ! p)"
    and "\<not> isFlipping (cardArray (gm s) ! m)"
  shows "match_step K m (1, p, s, w) =
    (1, p, (lose_life s)\<lparr>gm := set_flipping True p (set_flipping True m (gm (lose_life s)))\<rparr>, sleep K 1 w)"
  using assms by (auto simp: match_step_def open_card_def same_face_def Let_def)

lemma turned_table:
  assumes t: "t = (lose_life s)\<lparr>gm := set_flipping True p (set_flipping True m (gm (lose_life s)))\<rparr>"
    and n: "n < length (cardArray (gm s))"
  shows "n \<notin> {p, m} \<Longrightarrow> cardArray (gm t) ! n = cardArray (gm s) ! n"
    "open_card (cardArray (gm t) ! n) = open_card (cardArray (gm s) ! n)" "same_face c (cardArray (gm t) ! n) = same_face c (cardArray (gm s) ! n)"
    "lives (p1 (gm t)) = lives (p1 (gm s)) - 1" "game_over s \<or> lives (p1 (gm s)) = 1 \<Longrightarrow> game_over t"
proof -
  have "cardArray (gm t) ! n = cardArray (gm s) ! n \<or> cardArray (gm t) ! n = (cardArray (gm s) ! n)\<lparr>isFlipping := True\<rparr>"
    unfolding t using n by (cases "n = p"; cases "n = m") (auto simp: lose_life_def set_flipping_def Let_def)
  then show "open_card (cardArray (gm t) ! n) = open_card (cardArray (gm s) ! n)" "same_face c (cardArray (gm t) ! n) = same_face c (cardArray (gm s) ! n)"
    by (auto simp: open_card_def same_face_def)
  show "n \<notin> {p, m} \<Longrightarrow> cardArray (gm t) ! n = cardArray (gm s) ! n" "lives (p1 (gm t)) = lives (p1 (gm s)) - 1"
    "game_over s \<or> lives (p1 (gm s)) = 1 \<Longrightarrow> game_over t"
    by (auto simp: t lose_life_def set_flipping_def Let_def)
qed

lemma upt_around_three:
  assumes "i < j" "j < k" "k < (16 :: nat)"
  shows "[0..<16] = [0..<i] @ i # [Suc i..<j] @ j # [Suc j..<k] @ k # [Suc k..<16]"
proof -
  have "[0..<16] = [0..<k] @ k # [Suc k..<16]" using assms(3) upt_add_eq_append [of 0 k "16 - k"] by (simp add: upt_conv_Cons)
  moreover have "[0..<k] = [0..<i] @ [i..<j] @ [j..<k]"
    using assms upt_add_eq_append [of 0 i "k - i"] upt_add_eq_append [of i j "k - j"] by simp
  ultimately show ?thesis using assms by (simp add: upt_conv_Cons)
qed

text \<open>C37: With three unmatched cards open and at rest, the way a held button leaves them, the pair test takes a life for
  each of the two that differ from the first, in one tick and without looking at the number left: with one life the game is
  over and the unsigned counter has wrapped around to \<open>0xFFFFFFFF\<close>.\<close>

lemma three_open_cards:
  assumes "length (cardArray (gm s)) = 16" and "i < j" and "j < k" and "k < 16" and "\<not> isAnyCardFlipping s"
    and three: "\<forall>m<16. open_card (cardArray (gm s) ! m) \<longleftrightarrow> m = i \<or> m = j \<or> m = k"
    and "\<not> same_face (cardArray (gm s) ! j) (cardArray (gm s) ! i)" and "\<not> same_face (cardArray (gm s) ! k) (cardArray (gm s) ! i)"
    and "\<not> isFlipping (cardArray (gm s) ! j)" and "\<not> isFlipping (cardArray (gm s) ! k)"
  shows "\<exists>s'. match_cards K (s, w) = (s', sleep K 1 (sleep K 1 w)) \<and> lives (p1 (gm s')) = lives (p1 (gm s)) - 2 \<and>
    (lives (p1 (gm s)) = 1 \<longrightarrow> lives (p1 (gm s')) = 0xFFFFFFFF \<and> game_over s')"
proof -
  define t where "t = (lose_life s)\<lparr>gm := set_flipping True i (set_flipping True j (gm (lose_life s)))\<rparr>"
  define u where "u = (lose_life t)\<lparr>gm := set_flipping True i (set_flipping True k (gm (lose_life t)))\<rparr>"
  have l: "m < 16 \<Longrightarrow> m < length (cardArray (gm s))" "m < 16 \<Longrightarrow> m < length (cardArray (gm t))" for m
    using assms(1) by (simp_all add: t_def lose_life_def set_flipping_def Let_def)
  note T = turned_table [OF t_def l(1)] and U = turned_table [OF u_def l(2)]
  have o: "open_card (cardArray (gm s) ! i)" "open_card (cardArray (gm s) ! j)" "open_card (cardArray (gm t) ! k)"
    using three assms(2-4) T(2) by auto
  have k: "cardArray (gm t) ! k = cardArray (gm s) ! k" using T(1) assms(2-4) by simp
  have a: "fold (match_step K) [0..<i] (0, 0, s, w) = (0, 0, s, w)" and c: "fold (match_step K) [Suc i..<j] (1, i, s, w) = (1, i, s, w)"
    using three assms(2-4) by (intro match_skip; auto)+
  have e: "fold (match_step K) [Suc j..<k] (1, i, t, w') = (1, i, t, w')" and f: "fold (match_step K) [Suc k..<16] (1, i, u, w') = (1, i, u, w')" for w'
    using three assms(2-4) by (intro match_skip; auto simp: T(2) U(2))+
  have b: "match_step K i (0, 0, s, w) = (1, i, s, w)" using o(1) by (simp add: match_step_def open_card_def Let_def)
  have d: "match_step K j (1, i, s, w) = (1, i, t, sleep K 1 w)" using match_mismatch [OF o(2) assms(7,9)] by (simp add: t_def)
  have g: "match_step K k (1, i, t, sleep K 1 w) = (1, i, u, sleep K 1 (sleep K 1 w))"
    using match_mismatch [OF o(3), of i K "sleep K 1 w"] assms(2-4,8,10) T(3) [of i] k by (simp add: u_def)
  have "fold (match_step K) [0..<16] (0, 0, s, w) = (1, i, u, sleep K 1 (sleep K 1 w))"
    unfolding upt_around_three [OF assms(2-4)] by (simp add: a b c d e f g del: One_nat_def)
  moreover have "lives (p1 (gm u)) = lives (p1 (gm s)) - 2" using T(4) [of i] U(4) [of i] assms(2-4) by simp
  moreover have "game_over u" if "lives (p1 (gm s)) = 1" using U(5) [of i] T(5) [of i] assms(2-4) that by simp
  ultimately show ?thesis using assms(5) by (simp add: match_cards_def)
qed

definition three_open :: proj where
  "three_open = proj_globals\<lparr>gm := (table_with ([mk_card 1 1, mk_card 2 1, mk_card 3 1] @
     replicate 13 ((mk_card 5 2)\<lparr>isFlipped := True\<rparr>)))\<lparr>p1 := \<lparr>p_name = [], lives = 1, isAlive = True, bestTime = 0\<rparr>\<rparr>\<rparr>"

theorem three_open_cards_witness:
  "\<exists>s'. match_cards sim_kernel (three_open, sim0) = (s', sim0) \<and> lives (p1 (gm s')) = 0xFFFFFFFF \<and> game_over s'"
proof -
  have "\<forall>m<16. open_card (cardArray (gm three_open) ! m) \<longleftrightarrow> m = 0 \<or> m = 1 \<or> m = 2" by code_simp
  moreover have "length (cardArray (gm three_open)) = 16" "\<not> isAnyCardFlipping three_open" "lives (p1 (gm three_open)) = 1"
    "\<not> same_face (cardArray (gm three_open) ! 1) (cardArray (gm three_open) ! 0)"
    "\<not> same_face (cardArray (gm three_open) ! 2) (cardArray (gm three_open) ! 0)"
    "\<not> isFlipping (cardArray (gm three_open) ! 1)" "\<not> isFlipping (cardArray (gm three_open) ! 2)"
    by code_simp+
  ultimately obtain s' where "match_cards sim_kernel (three_open, sim0) = (s', sleep sim_kernel 1 (sleep sim_kernel 1 sim0))"
    "lives (p1 (gm s')) = 0xFFFFFFFF" "game_over s'"
    using three_open_cards [of three_open 0 1 2 sim_kernel sim0] by auto
  then show ?thesis by (simp add: sim_kernel_def)
qed

section \<open>Leaving the loop\<close>

lemma exit_tick_total:
  assumes "gs t = Exit" and "\<not> game_over t" and "\<not> victory t" and "vid_ok (vid t)"
  shows "\<exists>v. state_tick K ju (t, w) = Some (Inr (t\<lparr>vid := v, condition := False\<rparr>, w)) \<and> vkeeps (vid t) v"
proof -
  obtain v1 where g: "greenScreen (vid t) = Inr (0, v1)" "vid_ok v1" using green_screen_total [OF assms(4)] by blast
  then have k1: "vkeeps (vid t) v1" using green_vkeeps(1) [of "vid t" v1] by (simp add: green_screen_def)
  have u1: "my_updateVideoMem v1 = Inr (v1\<lparr>video_mem := buffer v1\<rparr>)" using g(2) by (rule update_copies)
  then have "vkeeps v1 (v1\<lparr>video_mem := buffer v1\<rparr>)" by (rule update_vkeeps)
  with k1 have "vkeeps (vid t) (v1\<lparr>video_mem := buffer v1\<rparr>)" by (rule vkeeps_trans)
  moreover have "state_tick K ju (t, w) = Some (Inr (t\<lparr>vid := v1\<lparr>video_mem := buffer v1\<rparr>, condition := False\<rparr>, w))"
    using assms(1-3) g(1) u1 by (simp add: state_tick_def exit_tick_def on_video_def green_screen_def)
  ultimately show ?thesis by blast
qed

theorem state_transitions_witness:
  "\<exists>s'. state_tick sim_kernel 0 (proj_on_screen\<lparr>gs := Exit\<rparr>, sim0) = Some (Inr (s', sim0)) \<and> gs s' \<in> {Exit, Menu}"
proof -
  have "vid_ok (vid (proj_on_screen\<lparr>gs := Exit\<rparr>))"
    using full_screen_ok by (simp add: gfx_ok_def proj_on_screen_def)
  moreover have "gs (proj_on_screen\<lparr>gs := Exit\<rparr>) = Exit" "\<not> game_over (proj_on_screen\<lparr>gs := Exit\<rparr>)"
    "\<not> victory (proj_on_screen\<lparr>gs := Exit\<rparr>)" by (simp_all add: proj_on_screen_def proj_globals_def)
  ultimately obtain v where "state_tick sim_kernel 0 (proj_on_screen\<lparr>gs := Exit\<rparr>, sim0) =
      Some (Inr (proj_on_screen\<lparr>gs := Exit, vid := v, condition := False\<rparr>, sim0))"
    using exit_tick_total [of "proj_on_screen\<lparr>gs := Exit\<rparr>" sim_kernel 0 sim0] by blast
  from this state_transitions [OF this] show ?thesis by auto
qed

lemma exit_clears_condition:
  assumes "gs s = Exit" and "\<not> game_over s" and "\<not> victory s" and "vid_ok (vid s)" and "BitsPerPixel (modeinfo (vid s)) = 24"
    and "0 \<le> mouse_x (mouse (gm s))" and "mouse_x (mouse (gm s)) + uint (width (imgMouse (gm s))) \<le> xres (vid s)"
    and "0 \<le> mouse_y (mouse (gm s))" and "mouse_y (mouse (gm s)) + uint (height (imgMouse (gm s))) \<le> yres (vid s)"
    and "int (length (spriteMouse (gm s))) = 3 * uint (width (imgMouse (gm s))) * uint (height (imgMouse (gm s)))"
    and "interrupts msg AND ucast (irq_set2 s) \<noteq> 0"
  shows "\<exists>s'. timer_part K msg (s, w) = Some (Inr (s', w)) \<and> \<not> condition s'"
proof -
  define ju where "ju = indeterminate K w"
  define t where "t = s\<lparr>tmr := timer_int_handler (tmr s)\<rparr>"
  obtain v2 where tick: "state_tick K ju (t, w) = Some (Inr (t\<lparr>vid := v2, condition := False\<rparr>, w))" and k: "vkeeps (vid s) v2"
    using exit_tick_total [of t K ju w] assms(1-4) by (auto simp: t_def)
  have "\<exists>v3. draw_image ju (spriteMouse (gm s)) (imgMouse (gm s)) (mouse_x (mouse (gm s))) (mouse_y (mouse (gm s))) v2 = Inr v3 \<and> vid_ok v3"
    using draw_image_total [of v2 "mouse_x (mouse (gm s))" "imgMouse (gm s)" "mouse_y (mouse (gm s))" "spriteMouse (gm s)" ju]
      assms(4-10) vkeeps_simps [OF k] by auto
  then obtain v3 where d: "draw_mouse ju (gm s) v2 = Inr v3" "vid_ok v3" by (auto simp: draw_mouse_def)
  have u3: "my_updateVideoMem v3 = Inr (v3\<lparr>video_mem := buffer v3\<rparr>)" using d(2) by (rule update_copies)
  let ?s = "t\<lparr>vid := v3\<lparr>video_mem := buffer v3\<rparr>, condition := False\<rparr>"
  have "timer_part K msg (s, w) = Some (Inr (?s, w))"
    using assms(11) tick d(1) u3
    by (simp add: timer_part_def Let_def on_video_def flip: ju_def t_def) (simp add: t_def)
  then show ?thesis by (intro exI [of _ ?s]) simp
qed

text \<open>In the exit state without a finished game, a timer interrupt ends the program: with the cursor on the screen
  the tick draws without a fault, clears the loop condition, and the loop returns.\<close>

lemma exit_leaves_loop:
  assumes "gs s = Exit" and "\<not> game_over s" and "\<not> victory s" and "vid_ok (vid s)" and "BitsPerPixel (modeinfo (vid s)) = 24"
    and "0 \<le> mouse_x (mouse (gm s))" and "mouse_x (mouse (gm s)) + uint (width (imgMouse (gm s))) \<le> xres (vid s)"
    and "0 \<le> mouse_y (mouse (gm s))" and "mouse_y (mouse (gm s)) + uint (height (imgMouse (gm s))) \<le> yres (vid s)"
    and "int (length (spriteMouse (gm s))) = 3 * uint (width (imgMouse (gm s))) * uint (height (imgMouse (gm s)))"
    and "interrupts msg AND ucast (irq_set2 s) \<noteq> 0"
  shows "\<exists>s'. timer_part K msg (s, w) = Some (Inr (s', w)) \<and> \<not> condition s' \<and> proj_loop K (s', w) = Some (Inr (s', w))"
  using exit_clears_condition [OF assms] by (fastforce simp: proj_loop.simps)

theorem exit_leaves_loop_witness:
  "\<exists>s'. timer_part sim_kernel \<lparr>m_source = HARDWARE, interrupts = 1\<rparr> (proj_on_screen\<lparr>gs := Exit, irq_set2 := 1\<rparr>, sim0) =
     Some (Inr (s', sim0)) \<and> \<not> condition s'"
proof -
  let ?s = "proj_on_screen\<lparr>gs := Exit, irq_set2 := 1\<rparr>"
  have v: "vid ?s = full_screen" "vid_ok full_screen" "xres full_screen = 800" "yres full_screen = 600" "BitsPerPixel (modeinfo full_screen) = 24"
    using full_screen_ok by (auto simp: gfx_ok_def proj_on_screen_def)
  have "\<exists>s'. timer_part sim_kernel \<lparr>m_source = HARDWARE, interrupts = 1\<rparr> (?s, sim0) = Some (Inr (s', sim0)) \<and> \<not> condition s' \<and>
      proj_loop sim_kernel (s', sim0) = Some (Inr (s', sim0))"
    by (rule exit_leaves_loop; (simp only: v)?) (simp_all add: proj_on_screen_def proj_globals_def table_with_def no_image_def)
  then show ?thesis by blast
qed

section \<open>Interrupt masks\<close>

text \<open>When the device initialisation succeeds, the three interrupt masks are the distinct bits of the values passed
  to the kernel, and each driver holds the hook the kernel gave it for its own line.\<close>

lemma irq_masks_distinct:
  assumes "proj_setup_devices K (s, w) = Inr (Inr s', w')"
  shows "irq_set2 s' = 0x01 \<and> irq_set s' = 0x02 \<and> irq_set3 s' = 0x04 \<and> condition s' \<and>
    (\<exists>w1 w2 w3. sys_irqsetpolicy K IRQ1 (IRQ_REENABLE OR IRQ_EXCLUSIVE) 1 w = ((0, hook_id_kbd (kbd s')), w1) \<and>
       sys_irqsetpolicy K TIMER0_IRQ IRQ_REENABLE 0 w1 = ((0, hook_id2 (tmr s')), w2) \<and>
       sys_irqsetpolicy K IRQ12 (IRQ_REENABLE OR IRQ_EXCLUSIVE) 2 w2 = ((0, hook_id_mouse (mdrv s')), w3))"
  using assms
  by (auto simp: proj_setup_devices_def kbd_line.subscribe_call timer_line.subscribe_call mouse_line.subscribe_call
        andthen_eq_Inr OK_def TIMER0_IRQ_def bit_mask_def BIT_def split: prod.splits if_splits)

theorem irq_masks_distinct_witness:
  "\<exists>s' w'. proj_setup_devices pc_kernel (proj_globals, sim0) = Inr (Inr s', w') \<and>
     irq_set s' AND irq_set2 s' = 0 \<and> irq_set s' AND irq_set3 s' = 0 \<and> irq_set2 s' AND irq_set3 s' = 0"
proof -
  obtain s' w' where s: "proj_setup_devices pc_kernel (proj_globals, sim0) = Inr (Inr s', w')"
    using setup_devices_ok [OF pc_kernel_ok(3)] by blast
  with irq_masks_distinct [OF s] show ?thesis by auto
qed

end
