(* ===== verification/Pixmaps.thy ===== *)
theory Pixmaps
  imports Kernel_Env
begin

text \<open>
  \<open>proj/src/pixmap.h\<close>: the XPM arrays of the game.  The twenty-six letters, the heart and the mouse
  cursor are translated row by row; of the nine large pictures (about 2.4 MB of text) only the first
  row, which declares the size, is.  \<open>xpm_well_formed\<close> is the XPM format, and \<open>xpm_loads\<close> what the
  framework's \<open>xpm_load\<close> promises in \<open>xpm.h\<close>: the image it returns has the declared size.
\<close>

section \<open>Letters, heart and cursor\<close>

definition pixmap_a :: "string list" where
  "pixmap_a = [
    ''20 30 2 1 '',
    ''  c #ffffff'',
    ''. c #22B14C'',
    ''....................'',
    ''........   .........'',
    ''........    ........'',
    ''.......     ........'',
    ''.......      .......'',
    ''.......      .......'',
    ''......       .......'',
    ''......       .......'',
    ''......        ......'',
    ''.....         ......'',
    ''.....         ......'',
    ''.....    .     .....'',
    ''.....    ..    .....'',
    ''....     ..    .....'',
    ''....    ...    .....'',
    ''....    ....    ....'',
    ''...     ....    ....'',
    ''...    .....    ....'',
    ''...    .....     ...'',
    ''..               ...'',
    ''..               ...'',
    ''..                ..'',
    ''..                ..'',
    ''.                 ..'',
    ''.    .........    ..'',
    ''.    ..........    .'',
    ''     ..........    .'',
    ''    ...........    .'',
    ''    ............   .'',
    ''.. .............. ..'']"

definition pixmap_b :: "string list" where
  "pixmap_b = [
    ''20 30 2 1 '',
    ''  c #ffffff'',
    ''. c #22B14C'',
    ''.            .......'',
    ''.               ....'',
    ''.                 ..'',
    ''.                 ..'',
    ''.                  .'',
    ''.    ..........     '',
    ''.    ..........     '',
    ''.    ...........    '',
    ''.    ...........    '',
    ''.    ...........    '',
    ''.    ..........     '',
    ''.    ..........     '',
    ''.    .........     .'',
    ''.                  .'',
    ''.                 ..'',
    ''.                 ..'',
    ''.                  .'',
    ''.    .........     .'',
    ''.    ..........     '',
    ''.    ...........    '',
    ''.    ...........    '',
    ''.    ...........    '',
    ''.    ...........    '',
    ''.    ..........     '',
    ''.    ..........     '',
    ''.    ........      .'',
    ''.                  .'',
    ''.                 ..'',
    ''.                ...'',
    ''.             ......'']"

definition pixmap_c :: "string list" where
  "pixmap_c = [
    ''20 30 2 1 '',
    ''  c #ffffff'',
    ''. c #22B14C'',
    ''...........       ..'',
    ''........            '',
    ''.......             '',
    ''......              '',
    ''.....             ..'',
    ''.....     ..........'',
    ''....     ...........'',
    ''....    ............'',
    ''...     ............'',
    ''..     .............'',
    ''..     .............'',
    ''.     ..............'',
    ''.     ..............'',
    ''.    ...............'',
    ''     ...............'',
    ''     ...............'',
    ''.    ...............'',
    ''.    ...............'',
    ''.     ..............'',
    ''..     .............'',
    ''..     .............'',
    ''...     ............'',
    ''...     ............'',
    ''....     ...........'',
    ''....     ...........'',
    ''.....      .........'',
    ''.....              .'',
    ''......              '',
    ''.......             '',
    ''..........        ..'']"

definition pixmap_d :: "string list" where
  "pixmap_d = [
    ''20 30 2 1 '',
    ''  c #ffffff'',
    ''. c #22B14C'',
    ''..       ...........'',
    ''             .......'',
    ''             .......'',
    ''              ......'',
    ''..             .....'',
    ''....    ...     ....'',
    ''....    ...     ....'',
    ''....    ....     ...'',
    ''....    ....     ...'',
    ''....    .....     ..'',
    ''....    .....     ..'',
    ''....    ......     .'',
    ''....    ......     .'',
    ''....    .......    .'',
    ''....    .......    .'',
    ''....    .......    .'',
    ''....    .......    .'',
    ''....    ......     .'',
    ''....    ......     .'',
    ''....    .....     ..'',
    ''....    .....     ..'',
    ''....    ....     ...'',
    ''....    ....     ...'',
    ''....    ...     ....'',
    ''....    ...     ....'',
    ''....    .      .....'',
    ''.              .....'',
    ''              ......'',
    ''             .......'',
    ''..         .........'']"

definition pixmap_e :: "string list" where
  "pixmap_e = [
    ''19 30 2 1 '',
    ''  c #ffffff'',
    ''. c #22B14C'',
    ''                 ..'',
    ''                   '',
    ''                   '',
    ''                   '',
    ''                 ..'',
    ''    ...............'',
    ''    ...............'',
    ''    ...............'',
    ''    ...............'',
    ''    ...............'',
    ''    ...............'',
    ''    ...............'',
    ''    ...............'',
    ''           ........'',
    ''           ........'',
    ''           ........'',
    ''           ........'',
    ''    ...............'',
    ''    ...............'',
    ''    ...............'',
    ''    ...............'',
    ''    ...............'',
    ''    ...............'',
    ''    ...............'',
    ''    ...............'',
    ''    ...............'',
    ''                   '',
    ''                   '',
    ''                   '',
    ''                  .'']"

definition pixmap_f :: "string list" where
  "pixmap_f = [
    ''20 30 2 1 '',
    ''  c #ffffff'',
    ''. c #22B14C'',
    ''.                 ..'',
    ''                   .'',
    ''                    '',
    ''                   .'',
    ''                  ..'',
    ''     ...............'',
    ''     ...............'',
    ''     ...............'',
    ''     ...............'',
    ''     ...............'',
    ''               .....'',
    ''                ....'',
    ''                ....'',
    ''               .....'',
    ''     ...............'',
    ''     ...............'',
    ''     ...............'',
    ''     ...............'',
    ''     ...............'',
    ''     ...............'',
    ''     ...............'',
    ''     ...............'',
    ''     ...............'',
    ''     ...............'',
    ''     ...............'',
    ''     ...............'',
    ''     ...............'',
    ''     ...............'',
    ''.   ................'',
    ''.. .................'']"

definition pixmap_g :: "string list" where
  "pixmap_g = [
    ''20 30 2 1 '',
    ''  c #ffffff'',
    ''. c #22B14C'',
    ''...........      ...'',
    ''........           .'',
    ''.......             '',
    ''......             .'',
    ''......            ..'',
    ''.....     ..........'',
    ''....     ...........'',
    ''...     ............'',
    ''..      ............'',
    ''.      .............'',
    ''.     ..............'',
    ''.    ...............'',
    ''     ...............'',
    ''    ................'',
    ''    ................'',
    ''    ................'',
    ''    .......        .'',
    ''    ......          '',
    ''    ......          '',
    ''    ......          '',
    ''    ...........     '',
    ''    ...........     '',
    ''    ...........     '',
    ''    ...........     '',
    ''     ..........    .'',
    ''      ........     .'',
    ''.                  .'',
    ''.                 ..'',
    ''..               ...'',
    ''....           .....'']"

definition pixmap_h :: "string list" where
  "pixmap_h = [
    ''20 30 2 1 '',
    ''  c #ffffff'',
    ''. c #22B14C'',
    ''....................'',
    ''.    ...........    '',
    ''.    ...........    '',
    ''.    ...........    '',
    ''.    ...........    '',
    ''.    ...........    '',
    ''.    ...........    '',
    ''.    ...........    '',
    ''.    ...........    '',
    ''.    ...........    '',
    ''.    ...........    '',
    ''.    ...........    '',
    ''.    ...........    '',
    ''.                   '',
    ''.                   '',
    ''.                   '',
    ''.                   '',
    ''.    ...........    '',
    ''.    ...........    '',
    ''.    ...........    '',
    ''.    ...........    '',
    ''.    ...........    '',
    ''.    ...........    '',
    ''.    ...........    '',
    ''.    ...........    '',
    ''.    ...........    '',
    ''.    ...........    '',
    ''.    ...........    '',
    ''.    ...........    '',
    ''.. ............... .'']"

definition pixmap_i :: "string list" where
  "pixmap_i = [
    ''20 30 2 1 '',
    ''  c #ffffff'',
    ''. c #22B14C'',
    ''...               ..'',
    ''.                  .'',
    ''.                   '',
    ''.                   '',
    ''...               ..'',
    ''........    ........'',
    ''........    ........'',
    ''........    ........'',
    ''........    ........'',
    ''........    ........'',
    ''........    ........'',
    ''........    ........'',
    ''........    ........'',
    ''........    ........'',
    ''........    ........'',
    ''........    ........'',
    ''........    ........'',
    ''........    ........'',
    ''........    ........'',
    ''........    ........'',
    ''........    ........'',
    ''........    ........'',
    ''........    ........'',
    ''........    ........'',
    ''........    ........'',
    ''........    ........'',
    ''.                  .'',
    ''.                   '',
    ''.                   '',
    ''..                ..'']"

definition pixmap_j :: "string list" where
  "pixmap_j = [
    ''16 30 2 1 '',
    ''  c #ffffff'',
    ''. c #22B14C'',
    ''................'',
    ''............   .'',
    ''............    '',
    ''...........     '',
    ''...........     '',
    ''...........     '',
    ''...........     '',
    ''...........     '',
    ''...........     '',
    ''...........     '',
    ''...........     '',
    ''...........     '',
    ''...........     '',
    ''...........     '',
    ''...........     '',
    ''...........     '',
    ''.. ........     '',
    ''    .......     '',
    ''    .......     '',
    ''    .......     '',
    ''    .......     '',
    ''    .......     '',
    ''    .......     '',
    ''    .......     '',
    ''    .......     '',
    ''      ....     .'',
    ''.              .'',
    ''.             ..'',
    ''..           ...'',
    ''....       .....'']"

definition pixmap_k :: "string list" where
  "pixmap_k = [
    ''20 30 2 1 '',
    ''  c #ffffff'',
    ''. c #22B14C'',
    ''....................'',
    ''    ...........    .'',
    ''    ..........     .'',
    ''    .........      .'',
    ''    ........      ..'',
    ''    ......       ...'',
    ''    .....       ....'',
    ''    ....      ......'',
    ''    ...      .......'',
    ''    ..      ........'',
    ''           .........'',
    ''          ..........'',
    ''        ............'',
    ''       .............'',
    ''      ..............'',
    ''      ..............'',
    ''       .............'',
    ''        ............'',
    ''         ...........'',
    ''           .........'',
    ''    .       ........'',
    ''    ...      .......'',
    ''    ....      ......'',
    ''    .....      .....'',
    ''    ......       ...'',
    ''    .......       ..'',
    ''    .........      .'',
    ''    ..........     .'',
    ''    ...........    .'',
    ''.  .............. ..'']"

definition pixmap_l :: "string list" where
  "pixmap_l = [
    ''20 30 2 1 '',
    ''  c #ffffff'',
    ''. c #22B14C'',
    ''....................'',
    ''.   ................'',
    ''.    ...............'',
    ''.    ...............'',
    ''.    ...............'',
    ''.    ...............'',
    ''.    ...............'',
    ''.    ...............'',
    ''.    ...............'',
    ''.    ...............'',
    ''.    ...............'',
    ''.    ...............'',
    ''.    ...............'',
    ''.    ...............'',
    ''.    ...............'',
    ''.    ...............'',
    ''.    ...............'',
    ''.    ...............'',
    ''.    ...............'',
    ''.    ...............'',
    ''.    ...............'',
    ''.    ...............'',
    ''.    ...............'',
    ''.    ...............'',
    ''.    ...............'',
    ''.    ...............'',
    ''.                  .'',
    ''.                   '',
    ''.                   '',
    ''.                  .'']"

definition pixmap_m :: "string list" where
  "pixmap_m = [
    ''20 30 2 1 '',
    ''  c #ffffff'',
    ''. c #22B14C'',
    ''.    ..........    .'',
    ''      ........      '',
    ''       ......       '',
    ''        ....        '',
    ''        ....        '',
    ''         ..         '',
    ''                    '',
    ''    .               '',
    ''    ..        .     '',
    ''    ...      ..     '',
    ''    ...      ..     '',
    ''    ....    ...     '',
    ''    ....    ...     '',
    ''    .....  ....     '',
    ''    ...........     '',
    ''    ...........     '',
    ''    ...........     '',
    ''    ...........     '',
    ''    ...........     '',
    ''    ...........     '',
    ''    ...........     '',
    ''    ...........     '',
    ''    ...........     '',
    ''    ...........     '',
    ''    ...........     '',
    ''    ...........     '',
    ''    ...........     '',
    ''    ...........     '',
    ''.   ............   .'',
    ''.. .............. ..'']"

definition pixmap_n :: "string list" where
  "pixmap_n = [
    ''20 30 2 1 '',
    ''  c #ffffff'',
    ''. c #22B14C'',
    ''.    ...............'',
    ''      ..........   .'',
    ''      .........    .'',
    ''       ........    .'',
    ''       ........    .'',
    ''        .......    .'',
    ''        .......    .'',
    ''         ......    .'',
    ''         ......    .'',
    ''    .    ......    .'',
    ''    .     .....    .'',
    ''    ..    .....    .'',
    ''    ..     ....    .'',
    ''    ...    ....    .'',
    ''    ...     ...    .'',
    ''    ....    ...    .'',
    ''    ....     ..    .'',
    ''    ....     ..    .'',
    ''    .....     .    .'',
    ''    .....     .    .'',
    ''    ......    .    .'',
    ''    ......         .'',
    ''    .......        .'',
    ''    .......        .'',
    ''    ........       .'',
    ''    ........       .'',
    ''    .........      .'',
    ''    .........      .'',
    ''    .........      .'',
    ''.. ...........     .'']"

definition pixmap_o :: "string list" where
  "pixmap_o = [
    ''20 30 2 1 '',
    ''  c #FFFFFF'',
    ''. c #22B14C'',
    ''.......... .........'',
    ''.......       ......'',
    ''......         .....'',
    ''......         .....'',
    ''.....           ....'',
    ''.....    ..     ....'',
    ''....     ...     ...'',
    ''....    .....    ...'',
    ''...     .....     ..'',
    ''...    .......    ..'',
    ''..     .......     .'',
    ''..    .........    .'',
    ''.     .........     '',
    ''.    ..........     '',
    ''.    ...........    '',
    ''.    ...........    '',
    ''.    ...........    '',
    ''.     .........     '',
    ''.     .........    .'',
    ''..     .......     .'',
    ''..     .......    ..'',
    ''...     .....     ..'',
    ''...     .....    ...'',
    ''....     ...     ...'',
    ''....     ...    ....'',
    ''.....     .     ....'',
    ''.....          .....'',
    ''......         .....'',
    ''.......       ......'',
    ''..........  ........'']"

definition pixmap_p :: "string list" where
  "pixmap_p = [
    ''20 30 2 1 '',
    ''  c #ffffff'',
    ''. c #22B14C'',
    ''.              .....'',
    ''                 ...'',
    ''                  ..'',
    ''                   .'',
    ''                    '',
    ''     ..........     '',
    ''     ...........    '',
    ''     ...........    '',
    ''     ...........    '',
    ''     ...........    '',
    ''     ...........    '',
    ''     ...........    '',
    ''     ...........    '',
    ''     ..........     '',
    ''     .........      '',
    ''                   .'',
    ''                   .'',
    ''                  ..'',
    ''                ....'',
    ''     ...............'',
    ''     ...............'',
    ''     ...............'',
    ''     ...............'',
    ''     ...............'',
    ''     ...............'',
    ''     ...............'',
    ''     ...............'',
    ''     ...............'',
    ''.   ................'',
    ''.. .................'']"

definition pixmap_q :: "string list" where
  "pixmap_q = [
    ''20 30 2 1 '',
    ''  c #ffffff'',
    ''. c #22B14C'',
    ''.............. .....'',
    ''............      ..'',
    ''..........         .'',
    ''.........          .'',
    ''........           .'',
    ''.......      ..     '',
    ''......      ...     '',
    ''....       ....     '',
    ''...      ......     '',
    ''..      .......     '',
    ''.      ........     '',
    ''.     .........     '',
    ''     ..........     '',
    ''     ..........     '',
    ''    ...........     '',
    ''    ...........     '',
    ''    ..... .....    .'',
    ''    ....    ...    .'',
    ''    ....    ..     .'',
    ''    ....           .'',
    ''    ....          ..'',
    ''    .....        ...'',
    ''    .....       ....'',
    ''    ....      ......'',
    ''    ...        .....'',
    ''               .....'',
    ''                   .'',
    ''.        ..        .'',
    ''..      ....       .'',
    ''...   ......      ..'']"

definition pixmap_r :: "string list" where
  "pixmap_r = [
    ''20 30 2 1 '',
    ''  c #ffffff'',
    ''. c #22B14C'',
    ''              ......'',
    ''                 ...'',
    ''                  ..'',
    ''                   .'',
    ''                   .'',
    ''    ...........    .'',
    ''    ...........    .'',
    ''    ...........    .'',
    ''    ...........    .'',
    ''    ..........     .'',
    ''                   .'',
    ''                  ..'',
    ''                 ...'',
    ''                ....'',
    ''    ...     ........'',
    ''    ...     ........'',
    ''    ....     .......'',
    ''    .....    .......'',
    ''    .....     ......'',
    ''    ......     .....'',
    ''    ......     .....'',
    ''    .......     ....'',
    ''    ........    ....'',
    ''    ........     ...'',
    ''    .........     ..'',
    ''    .........     ..'',
    ''    ..........     .'',
    ''    ...........    .'',
    ''    ...........    .'',
    ''.  .............. ..'']"

definition pixmap_s :: "string list" where
  "pixmap_s = [
    ''20 30 2 1 '',
    ''  c #ffffff'',
    ''. c #22B14C'',
    ''.....          .....'',
    ''..                ..'',
    ''.                  .'',
    ''.                  .'',
    ''                    '',
    ''.    ..........     '',
    ''.     ..........    '',
    ''.      ..........  .'',
    ''..     .............'',
    ''...     ............'',
    ''....     ...........'',
    ''.....     ..........'',
    ''.....      .........'',
    ''......      ........'',
    ''.......     ........'',
    ''........     .......'',
    ''.........     ......'',
    ''.........      .....'',
    ''..........      ....'',
    ''...........     ....'',
    ''............     ...'',
    ''.............     ..'',
    ''.............      .'',
    ''.   ..........     .'',
    ''     ..........     '',
    ''.    ..........     '',
    ''.                   '',
    ''.                  .'',
    ''..                 .'',
    ''....             ...'']"

definition pixmap_t :: "string list" where
  "pixmap_t = [
    ''20 30 2 1 '',
    ''  c #ffffff'',
    ''. c #22B14C'',
    ''.                  .'',
    ''                    '',
    ''                    '',
    ''                    '',
    ''                    '',
    ''    ....    ...     '',
    ''.   ....    ....   .'',
    ''.. .....    ..... ..'',
    ''........    ........'',
    ''........    ........'',
    ''........    ........'',
    ''........    ........'',
    ''........    ........'',
    ''........    ........'',
    ''........    ........'',
    ''........    ........'',
    ''........    ........'',
    ''........    ........'',
    ''........    ........'',
    ''........    ........'',
    ''........    ........'',
    ''........    ........'',
    ''........    ........'',
    ''........    ........'',
    ''........    ........'',
    ''........    ........'',
    ''........    ........'',
    ''........    ........'',
    ''........    ........'',
    ''......... ..........'']"

definition pixmap_u :: "string list" where
  "pixmap_u = [
    ''20 30 2 1 '',
    ''  c #ffffff'',
    ''. c #22B14C'',
    ''....................'',
    ''    ............   .'',
    ''    ...........    .'',
    ''    ...........    .'',
    ''    ...........    .'',
    ''    ...........    .'',
    ''    ...........    .'',
    ''    ...........    .'',
    ''    ...........    .'',
    ''    ...........    .'',
    ''    ...........    .'',
    ''    ...........    .'',
    ''    ...........    .'',
    ''    ...........    .'',
    ''    ...........    .'',
    ''    ...........    .'',
    ''    ...........    .'',
    ''    ...........    .'',
    ''    ...........    .'',
    ''    ...........    .'',
    ''    ...........    .'',
    ''    ...........    .'',
    ''    ...........    .'',
    ''    ...........    .'',
    ''    ...........    .'',
    ''     .........     .'',
    ''                   .'',
    ''.                 ..'',
    ''..               ...'',
    ''....           .....'']"

definition pixmap_v :: "string list" where
  "pixmap_v = [
    ''20 30 2 1 '',
    ''  c #ffffff'',
    ''. c #22B14C'',
    ''....................'',
    ''.   ............    '',
    ''.    ...........    '',
    ''.    ...........    '',
    ''.    ...........    '',
    ''.    ...........    '',
    ''.    ...........    '',
    ''.    ...........    '',
    ''.    ...........    '',
    ''.    ..........     '',
    ''.     .........     '',
    ''..    .........    .'',
    ''..    ........     .'',
    ''..     .......    ..'',
    ''...    ......     ..'',
    ''...     .....     ..'',
    ''....    .....    ...'',
    ''....    ....     ...'',
    ''....     ...    ....'',
    ''.....    ..     ....'',
    ''.....     .    .....'',
    ''......    .    .....'',
    ''......         .....'',
    ''......        ......'',
    ''.......       ......'',
    ''.......      .......'',
    ''........     .......'',
    ''........     .......'',
    ''.........   ........'',
    ''.......... .........'']"

definition pixmap_w :: "string list" where
  "pixmap_w = [
    ''20 30 2 1 '',
    ''  c #FFFFFF'',
    ''. c #22B14C'',
    ''....................'',
    ''.   ............   .'',
    ''    ............    '',
    ''    ...........     '',
    ''    ...........     '',
    ''    ...........     '',
    ''    ...........     '',
    ''    ...........     '',
    ''    ...........     '',
    ''    ...........     '',
    ''    .....  ....     '',
    ''    ....    ...     '',
    ''    ....    ...     '',
    ''    ....    ...     '',
    ''    ....    ...     '',
    ''    ....    ...     '',
    ''    ....    ...     '',
    ''    ....    ...     '',
    ''    ....    ...     '',
    ''    ....    ...     '',
    ''    ....    ...     '',
    ''    ....    ...     '',
    ''    ....    ...     '',
    ''    ....    ...     '',
    ''     ...    ...     '',
    ''.    ..      .     .'',
    ''.                  .'',
    ''..                ..'',
    ''..                ..'',
    ''....     ..     ....'']"

definition pixmap_x :: "string list" where
  "pixmap_x = [
    ''20 30 2 1 '',
    ''  c #ffffff'',
    ''. c #22B14C'',
    ''....................'',
    ''.   ............   .'',
    ''     ..........     '',
    ''.    ..........    .'',
    ''.     ........     .'',
    ''..     ......     ..'',
    ''..     ......     ..'',
    ''...     ....     ...'',
    ''....     ...    ....'',
    ''....     ..     ....'',
    ''.....          .....'',
    ''.....          .....'',
    ''......        ......'',
    ''.......      .......'',
    ''.......      .......'',
    ''.......      .......'',
    ''.......      .......'',
    ''......        ......'',
    ''......        ......'',
    ''.....          .....'',
    ''....     ..     ....'',
    ''....     ..     ....'',
    ''...     ....     ...'',
    ''..     ......    ...'',
    ''..     ......     ..'',
    ''.     ........     .'',
    ''.     ........     .'',
    ''     ..........     '',
    ''.   ............   .'',
    ''.. .............. ..'']"

definition pixmap_y :: "string list" where
  "pixmap_y = [
    ''20 30 2 1 '',
    ''  c #ffffff'',
    ''. c #22B14C'',
    ''....................'',
    ''.   ............    '',
    ''.    ...........    '',
    ''.    ...........    '',
    ''.    ...........    '',
    ''.    ...........    '',
    ''.     .........     '',
    ''..     .......     .'',
    ''..      .....     ..'',
    ''...      ...      ..'',
    ''....     ..      ...'',
    ''.....           ....'',
    ''......         .....'',
    ''......        ......'',
    ''.......       ......'',
    ''........     .......'',
    ''........     .......'',
    ''........     .......'',
    ''........     .......'',
    ''........     .......'',
    ''........     .......'',
    ''........     .......'',
    ''........     .......'',
    ''........     .......'',
    ''........     .......'',
    ''........     .......'',
    ''........     .......'',
    ''........     .......'',
    ''.........   ........'',
    ''.......... .........'']"

definition pixmap_z :: "string list" where
  "pixmap_z = [
    ''20 30 2 1 '',
    ''  c #ffffff'',
    ''. c #22B14C'',
    ''...                .'',
    ''.                   '',
    ''                    '',
    ''.                   '',
    ''..                 .'',
    ''.............     ..'',
    ''.............     ..'',
    ''............     ...'',
    ''............    ....'',
    ''...........     ....'',
    ''..........     .....'',
    ''..........     .....'',
    ''.........     ......'',
    ''.........    .......'',
    ''........     .......'',
    ''.......     ........'',
    ''.......     ........'',
    ''......     .........'',
    ''......    ..........'',
    ''.....     ..........'',
    ''....     ...........'',
    ''....     ...........'',
    ''...     ............'',
    ''..     .............'',
    ''..     .............'',
    ''.     ..............'',
    ''.                  .'',
    ''                    '',
    ''                   .'',
    ''.                 ..'']"

definition pixmap_mouse_cursor :: "string list" where
  "pixmap_mouse_cursor = [
    ''50 42 45 1 '',
    ''  c #22B14C'',
    ''. c #B97A57'',
    ''X c #00A2E8'',
    ''o c #0BA6E9'',
    ''O c #0EA7E9'',
    ''+ c #1DADEB'',
    ''@ c #25AFEB'',
    ''# c #27B0EC'',
    ''$ c #36B6ED'',
    ''% c #38B6ED'',
    ''& c #3AB7ED'',
    ''* c #41BAEE'',
    ''= c #43BAEE'',
    ''- c #45BBEE'',
    ''; c #4ABDEF'',
    '': c #4EBEEF'',
    ''> c #4FBFEF'',
    '', c #50BFEF'',
    ''< c #51C0EF'',
    ''1 c #52C0EF'',
    ''2 c #53C0EF'',
    ''3 c #54C1F0'',
    ''4 c #58C2F0'',
    ''5 c #59C2F0'',
    ''6 c #5AC3F0'',
    ''7 c #5BC3F0'',
    ''8 c #5EC4F0'',
    ''9 c #61C5F1'',
    ''0 c #64C6F1'',
    ''q c #66C7F1'',
    ''w c #67C8F1'',
    ''e c #69C8F1'',
    ''r c #6AC9F2'',
    ''t c #6CC9F2'',
    ''y c #73CCF2'',
    ''u c #75CDF3'',
    ''i c #76CDF3'',
    ''p c #79CEF3'',
    ''a c #7ED0F3'',
    ''s c #86D3F4'',
    ''d c #8ED6F5'',
    ''f c #94D8F5'',
    ''g c #9DDBF6'',
    ''h c #A4DEF7'',
    ''j c #B1E3F8'',
    ''XXXXXXXXXXXXX+OoX-aXXXXXXXXXXXXXXXXXX             '',
    ''XXXXXXXXXXXX;7=%X>9XXXX-aXXXXXXXXXXXX             '',
    ''XsyXXeuXXXXXe02:X20XXXX>9X#$XXXXXXXXXX            '',
    ''Xt6w,28XXXXXiX><X=7XXXX20X5qXXXXXXXXX             '',
    ''X*<3%,q5XXXXXXXXXXXXXXX=7Xe82XXXXXXXX             '',
    ''XXXX@X$#..XXXXXXXXXXXXXXXXXueXXXXXXX              '',
    ''XO=2>XX.....XXXXX XXXXXXXXXXXXXXXX                '',
    ''X+709........X                                    '',
    ''XXXXX.........                                    '',
    ''XXXXX..........                                   '',
    ''XXXX.............                                 '',
    ''XXXXX.............                                '',
    ''XXXXX..............                               '',
    ''XprXXX..............                              '',
    ''X14t&XX..............                             '',
    ''XX,>#XX ..............                            '',
    ''XXXXXXX  ...............                          '',
    ''XXX5#XX   ...............                         '',
    ''Xu8q$XX    ...............                        '',
    ''Xe2,XXX     ...............                       '',
    ''XX#$XXX      ...............                      '',
    ''XX5qXXXX      ................                    '',
    ''XXe82XXX       ................                   '',
    ''XXXueXXX         ..............                   '',
    ''XXX2eXXX          ..............                  '',
    ''X$q8f#XX           ..............                 '',
    ''X#5et>XX             ............                 '',
    ''XXXjg,XX              ............                '',
    ''XXXhdt&X               ............               '',
    ''XXXX,>#                 ............              '',
    ''XXXXXXX                  ............             '',
    ''XXXXXX                    ............            '',
    ''XXXXXX                     ............           '',
    ''XXXXX                       ............          '',
    ''  X                          ............         '',
    ''                              ............        '',
    ''                               ............       '',
    ''                                ...........       '',
    ''                                 ...........      '',
    ''                                  .........       '',
    ''                                   ........       '',
    ''                                     .....        '']"

definition pixmap_heart :: "string list" where
  "pixmap_heart = [
    ''30 22 2 1 '',
    ''  c #22B14C'',
    ''. c #ED1C24'',
    ''      ....         ....       '',
    ''    ........     ........     '',
    ''   ..........   ..........    '',
    ''  ............ ............   '',
    ''  .........................   '',
    '' ...........................  '',
    '' ...........................  '',
    '' ...........................  '',
    '' ...........................  '',
    '' ...........................  '',
    ''  .........................   '',
    ''  .........................   '',
    ''   .......................    '',
    ''   .......................    '',
    ''    .....................     '',
    ''     ...................      '',
    ''      .................       '',
    ''       ...............        '',
    ''        .............         '',
    ''         ...........          '',
    ''           .......            '',
    ''             ...              '']"

section \<open>Sizes of the pictures\<close>

definition header_cardback :: string where "header_cardback = ''75 109 255 2 ''"
definition header_deck :: string where "header_deck = ''950 392 63 1 ''"
definition header_gameName :: string where "header_gameName = ''264 200 3 1 ''"
definition header_victory :: string where "header_victory = ''700 500 2 1 ''"
definition header_game_over :: string where "header_game_over = ''422 182 3 1 ''"
definition header_instructions :: string where "header_instructions = ''799 599 76 1 ''"
definition header_moon :: string where "header_moon = ''200 200 2 1 ''"
definition header_sun :: string where "header_sun = ''200 200 46 1 ''"
definition header_background :: string where "header_background = ''799 599 236 2 ''"

definition letters :: "(xpm_map \<times> string list) list" where
  "letters = [(''a'', pixmap_a), (''b'', pixmap_b), (''c'', pixmap_c), (''d'', pixmap_d),
    (''e'', pixmap_e), (''f'', pixmap_f), (''g'', pixmap_g), (''h'', pixmap_h),
    (''i'', pixmap_i), (''j'', pixmap_j), (''k'', pixmap_k), (''l'', pixmap_l),
    (''m'', pixmap_m), (''n'', pixmap_n), (''o'', pixmap_o), (''p'', pixmap_p),
    (''q'', pixmap_q), (''r'', pixmap_r), (''s'', pixmap_s), (''t'', pixmap_t),
    (''u'', pixmap_u), (''v'', pixmap_v), (''w'', pixmap_w), (''x'', pixmap_x),
    (''y'', pixmap_y), (''z'', pixmap_z)]"

definition pixmap_headers :: "(xpm_map \<times> string) list" where
  "pixmap_headers = map (\<lambda>(m, rows). (m, hd rows)) letters @
     [(''mouse_cursor'', hd pixmap_mouse_cursor), (''heart'', hd pixmap_heart),
      (''cardback'', header_cardback),
      (''deck'', header_deck),
      (''gameName'', header_gameName),
      (''victory'', header_victory),
      (''game_over'', header_game_over),
      (''instructions'', header_instructions),
      (''moon'', header_moon),
      (''sun'', header_sun),
      (''background'', header_background)]"

section \<open>The format\<close>

text \<open>The first row of an XPM array: width, height, number of colours, characters per pixel.\<close>

fun xpm_fields :: "string \<Rightarrow> string \<Rightarrow> string list" where
  "xpm_fields acc [] = (if acc = [] then [] else [rev acc])"
| "xpm_fields acc (c # cs) =
     (if c = CHR '' '' then (if acc = [] then xpm_fields [] cs else rev acc # xpm_fields [] cs)
      else xpm_fields (c # acc) cs)"

definition decimal :: "string \<Rightarrow> nat" where
  "decimal s = fold (\<lambda>c n. 10 * n + (of_char c - 48)) s 0"

definition xpm_values :: "string \<Rightarrow> nat list" where
  "xpm_values s = map decimal (xpm_fields [] s)"

text \<open>The characters of a row, pixel by pixel.\<close>

fun chunks :: "nat \<Rightarrow> 'a list \<Rightarrow> 'a list list" where
  "chunks n xs = (if n = 0 \<or> xs = [] then [] else take n xs # chunks n (drop n xs))"

declare chunks.simps [simp del]

text \<open>A colour row: the key, \<open>c #\<close> and six hexadecimal digits.\<close>

definition xpm_color :: "nat \<Rightarrow> string \<Rightarrow> bool" where
  "xpm_color cpp r \<longleftrightarrow> take 4 (drop cpp r) = '' c #'' \<and> length r = cpp + 10 \<and>
     list_all (\<lambda>c. c \<in> set ''0123456789ABCDEFabcdef'') (drop (cpp + 4) r)"

text \<open>
  As many colour rows as declared, with distinct keys, then as many pixel rows as declared, each as
  long as declared and made of declared keys.
\<close>

definition xpm_well_formed :: "string list \<Rightarrow> bool" where
  "xpm_well_formed rows \<longleftrightarrow>
     (case map xpm_values (take 1 rows) of
        [[w, h, nc, cpp]] \<Rightarrow>
          let colors = take nc (tl rows); pixels = drop nc (tl rows); keys = map (take cpp) colors in
          0 < cpp \<and> length colors = nc \<and> list_all (xpm_color cpp) colors \<and> distinct keys \<and> length pixels = h \<and>
          list_all (\<lambda>r. length r = w * cpp \<and> list_all (\<lambda>c. c \<in> set keys) (chunks cpp r)) pixels
      | _ \<Rightarrow> False)"

definition header_size :: "string \<Rightarrow> (nat \<times> nat) option" where
  "header_size s = (case xpm_values s of [w, h, _, _] \<Rightarrow> Some (w, h) | _ \<Rightarrow> None)"

definition pixmap_size :: "xpm_map \<Rightarrow> (nat \<times> nat) option" where
  "pixmap_size m = Option.bind (map_of pixmap_headers m) header_size"

text \<open>\<open>xpm.h\<close>: the image has the declared width and height and \<open>width * height * bytes_per_pixel\<close> bytes.\<close>

definition loaded_as :: "u8 list \<Rightarrow> xpm_image \<Rightarrow> nat \<Rightarrow> nat \<Rightarrow> bool" where
  "loaded_as bytes img w h \<longleftrightarrow> width img = of_nat w \<and> height img = of_nat h \<and> length bytes = 3 * w * h"

definition xpm_loads :: "'w kernel \<Rightarrow> bool" where
  "xpm_loads K \<longleftrightarrow> (\<forall>m a b w. pixmap_size m = Some (a, b) \<longrightarrow>
     (case xpm_load K m XPM_8_8_8 w of ((bytes, img), _) \<Rightarrow> loaded_as bytes img a b))"

text \<open>The table of sizes, evaluated.\<close>

lemma pixmap_headers_eval:
  "pixmap_headers = [(''a'', ''20 30 2 1 ''), (''b'', ''20 30 2 1 ''), (''c'', ''20 30 2 1 ''),
    (''d'', ''20 30 2 1 ''), (''e'', ''19 30 2 1 ''), (''f'', ''20 30 2 1 ''),
    (''g'', ''20 30 2 1 ''), (''h'', ''20 30 2 1 ''), (''i'', ''20 30 2 1 ''),
    (''j'', ''16 30 2 1 ''), (''k'', ''20 30 2 1 ''), (''l'', ''20 30 2 1 ''),
    (''m'', ''20 30 2 1 ''), (''n'', ''20 30 2 1 ''), (''o'', ''20 30 2 1 ''),
    (''p'', ''20 30 2 1 ''), (''q'', ''20 30 2 1 ''), (''r'', ''20 30 2 1 ''),
    (''s'', ''20 30 2 1 ''), (''t'', ''20 30 2 1 ''), (''u'', ''20 30 2 1 ''),
    (''v'', ''20 30 2 1 ''), (''w'', ''20 30 2 1 ''), (''x'', ''20 30 2 1 ''),
    (''y'', ''20 30 2 1 ''), (''z'', ''20 30 2 1 ''), (''mouse_cursor'', ''50 42 45 1 ''),
    (''heart'', ''30 22 2 1 ''), (''cardback'', ''75 109 255 2 ''), (''deck'', ''950 392 63 1 ''),
    (''gameName'', ''264 200 3 1 ''), (''victory'', ''700 500 2 1 ''), (''game_over'', ''422 182 3 1 ''),
    (''instructions'', ''799 599 76 1 ''), (''moon'', ''200 200 2 1 ''), (''sun'', ''200 200 46 1 ''),
    (''background'', ''799 599 236 2 '')]"
  by (simp add: pixmap_headers_def letters_def pixmap_mouse_cursor_def pixmap_heart_def header_cardback_def
      header_deck_def header_gameName_def header_victory_def header_game_over_def header_instructions_def
      header_moon_def header_sun_def header_background_def
      pixmap_a_def pixmap_b_def pixmap_c_def pixmap_d_def pixmap_e_def pixmap_f_def pixmap_g_def
      pixmap_h_def pixmap_i_def pixmap_j_def pixmap_k_def pixmap_l_def pixmap_m_def pixmap_n_def
      pixmap_o_def pixmap_p_def pixmap_q_def pixmap_r_def pixmap_s_def pixmap_t_def pixmap_u_def
      pixmap_v_def pixmap_w_def pixmap_x_def pixmap_y_def pixmap_z_def)

lemma header_size_values:
  "header_size ''16 30 2 1 '' = Some (16, 30)"
  "header_size ''19 30 2 1 '' = Some (19, 30)"
  "header_size ''20 30 2 1 '' = Some (20, 30)"
  "header_size ''200 200 2 1 '' = Some (200, 200)"
  "header_size ''200 200 46 1 '' = Some (200, 200)"
  "header_size ''264 200 3 1 '' = Some (264, 200)"
  "header_size ''30 22 2 1 '' = Some (30, 22)"
  "header_size ''422 182 3 1 '' = Some (422, 182)"
  "header_size ''50 42 45 1 '' = Some (50, 42)"
  "header_size ''700 500 2 1 '' = Some (700, 500)"
  "header_size ''75 109 255 2 '' = Some (75, 109)"
  "header_size ''799 599 236 2 '' = Some (799, 599)"
  "header_size ''799 599 76 1 '' = Some (799, 599)"
  "header_size ''950 392 63 1 '' = Some (950, 392)"
  by code_simp+

lemma pixmap_size_eval:
  "pixmap_size m = (case map_of pixmap_headers m of None \<Rightarrow> None | Some h \<Rightarrow> header_size h)"
  by (simp add: pixmap_size_def split: option.split)

section \<open>The arrays are well formed\<close>

lemma letters_a_to_e: "list_all (\<lambda>(m, rows). xpm_well_formed rows) (take 5 letters)"
  by code_simp

lemma letters_f_to_j: "list_all (\<lambda>(m, rows). xpm_well_formed rows) (take 5 (drop 5 letters))"
  by code_simp

lemma letters_k_to_o: "list_all (\<lambda>(m, rows). xpm_well_formed rows) (take 5 (drop 10 letters))"
  by code_simp

lemma letters_p_to_t: "list_all (\<lambda>(m, rows). xpm_well_formed rows) (take 5 (drop 15 letters))"
  by code_simp

lemma letters_u_to_z: "list_all (\<lambda>(m, rows). xpm_well_formed rows) (take 6 (drop 20 letters))"
  by code_simp

lemma letters_well_formed: "list_all (\<lambda>(m, rows). xpm_well_formed rows) letters"
proof -
  have "letters = take 5 letters @ take 5 (drop 5 letters) @ take 5 (drop 10 letters) @ take 5 (drop 15 letters) @
      take 6 (drop 20 letters)"
    by (simp add: letters_def)
  then show ?thesis
    using letters_a_to_e letters_f_to_j letters_k_to_o letters_p_to_t letters_u_to_z by (metis list_all_append)
qed

lemma cursor_well_formed: "xpm_well_formed pixmap_mouse_cursor"
  by code_simp

lemma heart_well_formed: "xpm_well_formed pixmap_heart"
  by code_simp

lemma letter_sizes:
  "list_all (\<lambda>(m, rows). header_size (hd rows) \<in> {Some (16, 30), Some (19, 30), Some (20, 30)}) letters"
  by code_simp

lemma header_sizes:
  "header_size (hd pixmap_mouse_cursor) = Some (50, 42)" "header_size (hd pixmap_heart) = Some (30, 22)"
  by code_simp+

text \<open>The letters, the heart and the cursor of \<open>pixmap.h\<close> are well-formed XPM arrays: the declared number of colours
  with distinct keys, the declared number of rows, every row of the declared length and made of declared colours.
  Every letter is 30 rows high and at most \<open>LETTER_WIDTH\<close> columns wide, the heart is 30 by 22 and the cursor 50 by 42.\<close>

lemma pixmaps_well_formed:
  "list_all (\<lambda>(m, rows). xpm_well_formed rows \<and> header_size (hd rows) \<in> {Some (16, 30), Some (19, 30), Some (20, 30)}) letters \<and>
   xpm_well_formed pixmap_mouse_cursor \<and> header_size (hd pixmap_mouse_cursor) = Some (50, 42) \<and>
   xpm_well_formed pixmap_heart \<and> header_size (hd pixmap_heart) = Some (30, 22)"
  using letters_well_formed letter_sizes cursor_well_formed heart_well_formed header_sizes by (fastforce simp: list_all_iff)

end
