(* ===== verification/Screens.thy ===== *)
theory Screens
  imports Proj_Props Pixmaps
begin

text \<open>
  The screens of the game on a display of 800 by 600 pixels with the images of \<open>pixmap.h\<close>: what the
  words of the menus put on the screen, that no tick of the menu, the pause, the instructions and the
  exit screen faults, and that the table at rest shows every card at its place.
\<close>

section \<open>Images of a known size\<close>

definition screen_ok :: "video \<Rightarrow> bool" where
  "screen_ok v \<longleftrightarrow> vid_ok v \<and> svga (modeinfo v)"

lemma screen_okD:
  "screen_ok v \<Longrightarrow> vid_ok v \<and> BitsPerPixel (modeinfo v) = 24 \<and> xres v = 800 \<and> yres v = 600"
  by (simp add: screen_ok_def svga_def xres_def yres_def)

lemma vkeeps_screen: "vkeeps v v' \<Longrightarrow> screen_ok v' = screen_ok v"
  using vkeeps_simps(1,2) by (simp add: screen_ok_def)

lemma loaded_asD:
  assumes "loaded_as bs img w h" and "w < 65536" and "h < 65536"
  shows "uint (width img) = int w \<and> uint (height img) = int h \<and> int (length bs) = 3 * int w * int h"
  using assms by (simp add: loaded_as_def uint_nat unat_of_nat)

lemma image_total:
  assumes "screen_ok v" and "loaded_as bs img w h" and "0 \<le> sx" and "sx + int w \<le> 800" and "0 \<le> sy" and "sy + int h \<le> 600"
  shows "\<exists>v'. draw_image ju bs img sx sy v = Inr v' \<and> screen_ok v' \<and> vkeeps v v' \<and>
    (\<forall>x y. on_screen_px v x y \<longrightarrow> pixel v' x y =
      (if sx \<le> x \<and> x < sx + int w \<and> sy \<le> y \<and> y < sy + int h
       then take 3 (drop (nat (3 * ((y - sy) * int w + (x - sx)))) bs) else pixel v x y))"
proof -
  have l: "uint (width img) = int w" "uint (height img) = int h" "int (length bs) = 3 * int w * int h"
    using loaded_asD [OF assms(2)] assms(3-6) by auto
  obtain v' where v': "draw_image ju bs img sx sy v = Inr v'"
    and p: "\<forall>x y. on_screen_px v x y \<longrightarrow> pixel v' x y =
      (if sx \<le> x \<and> x < sx + int w \<and> sy \<le> y \<and> y < sy + int h
       then take 3 (drop (nat (3 * ((y - sy) * int w + (x - sx)))) bs) else pixel v x y)"
    using draw_image_total [of v sx img sy bs ju] screen_okD [OF assms(1)] assms(3-6) l by (auto simp: l)
  have "vkeeps v v'" using v' by (rule draw_image_vkeeps)
  with v' p assms(1) show ?thesis using vkeeps_screen by blast
qed

section \<open>Words\<close>

text \<open>The images \<open>xpm_load\<close> returns for the letters of a word, loaded one after the other.\<close>

primrec load_word :: "'w kernel \<Rightarrow> xpm_map list \<Rightarrow> 'w \<Rightarrow> (u8 list \<times> xpm_image) list \<times> 'w" where
  "load_word K [] w = ([], w)"
| "load_word K (l # ls) w = (case xpm_load K l XPM_8_8_8 w of (im, w1) \<Rightarrow>
     case load_word K ls w1 of (ims, w2) \<Rightarrow> (im # ims, w2))"

text \<open>
  The text a word is on the screen: cell \<open>k\<close> is 25 columns wide and holds letter \<open>k\<close> at its left.
\<close>

definition text_pixel :: "(u8 list \<times> xpm_image) list \<Rightarrow> int \<Rightarrow> int \<Rightarrow> int \<Rightarrow> int \<Rightarrow> u8 list option" where
  "text_pixel ims x0 y0 x y =
     (let k = nat ((x - x0) div 25); c = (x - x0) mod 25 in
      if x0 \<le> x \<and> k < length ims \<and> c < uint (width (snd (ims ! k))) \<and> y0 \<le> y \<and> y < y0 + uint (height (snd (ims ! k)))
      then Some (take 3 (drop (nat (3 * ((y - y0) * uint (width (snd (ims ! k))) + c))) (fst (ims ! k))))
      else None)"

definition letter_map :: "xpm_map \<Rightarrow> bool" where
  "letter_map m \<longleftrightarrow> pixmap_size m \<in> {Some (16, 30), Some (19, 30), Some (20, 30)}"

lemma xpm_loadsD:
  assumes "xpm_loads K" and "pixmap_size m = Some (a, b)" and "xpm_load K m XPM_8_8_8 w = ((bs, img), w')"
  shows "loaded_as bs img a b"
proof -
  from assms(1,2) have "case xpm_load K m XPM_8_8_8 w of ((bs, img), _) \<Rightarrow> loaded_as bs img a b"
    by (simp add: xpm_loads_def)
  with assms(3) show ?thesis by simp
qed

lemma letter_mapE:
  assumes "letter_map m" and "xpm_loads K" and "xpm_load K m XPM_8_8_8 w = ((bs, img), w')"
  obtains a where "a \<le> 20" "loaded_as bs img a 30"
proof -
  from assms(1) obtain a where "pixmap_size m = Some (a, 30)" "a \<le> 20" by (auto simp: letter_map_def)
  with that xpm_loadsD [OF assms(2) _ assms(3)] show thesis by blast
qed

lemma text_pixel_Cons:
  assumes "0 \<le> uint (width img)" "uint (width img) \<le> 25"
  shows "text_pixel ((bs, img) # ims) x0 y0 x y =
    (if x0 \<le> x \<and> x < x0 + uint (width img) \<and> y0 \<le> y \<and> y < y0 + uint (height img)
     then Some (take 3 (drop (nat (3 * ((y - y0) * uint (width img) + (x - x0)))) bs))
     else text_pixel ims (x0 + 25) y0 x y)"
proof -
  consider "x < x0" | "x0 \<le> x" "x < x0 + 25" | "x0 + 25 \<le> x" by linarith
  then show ?thesis
  proof cases
    case 1
    then show ?thesis by (simp add: text_pixel_def Let_def)
  next
    case 2
    then have "(x - x0) div 25 = 0" "(x - x0) mod 25 = x - x0" by auto
    with 2 show ?thesis by (simp add: text_pixel_def Let_def)
  next
    case 3
    have "(x - x0) div 25 = (x - (x0 + 25)) div 25 + 1" "(x - x0) mod 25 = (x - (x0 + 25)) mod 25"
      using div_add_self1 [of 25 "x - (x0 + 25)"] mod_add_self1 [of 25 "x - (x0 + 25)"] by (simp_all add: algebra_simps)
    moreover have "0 \<le> (x - (x0 + 25)) div 25" using 3 by simp
    ultimately have "nat ((x - x0) div 25) = Suc (nat ((x - (x0 + 25)) div 25))" "(x - x0) mod 25 = (x - (x0 + 25)) mod 25"
      by (simp_all only: nat_add_distrib) simp_all
    moreover have "x0 \<le> x" "\<not> x < x0 + uint (width img)" using 3 assms by linarith+
    ultimately show ?thesis using 3 unfolding text_pixel_def Let_def by (simp only: nth_Cons_Suc length_Cons Suc_less_eq simp_thms if_False)
  qed
qed

lemma text_pixel_right: "x < x0 \<Longrightarrow> text_pixel ims x0 y0 x y = None"
  by (simp add: text_pixel_def Let_def)

lemma draw_word_paints:
  assumes "xpm_loads K" and "list_all letter_map ls" and "screen_ok v"
    and "0 \<le> x0" and "x0 + 25 * int (length ls) \<le> 805" and "0 \<le> y0" and "y0 + 30 \<le> 600"
  shows "\<exists>v'. draw_word K ju x0 y0 ls (v, w) = Inr (v', snd (load_word K ls w)) \<and> screen_ok v' \<and> vkeeps v v' \<and>
    (\<forall>x y. on_screen_px v x y \<longrightarrow> pixel v' x y =
      (case text_pixel (fst (load_word K ls w)) x0 y0 x y of Some p \<Rightarrow> p | None \<Rightarrow> pixel v x y))"
  using assms(2-5)
proof (induction ls arbitrary: x0 v w)
  case Nil
  then show ?case by (auto simp: text_pixel_def)
next
  case (Cons l ls)
  obtain bs img w1 where ld: "xpm_load K l XPM_8_8_8 w = ((bs, img), w1)" by (metis prod.exhaust)
  obtain ims w2 where ims: "load_word K ls w1 = (ims, w2)" by fastforce
  obtain a where a: "a \<le> 20" "loaded_as bs img a 30"
    using letter_mapE [OF _ assms(1) ld] Cons.prems(1) by auto
  have sz: "uint (width img) = int a" "uint (height img) = 30" using loaded_asD [OF a(2)] a(1) by auto
  obtain v1 where v1: "draw_image ju bs img x0 y0 v = Inr v1" "screen_ok v1" "vkeeps v v1"
    and p1: "\<forall>x y. on_screen_px v x y \<longrightarrow> pixel v1 x y =
      (if x0 \<le> x \<and> x < x0 + int a \<and> y0 \<le> y \<and> y < y0 + 30
       then take 3 (drop (nat (3 * ((y - y0) * int a + (x - x0)))) bs) else pixel v x y)"
    using image_total [OF Cons.prems(2) a(2), of x0 y0 ju] Cons.prems(3,4) a(1) assms(6,7) by auto
  have step: "draw_word K ju x0 y0 (l # ls) (v, w) = draw_word K ju (x0 + 25) y0 ls (v1, w1)"
    by (simp add: draw_letter_def ld v1(1) LETTER_WIDTH_def)
  obtain v' where v': "draw_word K ju (x0 + 25) y0 ls (v1, w1) = Inr (v', w2)" "screen_ok v'" "vkeeps v1 v'"
    and p: "\<forall>x y. on_screen_px v1 x y \<longrightarrow> pixel v' x y =
      (case text_pixel ims (x0 + 25) y0 x y of Some p \<Rightarrow> p | None \<Rightarrow> pixel v1 x y)"
    using Cons.IH [of v1 "x0 + 25" w1] Cons.prems v1(2) by (auto simp: ims)
  have "pixel v' x y = (case text_pixel ((bs, img) # ims) x0 y0 x y of Some p \<Rightarrow> p | None \<Rightarrow> pixel v x y)"
    if "on_screen_px v x y" for x y
  proof -
    have on: "on_screen_px v1 x y" using that vkeeps_simps(3,4) [OF v1(3)] by (simp add: on_screen_px_def)
    have "pixel v' x y = (case text_pixel ims (x0 + 25) y0 x y of Some p \<Rightarrow> p | None \<Rightarrow>
        (if x0 \<le> x \<and> x < x0 + int a \<and> y0 \<le> y \<and> y < y0 + 30
         then take 3 (drop (nat (3 * ((y - y0) * int a + (x - x0)))) bs) else pixel v x y))"
      by (simp only: p [rule_format, OF on] p1 [rule_format, OF that])
    moreover have "text_pixel ims (x0 + 25) y0 x y = None" if "x < x0 + int a"
      using text_pixel_right [of x "x0 + 25" ims y0 y] that a(1) by simp
    ultimately show ?thesis
      using a(1) by (auto simp: text_pixel_Cons sz split: option.splits)
  qed
  with step v' v1(3) show ?case by (auto simp: ld ims intro: vkeeps_trans)
qed

text \<open>The names the menus use are letters of \<open>pixmap.h\<close>.\<close>

lemma words_are_letters:
  "list_all letter_map wordPlay" "list_all letter_map wordResume" "list_all letter_map wordInstructions"
  "list_all letter_map wordExit"
  by (simp_all add: letter_map_def wordPlay_def wordResume_def wordInstructions_def wordExit_def
      pixmap_size_eval pixmap_headers_eval header_size_values)

section \<open>The screens\<close>

text \<open>The images of the game have the sizes their arrays declare.\<close>

definition sprites_ok :: "(u8 list \<times> xpm_image) list \<Rightarrow> bool" where
  "sprites_ok ims \<longleftrightarrow> list_all2 (\<lambda>(bs, img) (w, h). loaded_as bs img w h) ims
     [(264, 200), (50, 42), (30, 22), (700, 500), (422, 182), (799, 599), (200, 200), (200, 200), (799, 599)]"

lemma sprites_okD:
  assumes "sprites_ok (images g)"
  shows "loaded_as (spriteGameName g) (imgGameName g) 264 200" "loaded_as (spriteMouse g) (imgMouse g) 50 42"
    "loaded_as (spriteHeart g) (imgHeart g) 30 22" "loaded_as (spriteVictory g) (imgVictory g) 700 500"
    "loaded_as (spriteGameOver g) (imgGameOver g) 422 182" "loaded_as (spriteInstructions g) (imgInstructions g) 799 599"
    "loaded_as (spriteMoon g) (imgMoon g) 200 200" "loaded_as (spriteSun g) (imgSun g) 200 200"
    "loaded_as (spriteBackground g) (imgBackground g) 799 599"
  using assms by (simp_all add: sprites_ok_def images_def)

lemma picture_sizes:
  "pixmap_size ''gameName'' = Some (264, 200)" "pixmap_size ''mouse_cursor'' = Some (50, 42)"
  "pixmap_size ''heart'' = Some (30, 22)" "pixmap_size ''victory'' = Some (700, 500)"
  "pixmap_size ''game_over'' = Some (422, 182)" "pixmap_size ''instructions'' = Some (799, 599)"
  "pixmap_size ''moon'' = Some (200, 200)" "pixmap_size ''sun'' = Some (200, 200)"
  "pixmap_size ''background'' = Some (799, 599)"
  by (simp_all add: pixmap_size_eval pixmap_headers_eval header_size_values)

lemma load_sprites_ok:
  assumes "xpm_loads K" and "load_sprites K g v w = (g', v', w')"
  shows "sprites_ok (images g')"
  using assms(2) xpm_loadsD [OF assms(1)] picture_sizes
  by (auto simp: load_sprites_def sprites_ok_def images_def split: prod.splits)

lemma draw_menu_total:
  assumes "xpm_loads K" and "screen_ok v" and "sprites_ok (images g)"
  shows "\<exists>v' w'. draw_menu K ju g (v, w) = Inr (v', w') \<and> screen_ok v'"
    and "\<exists>v' w'. draw_pause K ju g (v, w) = Inr (v', w') \<and> screen_ok v'"
proof -
  obtain v1 where v1: "draw_image ju (spriteGameName g) (imgGameName g) 268 50 v = Inr v1" "screen_ok v1"
    using image_total [OF assms(2) sprites_okD(1) [OF assms(3)], of 268 50 ju] by auto
  have x: "xres v1 = 800" using screen_okD [OF v1(2)] by simp
  note word = draw_word_paints [OF assms(1)] and names = words_are_letters
  have n: "length wordPlay = 4" "length wordResume = 6" "length wordInstructions = 12" "length wordExit = 4"
    by (simp_all add: wordPlay_def wordResume_def wordInstructions_def wordExit_def)
  show "\<exists>v' w'. draw_menu K ju g (v, w) = Inr (v', w') \<and> screen_ok v'"
  proof -
    obtain v2 w2 where v2: "draw_word K ju 350 300 wordPlay (v1, w) = Inr (v2, w2)" "screen_ok v2"
      using word [OF names(1) v1(2), of 350 300 ju w] n by auto
    obtain v3 w3 where v3: "draw_word K ju 250 400 wordInstructions (v2, w2) = Inr (v3, w3)" "screen_ok v3"
      using word [OF names(3) v2(2), of 250 400 ju w2] n by auto
    obtain v4 w4 where v4: "draw_word K ju 350 500 wordExit (v3, w3) = Inr (v4, w4)" "screen_ok v4"
      using word [OF names(4) v3(2), of 350 500 ju w3] n by auto
    show ?thesis using v1(1) v2(1) v3(1) v4 x by (simp add: draw_menu_def LETTER_WIDTH_def)
  qed
  show "\<exists>v' w'. draw_pause K ju g (v, w) = Inr (v', w') \<and> screen_ok v'"
  proof -
    obtain v2 w2 where v2: "draw_word K ju 325 300 wordResume (v1, w) = Inr (v2, w2)" "screen_ok v2"
      using word [OF names(2) v1(2), of 325 300 ju w] n by auto
    obtain v3 w3 where v3: "draw_word K ju 250 400 wordInstructions (v2, w2) = Inr (v3, w3)" "screen_ok v3"
      using word [OF names(3) v2(2), of 250 400 ju w2] n by auto
    obtain v4 w4 where v4: "draw_word K ju 350 500 wordExit (v3, w3) = Inr (v4, w4)" "screen_ok v4"
      using word [OF names(4) v3(2), of 350 500 ju w3] n by auto
    show ?thesis using v1(1) v2(1) v3(1) v4 x by (simp add: draw_pause_def LETTER_WIDTH_def)
  qed
qed

text \<open>A drawing step that succeeds on every good screen.\<close>

definition always_draws :: "(video \<Rightarrow> video result) \<Rightarrow> bool" where
  "always_draws f \<longleftrightarrow> (\<forall>v. screen_ok v \<longrightarrow> (\<exists>v'. f v = Inr v' \<and> screen_ok v'))"

lemma on_video_total:
  assumes "always_draws f" and "screen_ok (vid s)"
  obtains v where "on_video f s = Inr (s\<lparr>vid := v\<rparr>)" "screen_ok v"
  using assms by (auto simp: always_draws_def on_video_def)

lemma draws_image:
  assumes "loaded_as bs img w h" and "0 \<le> sx" and "sx + int w \<le> 800" and "0 \<le> sy" and "sy + int h \<le> 600"
  shows "always_draws (draw_image ju bs img sx sy)"
  using image_total [OF _ assms] by (fastforce simp: always_draws_def)

lemma draws_green: "always_draws green_screen"
  unfolding always_draws_def
proof safe
  fix v assume s: "screen_ok v"
  then obtain v' where "greenScreen v = Inr (0, v')" using green_screen_total screen_okD by blast
  then have v': "green_screen v = Inr v'" by (simp add: green_screen_def)
  with green_vkeeps(1) [OF this] s vkeeps_screen show "\<exists>v'. green_screen v = Inr v' \<and> screen_ok v'" by blast
qed

lemma draws_update: "always_draws my_updateVideoMem"
  unfolding always_draws_def using update_copies update_vkeeps vkeeps_screen screen_okD by (metis)

lemma draws_sprites:
  assumes "sprites_ok (images g)"
  shows "always_draws (drawSun ju g)" "always_draws (drawMoon ju g)" "always_draws (drawInstructions ju g)" "always_draws (draw_victory ju g)"
    "always_draws (draw_game_over ju g)"
proof -
  note im = sprites_okD [OF assms]
  show "always_draws (drawSun ju g)" "always_draws (drawMoon ju g)" "always_draws (drawInstructions ju g)"
    using draws_image [OF im(8), of 0 10 ju] draws_image [OF im(7), of 600 10 ju] draws_image [OF im(6), of 0 0 ju]
    by (simp_all add: always_draws_def drawSun_def drawMoon_def drawInstructions_def)
  show "always_draws (draw_victory ju g)" "always_draws (draw_game_over ju g)"
    using draws_image [OF im(4), of 50 50 ju] draws_image [OF im(5), of 189 209 ju] loaded_asD [OF im(4)] loaded_asD [OF im(5)]
    by (simp_all add: always_draws_def draw_victory_def draw_game_over_def screen_okD)
qed


lemma menu_tick_total:
  assumes "xpm_loads K" and "screen_ok (vid s)" and "sprites_ok (images (gm s))"
  shows "\<exists>s' w'. menu_tick K ju (s, w) = Inr (s', w')"
proof -
  obtain v1 where 1: "on_video green_screen s = Inr (s\<lparr>vid := v1\<rparr>)" "screen_ok v1"
    using on_video_total [OF draws_green assms(2)] .
  let ?sky = "if daytime (clk s) then drawSun ju (gm s) else drawMoon ju (gm s)"
  have "always_draws ?sky" using draws_sprites [OF assms(3)] by simp
  then obtain v2 where 2: "on_video ?sky (s\<lparr>vid := v1\<rparr>) = Inr (s\<lparr>vid := v2\<rparr>)" "screen_ok v2"
    using on_video_total [of ?sky "s\<lparr>vid := v1\<rparr>"] 1(2) by auto
  obtain v3 w3 where 3: "draw_menu K ju (gm s) (v2, w) = Inr (v3, w3)" "screen_ok v3"
    using draw_menu_total(1) [OF assms(1) 2(2) assms(3)] by blast
  obtain v4 where 4: "on_video my_updateVideoMem (s\<lparr>vid := v3\<rparr>) = Inr (s\<lparr>vid := v4\<rparr>)"
    using on_video_total [OF draws_update, of "s\<lparr>vid := v3\<rparr>"] 3(2) by auto
  show ?thesis using 1(1) 2(1) 3(1) 4 by (cases "daytime (clk s)") (simp_all add: menu_tick_def on_screen_def)
qed

lemma pause_tick_total:
  assumes "xpm_loads K" and "screen_ok (vid s)" and "sprites_ok (images (gm s))"
  shows "\<exists>s' w'. pause_tick K ju (s, w) = Inr (s', w')"
proof -
  obtain v1 where 1: "on_video green_screen s = Inr (s\<lparr>vid := v1\<rparr>)" "screen_ok v1"
    using on_video_total [OF draws_green assms(2)] .
  obtain v2 w2 where 2: "draw_pause K ju (gm s) (v1, w) = Inr (v2, w2)"
    using draw_menu_total(2) [OF assms(1) 1(2) assms(3)] by blast
  show ?thesis using 1(1) 2 by (simp add: pause_tick_def on_screen_def)
qed

lemma instructions_tick_total:
  assumes "screen_ok (vid s)" and "sprites_ok (images (gm s))"
  shows "\<exists>s'. instructions_tick ju s = Inr s'"
proof -
  obtain v1 where 1: "on_video green_screen s = Inr (s\<lparr>vid := v1\<rparr>)" "screen_ok v1"
    using on_video_total [OF draws_green assms(1)] .
  obtain v2 where "on_video (drawInstructions ju (gm s)) (s\<lparr>vid := v1\<rparr>) = Inr (s\<lparr>vid := v2\<rparr>)"
    using on_video_total [OF draws_sprites(3) [OF assms(2)], of "s\<lparr>vid := v1\<rparr>"] 1(2) by auto
  with 1(1) show ?thesis by (simp add: instructions_tick_def)
qed

lemma restart_total:
  assumes "rand_ok K" and "rand_fair K" and "length (cardArray (gm s)) = 16"
  obtains s' w' where "restart K (s, w) = Some (Inr (s', w'))" "vid s' = vid s"
proof (cases "tmr_tck_counter (tmr s) mod 240 = 0")
  case True
  obtain cs w1 where "initialize_game_cards K (cardArray (gm s)) w = Some (Inr (cs, w1))"
    using deal_total [OF assms] by blast
  with True that show ?thesis by (simp add: restart_def Let_def)
next
  case False
  with that show ?thesis by (simp add: restart_def)
qed

lemma ending_total:
  assumes "always_draws f" and "rand_ok K" and "rand_fair K" and "length (cardArray (gm s)) = 16" and "screen_ok (vid s)"
  shows "\<exists>s' w'. run_then (Some (on_video f s)) (\<lambda>s2. restart K (s2, w)) = Some (Inr (s', w')) \<and> screen_ok (vid s')"
proof -
  obtain v where 1: "on_video f s = Inr (s\<lparr>vid := v\<rparr>)" "screen_ok v"
    using on_video_total [OF assms(1,5)] .
  obtain s' w' where "restart K (s\<lparr>vid := v\<rparr>, w) = Some (Inr (s', w'))" "vid s' = v"
    using restart_total [OF assms(2,3), of "s\<lparr>vid := v\<rparr>" w] assms(4) by auto
  with 1 show ?thesis by simp
qed

lemma exit_tick_returns:
  assumes "rand_ok K" and "rand_fair K" and "length (cardArray (gm s)) = 16" and "screen_ok (vid s)"
    and "sprites_ok (images (gm s))"
  shows "\<exists>s' w'. exit_tick K ju (s, w) = Some (Inr (s', w'))"
proof -
  obtain v1 where 1: "on_video green_screen s = Inr (s\<lparr>vid := v1\<rparr>)" "screen_ok v1"
    using on_video_total [OF draws_green assms(4)] .
  let ?s1 = "s\<lparr>vid := v1\<rparr>"
  let ?mid = "if game_over ?s1 then run_then (Some (on_video (draw_game_over ju (gm ?s1)) ?s1)) (\<lambda>s2. restart K (s2, w))
    else if victory ?s1 then run_then (Some (on_video (draw_victory ju (gm ?s1)) ?s1)) (\<lambda>s2. restart K (s2, w))
    else Some (Inr (?s1\<lparr>condition := False\<rparr>, w))"
  have len: "length (cardArray (gm ?s1)) = 16" and ok: "screen_ok (vid ?s1)" using assms(3) 1(2) by simp_all
  have im: "sprites_ok (images (gm ?s1))" using assms(5) by simp
  have "\<exists>s3 w3. ?mid = Some (Inr (s3, w3)) \<and> screen_ok (vid s3)"
    using ending_total [OF draws_sprites(5) [OF im] assms(1,2) len ok, of ju w]
      ending_total [OF draws_sprites(4) [OF im] assms(1,2) len ok, of ju w] ok
    by (cases "game_over ?s1"; cases "victory ?s1") (simp_all only: if_True if_False, simp)
  then obtain s3 w3 where 3: "?mid = Some (Inr (s3, w3))" "screen_ok (vid s3)" by blast
  obtain v4 where 4: "on_video my_updateVideoMem s3 = Inr (s3\<lparr>vid := v4\<rparr>)"
    using on_video_total [OF draws_update 3(2)] .
  have "exit_tick K ju (s, w) = run_then ?mid (\<lambda>(s3, w3).
      run_then (Some (on_video my_updateVideoMem s3)) (\<lambda>s4. Some (Inr (s4, w3))))"
    by (simp add: exit_tick_def 1(1))
  then show ?thesis unfolding 3(1) by (simp add: 4)
qed

section \<open>Properties\<close>

text \<open>C9: A word of the menus is drawn exactly, whatever was on the screen: the call returns, letter \<open>k\<close> stands at the left of
  the \<open>k\<close>-th cell of \<open>LETTER_WIDTH + 5\<close> columns with the bytes \<open>xpm_load\<close> returned for it, the letters do not overlap, and no other pixel changes.\<close>

lemma words_drawn_exactly:
  assumes "xpm_loads K" and "ls \<in> {wordPlay, wordResume, wordInstructions, wordExit}" and "screen_ok v"
    and "0 \<le> x0" and "x0 + (LETTER_WIDTH + 5) * int (length ls) - 5 \<le> xres v" and "0 \<le> y0" and "y0 + 30 \<le> yres v"
  shows "\<exists>v'. draw_word K ju x0 y0 ls (v, w) = Inr (v', snd (load_word K ls w)) \<and>
    (\<forall>x y. on_screen_px v x y \<longrightarrow> pixel v' x y =
      (case text_pixel (fst (load_word K ls w)) x0 y0 x y of Some p \<Rightarrow> p | None \<Rightarrow> pixel v x y))"
proof -
  have "list_all letter_map ls" using assms(2) words_are_letters by auto
  with draw_word_paints [OF assms(1) _ assms(3,4), of ls y0 ju w] assms(5-7) screen_okD [OF assms(3)]
  show ?thesis by (auto simp: LETTER_WIDTH_def)
qed

lemma quiet_tick_total:
  assumes K: "rand_ok K" "rand_fair K" "xpm_loads K" and "svga mi" and "sprites_ok im" and inv: "table_inv mi im s" and "gs s \<noteq> In_Game"
  shows "\<exists>s' w'. state_tick K ju (s, w) = Some (Inr (s', w'))"
proof -
  have t: "screen_ok (vid s)" "sprites_ok (images (gm s))" "length (cardArray (gm s)) = 16" "gs s \<notin> {HighScores, Wait}"
    using inv assms(4,5) eight_pairs_length by (auto simp: table_inv_def screen_ok_def)
  show ?thesis
    using menu_tick_total [OF K(3) t(1,2), of ju w] pause_tick_total [OF K(3) t(1,2), of ju w]
      instructions_tick_total [OF t(1,2), of ju] exit_tick_returns [OF K(1,2) t(3,1,2), of ju w] assms(7) t(4)
    by (cases "gs s") (auto simp: state_tick_def)
qed

lemma quiet_timer_part_total:
  assumes K: "rand_ok K" "rand_fair K" "xpm_loads K" and mi: "svga mi" and im: "sprites_ok im" and inv: "table_inv mi im s" and "gs s \<noteq> In_Game"
    and c: "mouse_x (mouse (gm s)) + 50 \<le> 800" "mouse_y (mouse (gm s)) + 42 \<le> 600"
  shows "\<exists>s' w'. timer_part K msg (s, w) = Some (Inr (s', w'))"
proof -
  define ju t where "ju = indeterminate K w" and "t = s\<lparr>tmr := timer_int_handler (tmr s)\<rparr>"
  have it: "table_inv mi im t" "gs t \<noteq> In_Game" "mouse (gm t) = mouse (gm s)" using inv assms(7) by (simp_all add: t_def table_inv_def pointer_ok_def)
  obtain s1 w1 where 1: "state_tick K ju (t, w) = Some (Inr (s1, w1))" using quiet_tick_total [OF K mi im it(1,2)] by blast
  have i1: "table_inv mi im s1" using state_tick_keeps [OF K(1,2) it(1) 1] by blast
  have m: "mouse (gm s1) = mouse (gm s)" using state_tick_mouse [OF 1] it(3) by simp
  have v1: "screen_ok (vid s1)" and l: "loaded_as (spriteMouse (gm s1)) (imgMouse (gm s1)) 50 42"
    using i1 mi im sprites_okD(2) [of "gm s1"] by (auto simp: table_inv_def screen_ok_def)
  have "0 \<le> mouse_x (mouse (gm s))" "0 \<le> mouse_y (mouse (gm s))" using inv by (simp_all add: table_inv_def pointer_ok_def)
  then obtain v2 where 2: "draw_mouse ju (gm s1) (vid s1) = Inr v2" "screen_ok v2"
    using image_total [OF v1 l, of "mouse_x (mouse (gm s))" "mouse_y (mouse (gm s))" ju] c m by (auto simp: draw_mouse_def)
  have "my_updateVideoMem v2 = Inr (v2\<lparr>video_mem := buffer v2\<rparr>)" using 2(2) screen_okD update_copies by blast
  then show ?thesis using 1 2(1) by (simp add: timer_part_def Let_def on_video_def flip: ju_def t_def)
qed

text \<open>C8: With the images of \<open>pixmap.h\<close> on an 800 by 600 display, the menu, the pause screen, the instructions and the exit
  screen never fault: in every state the running program can reach outside the game itself, the code of the screen runs to
  its end at a timer tick; and with the 50 by 42 pixels of the cursor on the display, so does the whole timer part of the
  loop, which draws the cursor on top and copies the buffer.\<close>

lemma quiet_screens_never_fault:
  assumes "rand_ok K" and "rand_fair K" and "machine_ok K mi" and "svga mi" and "xpm_loads K"
    and "length (cardArray (gm s0)) = 16" and "length (otherSide (gm s0)) = 16"
  shows "\<exists>st1 s2 w2. proj_setup_game K (s0, w0) = Some (Inr st1) \<and> proj_setup_devices K st1 = Inr (Inr s2, w2) \<and>
    (\<forall>s w. (proj_step K)\<^sup>*\<^sup>* (s2, w2) (s, w) \<and> gs s \<noteq> In_Game \<longrightarrow>
      (\<forall>ju. \<exists>s' w'. state_tick K ju (s, w) = Some (Inr (s', w'))) \<and>
      (\<forall>msg. mouse_x (mouse (gm s)) + 50 \<le> 800 \<and> mouse_y (mouse (gm s)) + 42 \<le> 600 \<longrightarrow>
        (\<exists>s' w'. timer_part K msg (s, w) = Some (Inr (s', w')))))"
proof -
  obtain st1 s2 w2 where 1: "proj_setup_game K (s0, w0) = Some (Inr st1)" "proj_setup_devices K st1 = Inr (Inr s2, w2)"
    and ld: "fresh_game K (gm s2)"
    and inv: "\<And>s w. (proj_step K)\<^sup>*\<^sup>* (s2, w2) (s, w) \<Longrightarrow> table_inv mi (images (gm s2)) s"
    using program_runs [OF assms(1-4,6,7)] by blast
  have im: "sprites_ok (images (gm s2))" using ld load_sprites_ok [OF assms(5)] by (auto simp: fresh_game_def)
  show ?thesis
    using 1 quiet_tick_total [OF assms(1,2,5,4) im inv] quiet_timer_part_total [OF assms(1,2,5,4) im inv] by blast
qed

text \<open>A machine whose loader returns black images of the declared sizes.\<close>

definition pixmap_kernel :: "sim kernel" where
  "pixmap_kernel = pc_kernel\<lparr>xpm_load := (\<lambda>m t w. (case pixmap_size m of
      Some (a, b) \<Rightarrow> (replicate (3 * a * b) 0, \<lparr>width = of_nat a, height = of_nat b\<rparr>)
    | None \<Rightarrow> ([], no_image), w))\<rparr>"

lemma pixmap_kernel_ok: "rand_ok pixmap_kernel" "rand_fair pixmap_kernel" "machine_ok pixmap_kernel svga_info" "xpm_loads pixmap_kernel"
proof -
  show "rand_ok pixmap_kernel" "rand_fair pixmap_kernel"
    using pc_kernel_ok(1,2) rand_cong [of pixmap_kernel pc_kernel] by (simp_all add: pixmap_kernel_def)
  show "machine_ok pixmap_kernel svga_info" using pc_kernel_ok(3) by (simp add: machine_ok_def pixmap_kernel_def)
  show "xpm_loads pixmap_kernel" by (simp add: xpm_loads_def pixmap_kernel_def loaded_as_def)
qed

lemma proj_globals_tables: "length (cardArray (gm proj_globals)) = 16" "length (otherSide (gm proj_globals)) = 16"
  by (simp_all add: proj_globals_def table_with_def)

theorem quiet_screens_never_fault_witness:
  "\<exists>st1 s2 w2 s' w'. proj_setup_game pixmap_kernel (proj_globals, sim0) = Some (Inr st1) \<and>
     proj_setup_devices pixmap_kernel st1 = Inr (Inr s2, w2) \<and> timer_part pixmap_kernel \<lparr>m_source = HARDWARE, interrupts = 1\<rparr> (s2, w2) = Some (Inr (s', w'))"
proof -
  obtain st1 s2 w2 where 1: "proj_setup_game pixmap_kernel (proj_globals, sim0) = Some (Inr st1)"
    "proj_setup_devices pixmap_kernel st1 = Inr (Inr s2, w2)"
    and t: "\<forall>s w. (proj_step pixmap_kernel)\<^sup>*\<^sup>* (s2, w2) (s, w) \<and> gs s \<noteq> In_Game \<longrightarrow>
      (\<forall>ju. \<exists>s' w'. state_tick pixmap_kernel ju (s, w) = Some (Inr (s', w'))) \<and>
      (\<forall>msg. mouse_x (mouse (gm s)) + 50 \<le> 800 \<and> mouse_y (mouse (gm s)) + 42 \<le> 600 \<longrightarrow>
        (\<exists>s' w'. timer_part pixmap_kernel msg (s, w) = Some (Inr (s', w'))))"
    using quiet_screens_never_fault [OF pixmap_kernel_ok(1,2,3) pc_kernel_ok(4) pixmap_kernel_ok(4) proj_globals_tables, of sim0] by blast
  obtain s1 w1 where s1: "st1 = (s1, w1)" "gs s1 = Menu" "mouse (gm s1) = \<lparr>mouse_x = 0, mouse_y = 0\<rparr>"
    using setup_game_ok [OF pixmap_kernel_ok(1,2) proj_globals_tables(1), of sim0] 1(1) by auto
  then have "gs s2 = Menu" "gm s2 = gm s1" using 1(2) setup_devices_ok [OF pixmap_kernel_ok(3), of s1 w1] by auto
  then have "gs s2 \<noteq> In_Game" "mouse_x (mouse (gm s2)) + 50 \<le> 800" "mouse_y (mouse (gm s2)) + 42 \<le> 600" using s1(3) by simp_all
  with t 1 show ?thesis by blast
qed

theorem words_drawn_exactly_witness:
  "\<exists>v'. draw_word pixmap_kernel 0 350 300 wordPlay (full_screen, sim0) = Inr (v', snd (load_word pixmap_kernel wordPlay sim0))"
proof -
  have ok: "screen_ok full_screen"
    using full_screen_ok by (simp add: screen_ok_def gfx_ok_def) (simp add: svga_def full_screen_def card_screen_def tiny_screen_def)
  show ?thesis
    using words_drawn_exactly [OF pixmap_kernel_ok(4) _ ok, of wordPlay 350 300 0 sim0] screen_okD [OF ok]
    by (auto simp: LETTER_WIDTH_def wordPlay_def)
qed

section \<open>The table\<close>

text \<open>
  What one card shows at \<open>(x, y)\<close>: its face (69 by 93, from the sheet of the deck) or its back (75 by 109), at the
  place of its number in the grid of four by four; \<open>None\<close> outside it.
\<close>

definition card_pixel :: "game \<Rightarrow> video \<Rightarrow> nat \<Rightarrow> int \<Rightarrow> int \<Rightarrow> u8 list option" where
  "card_pixel g v k x y =
     (let (sx, sy) = getCardsScreenXY (int k mod 4) (int k div 4) v; c = cardArray g ! k in
      if isFlipped c then
        (if sx \<le> x \<and> x < sx + 75 \<and> sy \<le> y \<and> y < sy + 109
         then Some (take 3 (drop (nat (3 * ((y - sy) * 75 + (x - sx)))) (spriteCardBack v))) else None)
      else
        (if sx \<le> x \<and> x < sx + CARD_WIDTH \<and> sy \<le> y \<and> y < sy + CARD_HEIGHT
         then Some (take 3 (drop (nat (3 * ((99 * card_y c + (y - sy)) * 950 + 73 * card_x c + (x - sx)))) (spriteDeck v)))
         else None))"

lemma gfx_screen: "gfx_ok v \<Longrightarrow> screen_ok v"
  by (auto simp: gfx_ok_def screen_ok_def svga_def xres_def yres_def word_uint_eq_iff)

lemma card_place:
  assumes "gfx_ok v"
  shows "getCardsScreenXY (int k mod 4) (int k div 4) v = (202 + 99 * (int k mod 4), 74 + 113 * (int k div 4))"
  using assms by (auto simp: getCardsScreenXY_def gfx_ok_def Let_def card_consts)

text \<open>The cards do not overlap.\<close>

lemma card_pixel_place:
  assumes "gfx_ok v" and "card_pixel g v k x y = Some q"
  shows "(x - 202) div 99 = int k mod 4 \<and> (y - 74) div 113 = int k div 4"
proof -
  have "202 + 99 * (int k mod 4) \<le> x \<and> x < 202 + 99 * (int k mod 4) + 75 \<and>
      74 + 113 * (int k div 4) \<le> y \<and> y < 74 + 113 * (int k div 4) + 109"
    using assms(2) by (auto simp: card_pixel_def card_place [OF assms(1)] card_consts Let_def split: if_splits)
  then show ?thesis by (auto intro!: cell_index)
qed

lemma card_pixel_unique:
  assumes "gfx_ok v" and "card_pixel g v k x y = Some q" and "card_pixel g v k' x y = Some q'"
  shows "k = k'"
proof -
  have "int k mod 4 = int k' mod 4" "int k div 4 = int k' div 4"
    using card_pixel_place [OF assms(1,2)] card_pixel_place [OF assms(1,3)] by auto
  then have "int k = int k'" by (metis div_mult_mod_eq)
  then show ?thesis by simp
qed

lemma card_pixel_vkeeps:
  assumes "vkeeps v v'"
  shows "card_pixel g v' = card_pixel g v"
proof -
  obtain b m where "v' = v\<lparr>buffer := b, video_mem := m\<rparr>" using assms by (auto simp: vkeeps_def)
  then have "getCardsScreenXY a c v' = getCardsScreenXY a c v" "spriteDeck v' = spriteDeck v" "spriteCardBack v' = spriteCardBack v" for a c
    by (simp_all add: getCardsScreenXY_def xres_def yres_def)
  then show ?thesis by (intro ext) (simp only: card_pixel_def)
qed

lemma card_drawn:
  assumes "gfx_ok v" and "faces_ok (cardArray g)" and "length (cardArray g) = 16" and "k < 16" and "\<not> flipping g k"
  shows "\<exists>v'. draw_one_card ju k (202 + 99 * (int k mod 4)) (74 + 113 * (int k div 4)) (g, v) = Inr (g, v') \<and> vkeeps v v' \<and>
    (\<forall>x y. on_screen_px v x y \<longrightarrow> pixel v' x y = (case card_pixel g v k x y of Some q \<Rightarrow> q | None \<Rightarrow> pixel v x y))"
proof -
  let ?c = "cardArray g ! k"
  let ?sx = "202 + 99 * (int k mod 4)" and ?sy = "74 + 113 * (int k div 4)"
  have v: "vid_ok v" "BitsPerPixel (modeinfo v) = 24" "xres v = 800" "yres v = 600" using assms(1) by (auto simp: gfx_ok_def)
  have b: "0 \<le> int k mod 4" "int k mod 4 \<le> 3" "0 \<le> int k div 4" "int k div 4 \<le> 3" using assms(4) by auto
  show ?thesis
  proof (cases "isFlipped ?c")
    case True
    have "loaded_as (spriteCardBack v) (imgCardBack v) 75 109" using assms(1) by (simp add: gfx_ok_def loaded_as_def)
    from image_total [OF gfx_screen [OF assms(1)] this, of ?sx ?sy ju] b obtain v' where
      v': "draw_image ju (spriteCardBack v) (imgCardBack v) ?sx ?sy v = Inr v'" "vkeeps v v'"
      "\<forall>x y. on_screen_px v x y \<longrightarrow> pixel v' x y =
        (if ?sx \<le> x \<and> x < ?sx + 75 \<and> ?sy \<le> y \<and> y < ?sy + 109
         then take 3 (drop (nat (3 * ((y - ?sy) * 75 + (x - ?sx)))) (spriteCardBack v)) else pixel v x y)"
      by auto
    then have "draw_one_card ju k ?sx ?sy (g, v) = Inr (g, v')"
      using True assms(5) by (simp add: draw_one_card_def vg_draw_card_def flipping_def)
    with v'(2,3) True show ?thesis by (auto simp: card_pixel_def card_place [OF assms(1)] Let_def)
  next
    case False
    have f: "0 \<le> card_x ?c" "card_x ?c < 13" "0 \<le> card_y ?c" "card_y ?c < 4"
      using assms(2-4) by (auto simp: faces_ok_def)
    obtain v' where v': "vg_draw_card ju ?sx ?sy (card_x ?c) (card_y ?c) v = Inr v'"
      "\<forall>x y. on_screen_px v x y \<longrightarrow> pixel v' x y =
        (if ?sx \<le> x \<and> x < ?sx + CARD_WIDTH \<and> ?sy \<le> y \<and> y < ?sy + CARD_HEIGHT
         then take 3 (drop (nat (3 * ((99 * card_y ?c + (y - ?sy)) * 950 + 73 * card_x ?c + (x - ?sx)))) (spriteDeck v))
         else pixel v x y)"
      using card_face_paints [OF v(1,2) _ _ f, of ?sx ?sy ju] assms(1) b v(3,4) by (auto simp: gfx_ok_def card_consts)
    have "draw_one_card ju k ?sx ?sy (g, v) = Inr (g, v')"
      using False assms(5) v'(1) by (simp add: draw_one_card_def flipping_def)
    with v'(2) vg_draw_card_vkeeps [OF v'(1)] False show ?thesis
      by (auto simp: card_pixel_def card_place [OF assms(1)] Let_def)
  qed
qed

text \<open>The screen after the first \<open>k\<close> cards.\<close>

definition shows_cards :: "game \<Rightarrow> video \<Rightarrow> nat \<Rightarrow> video \<Rightarrow> bool" where
  "shows_cards g v0 k v \<longleftrightarrow> vkeeps v0 v \<and> (\<forall>x y. on_screen_px v0 x y \<longrightarrow>
     (\<forall>j<k. \<forall>q. card_pixel g v0 j x y = Some q \<longrightarrow> pixel v x y = q) \<and>
     ((\<forall>j<k. card_pixel g v0 j x y = None) \<longrightarrow> pixel v x y = pixel v0 x y))"

lemma shows_one_more:
  assumes "gfx_ok v0" and "faces_ok (cardArray g)" and "length (cardArray g) = 16" and "k < 16" and "\<not> flipping g k"
    and s: "shows_cards g v0 k v"
  shows "\<exists>v'. draw_one_card ju k (202 + 99 * (int k mod 4)) (74 + 113 * (int k div 4)) (g, v) = Inr (g, v') \<and> shows_cards g v0 (Suc k) v'"
proof -
  have k: "vkeeps v0 v" using s by (simp add: shows_cards_def)
  then have "gfx_ok v" using assms(1) vkeeps_simps(5) by blast
  from card_drawn [OF this assms(2-5), of ju] obtain v' where
    v': "draw_one_card ju k (202 + 99 * (int k mod 4)) (74 + 113 * (int k div 4)) (g, v) = Inr (g, v')" "vkeeps v v'"
    and p: "\<And>x y. on_screen_px v0 x y \<Longrightarrow> pixel v' x y = (case card_pixel g v0 k x y of Some q \<Rightarrow> q | None \<Rightarrow> pixel v x y)"
    using vkeeps_simps(3,4) [OF k] by (auto simp: card_pixel_vkeeps [OF k] on_screen_px_def)
  have "(\<forall>j<Suc k. \<forall>q. card_pixel g v0 j x y = Some q \<longrightarrow> pixel v' x y = q) \<and>
     ((\<forall>j<Suc k. card_pixel g v0 j x y = None) \<longrightarrow> pixel v' x y = pixel v0 x y)" if o: "on_screen_px v0 x y" for x y
  proof (cases "card_pixel g v0 k x y")
    case None
    then show ?thesis using p [OF o] s o by (auto simp: shows_cards_def less_Suc_eq)
  next
    case (Some q)
    have "j = k" if "card_pixel g v0 j x y = Some q'" for j q' using card_pixel_unique [OF assms(1) that Some] .
    then show ?thesis using p [OF o] Some by (metis lessI option.distinct(1) option.inject option.simps(5))
  qed
  then have "shows_cards g v0 (Suc k) v'" using vkeeps_trans [OF k v'(2)] by (simp add: shows_cards_def)
  with v'(1) show ?thesis by blast
qed

lemma next_place:
  fixes k :: nat
  shows "(if (int k + 1) mod 4 = 0 then (202, 74 + 113 * (int k div 4) + 113) else (202 + 99 * (int k mod 4) + 99, 74 + 113 * (int k div 4))) =
    (202 + 99 * (int (Suc k) mod 4), 74 + 113 * (int (Suc k) div 4))"
proof -
  have d: "(int k + 1) div 4 = int k div 4 + (if (int k + 1) mod 4 = 0 then 1 else 0)"
    by (rule div_step) simp
  have e: "int (Suc k) = int k + 1" by simp
  show ?thesis
  proof (cases "(int k + 1) mod 4 = 0")
    case True
    then show ?thesis using d unfolding e by simp
  next
    case False
    with d have q: "(int k + 1) div 4 = int k div 4" by simp
    moreover have "(int k + 1) mod 4 = int k mod 4 + 1"
      unfolding q minus_mult_div_eq_mod [of _ 4, symmetric] by simp
    ultimately show ?thesis using False unfolding e by simp
  qed
qed

lemma draw_cards_step:
  assumes "draw_one_card ju i sx sy st = Inr (g, v1)" and "xres v1 = 800" and "yres v1 = 600" and "card_startX v1 = 202"
    and "(if (n + 1) mod 4 = 0 then (202, sy + 113) else (sx + 99, sy)) = (sx', sy')"
  shows "draw_cards_from ju (i # is) n sx sy st =
    (if sx' + 89 > 800 \<or> sy' + 103 > 600 then Inr (g, v1) else draw_cards_from ju is (n + 1) sx' sy' (g, v1))"
  using assms by (auto simp: card_consts Let_def split: if_splits)

text \<open>The loop over the cards, whatever the drawing of one card does: all sixteen places are visited.\<close>

lemma cards_loop:
  assumes step: "\<And>k st. k < 16 \<Longrightarrow> P k st \<Longrightarrow>
      \<exists>st'. draw_one_card ju k (202 + 99 * (int k mod 4)) (74 + 113 * (int k div 4)) st = Inr st' \<and> P (Suc k) st'"
    and size: "\<And>k st. P k st \<Longrightarrow> xres (snd st) = 800 \<and> yres (snd st) = 600"
    and "k \<le> 16" and "P k st"
  shows "\<exists>st'. draw_cards_from ju [k..<16] (int k) (202 + 99 * (int k mod 4)) (74 + 113 * (int k div 4)) st = Inr st' \<and> P 16 st'"
  using assms(3,4)
proof (induction "16 - k" arbitrary: k st)
  case 0
  then show ?case by simp
next
  case (Suc m)
  then have k: "k < 16" by simp
  obtain g1 v1 where v1: "draw_one_card ju k (202 + 99 * (int k mod 4)) (74 + 113 * (int k div 4)) st = Inr (g1, v1)" "P (Suc k) (g1, v1)"
    using step [OF k Suc.prems(2)] by auto
  have r: "xres v1 = 800" "yres v1 = 600" "card_startX v1 = 202"
    using size [OF v1(2)] by (auto simp: card_startX_def card_consts)
  have m: "m = 16 - Suc k" using Suc.hyps(2) by simp
  let ?rest = "draw_cards_from ju [Suc k..<16] (int (Suc k)) (202 + 99 * (int (Suc k) mod 4)) (74 + 113 * (int (Suc k) div 4)) (g1, v1)"
  obtain st' where st': "?rest = Inr st'" "P 16 st'"
    using Suc.hyps(1) [OF m _ v1(2)] k by auto
  have "[k..<16] = k # [Suc k..<16]" using k by (simp add: upt_conv_Cons)
  moreover have "\<not> 202 + 99 * (int (Suc k) mod 4) + 89 > 800" using pos_mod_bound [of 4 "int (Suc k)"] by linarith
  ultimately have step: "draw_cards_from ju [k..<16] (int k) (202 + 99 * (int k mod 4)) (74 + 113 * (int k div 4)) st =
      (if 74 + 113 * (int (Suc k) div 4) + 103 > 600 then Inr (g1, v1) else ?rest)"
    using draw_cards_step [OF v1(1) r next_place [of k], of "[Suc k..<16]"] by (simp only: of_nat_Suc add.commute [of 1] simp_thms)
  show ?case
  proof (cases "74 + 113 * (int (Suc k) div 4) + 103 > 600")
    case True
    then have "Suc k = 16" using k by simp
    with v1(2) show ?thesis unfolding step if_P [OF True] by simp
  next
    case False
    with st' show ?thesis unfolding step if_not_P [OF False] by blast
  qed
qed

lemma cards_drawn:
  assumes "gfx_ok v0" and "faces_ok (cardArray g)" and "length (cardArray g) = 16" and "\<forall>k<16. \<not> flipping g k"
  shows "\<exists>v'. draw_cards_from ju [0..<16] 0 202 74 (g, v0) = Inr (g, v') \<and> shows_cards g v0 16 v'"
proof -
  let ?P = "\<lambda>k st. fst st = g \<and> shows_cards g v0 k (snd st)"
  have "\<exists>st'. draw_cards_from ju [0..<16] (int 0) (202 + 99 * (int 0 mod 4)) (74 + 113 * (int 0 div 4)) (g, v0) = Inr st' \<and> ?P 16 st'"
  proof (rule cards_loop [where P = ?P])
    show "\<exists>st'. draw_one_card ju k (202 + 99 * (int k mod 4)) (74 + 113 * (int k div 4)) st = Inr st' \<and> ?P (Suc k) st'"
      if "k < 16" "?P k st" for k st
      using shows_one_more [OF assms(1-3) that(1), of "snd st" ju] assms(4) that by (cases st) auto
    show "xres (snd st) = 800 \<and> yres (snd st) = 600" if "?P k st" for k and st :: "game \<times> video"
      using that assms(1) vkeeps_simps(3,4) [of v0 "snd st"] by (auto simp: shows_cards_def gfx_ok_def)
  qed (simp_all add: shows_cards_def)
  then show ?thesis by auto
qed

text \<open>C7: \<open>draw_game_cards\<close> shows the table: with no card in motion it draws without a fault over the background, every card of the
  four by four grid stands at its place, the hidden ones with their back and the open ones with their own face from
  the deck, no card covers another, everywhere else on its 799 by 599 pixels there is the background, and the last column
  and the last row of the screen, which the background does not reach, stay as they were.\<close>

lemma table_shown:
  assumes "gfx_ok v" and "faces_ok (cardArray g)" and "length (cardArray g) = 16" and "\<forall>k<16. \<not> flipping g k"
    and "loaded_as (spriteBackground g) (imgBackground g) 799 599"
  shows "\<exists>v'. draw_game_cards ju (g, v) = Inr (g, v') \<and>
    (\<forall>x y. 0 \<le> x \<and> x < 799 \<and> 0 \<le> y \<and> y < 599 \<longrightarrow>
      (\<forall>k<16. \<forall>q. card_pixel g v k x y = Some q \<longrightarrow> pixel v' x y = q) \<and>
      ((\<forall>k<16. card_pixel g v k x y = None) \<longrightarrow>
         pixel v' x y = take 3 (drop (nat (3 * (y * 799 + x))) (spriteBackground g)))) \<and>
    (\<forall>x y. on_screen_px v x y \<and> (x = 799 \<or> y = 599) \<longrightarrow> pixel v' x y = pixel v x y)"
proof -
  obtain v1 where v1: "drawBackground ju g v = Inr v1" "vkeeps v v1"
    and p1: "\<forall>x y. on_screen_px v x y \<longrightarrow> pixel v1 x y =
      (if 0 \<le> x \<and> x < 799 \<and> 0 \<le> y \<and> y < 599 then take 3 (drop (nat (3 * (y * 799 + x))) (spriteBackground g)) else pixel v x y)"
    using image_total [OF gfx_screen [OF assms(1)] assms(5), of 0 0 ju] by (auto simp: drawBackground_def)
  have g1: "gfx_ok v1" using assms(1) vkeeps_simps(5) [OF v1(2)] by simp
  have on: "on_screen_px v x y \<and> on_screen_px v1 x y" if "0 \<le> x \<and> x < 799 \<and> 0 \<le> y \<and> y < 599" for x y
    using that assms(1) g1 by (auto simp: on_screen_px_def gfx_ok_def)
  have "card_startX v1 = 202" "card_startY v1 = 74"
    using g1 by (auto simp: gfx_ok_def card_startX_def card_startY_def card_consts)
  moreover obtain v' where "draw_cards_from ju [0..<16] 0 202 74 (g, v1) = Inr (g, v')" and s: "shows_cards g v1 16 v'"
    using cards_drawn [OF g1 assms(2-4), of ju] by auto
  ultimately have "draw_game_cards ju (g, v) = Inr (g, v')" using v1(1) by (simp add: draw_game_cards_def)
  moreover have "(\<forall>k<16. \<forall>q. card_pixel g v k x y = Some q \<longrightarrow> pixel v' x y = q) \<and>
      ((\<forall>k<16. card_pixel g v k x y = None) \<longrightarrow> pixel v' x y = take 3 (drop (nat (3 * (y * 799 + x))) (spriteBackground g)))"
    if "0 \<le> x \<and> x < 799 \<and> 0 \<le> y \<and> y < 599" for x y
    using s on [OF that] p1 that by (simp add: shows_cards_def card_pixel_vkeeps [OF v1(2)])
  moreover have "pixel v' x y = pixel v x y" if "on_screen_px v x y" "x = 799 \<or> y = 599" for x y
  proof -
    have "card_pixel g v1 k x y = None" if "k < 16" for k
    proof -
      obtain a b where ab: "int k mod 4 = a" "int k div 4 = b" by blast
      then have "a \<le> 3" "b \<le> 3" using that by auto
      then have "\<not> (202 + 99 * a \<le> x \<and> x < 202 + 99 * a + 75 \<and> 74 + 113 * b \<le> y \<and> y < 74 + 113 * b + 109)"
        "\<not> (202 + 99 * a \<le> x \<and> x < 202 + 99 * a + 69 \<and> 74 + 113 * b \<le> y \<and> y < 74 + 113 * b + 93)"
        using \<open>x = 799 \<or> y = 599\<close> by linarith+
      then show ?thesis unfolding card_pixel_def ab card_at(1) [OF g1 that, unfolded ab] card_consts Let_def prod.case
        by (simp only: if_False if_cancel)
    qed
    moreover have "on_screen_px v1 x y" using that(1) assms(1) g1 by (auto simp: on_screen_px_def gfx_ok_def)
    ultimately show ?thesis using s p1 that by (auto simp: shows_cards_def)
  qed
  ultimately show ?thesis by blast
qed

theorem table_shown_witness:
  "\<exists>v'. draw_game_cards 0 ((table_with (replicate 16 (mk_card 3 1)))\<lparr>imgBackground := \<lparr>width = 799, height = 599\<rparr>,
     spriteBackground := replicate (3 * 799 * 599) 9\<rparr>, full_screen) =
     Inr ((table_with (replicate 16 (mk_card 3 1)))\<lparr>imgBackground := \<lparr>width = 799, height = 599\<rparr>,
     spriteBackground := replicate (3 * 799 * 599) 9\<rparr>, v')"
proof -
  let ?g = "(table_with (replicate 16 (mk_card 3 1)))\<lparr>imgBackground := \<lparr>width = 799, height = 599\<rparr>,
     spriteBackground := replicate (3 * 799 * 599) 9\<rparr>"
  have "faces_ok (cardArray ?g)" "length (cardArray ?g) = 16" "\<forall>k<16. \<not> flipping ?g k"
    "loaded_as (spriteBackground ?g) (imgBackground ?g) 799 599"
    by (simp_all add: faces_ok_def flipping_def table_with_def mk_card_def loaded_as_def)
  from table_shown [OF full_screen_ok this, of 0] show ?thesis by blast
qed

end
