(* ===== verification/Outcome.thy ===== *)
theory Outcome
  imports Screens
begin

text \<open>
  How a game ends.  The invariant \<open>outcome_inv\<close> of the running program: matched cards come in pairs of
  the same face, victory means that all cards are matched, a lost game that the player is dead with
  cards left over, and both are only announced on the exit screen.
\<close>

definition matched_in_pairs :: "card list \<Rightarrow> bool" where
  "matched_in_pairs cs \<longleftrightarrow> (\<forall>i<length cs. flipSuccess (cs ! i) \<longrightarrow>
     (\<exists>j<length cs. j \<noteq> i \<and> flipSuccess (cs ! j) \<and> same_face (cs ! i) (cs ! j)))"

definition player_inv :: "proj \<Rightarrow> bool" where
  "player_inv s \<longleftrightarrow> isAlive (p1 (gm s)) = (\<not> game_over s) \<and> (isAlive (p1 (gm s)) \<longrightarrow> lives (p1 (gm s)) \<noteq> 0) \<and>
     (game_over s \<longrightarrow> gs s = Exit)"

definition outcome_inv :: "proj \<Rightarrow> bool" where
  "outcome_inv s \<longleftrightarrow> matched_in_pairs (cardArray (gm s)) \<and> player_inv s \<and>
     (victory s \<longrightarrow> gs s = Exit \<and> list_all flipSuccess (cardArray (gm s))) \<and>
     (game_over s \<longrightarrow> \<not> list_all flipSuccess (cardArray (gm s)))"

section \<open>Steps that leave the outcome alone\<close>

definition pcalm :: "proj \<Rightarrow> proj \<Rightarrow> bool" where
  "pcalm s s' \<longleftrightarrow> gcalm (gm s) (gm s') \<and> game_over s' = game_over s \<and> victory s' = victory s"

lemma pcalm_refl [simp, intro]: "pcalm s s"
  by (simp add: pcalm_def)

lemma pcalm_trans [trans]: "pcalm s t \<Longrightarrow> pcalm t u \<Longrightarrow> pcalm s u"
  using gcalm_trans unfolding pcalm_def by metis

lemma faces_same_face:
  assumes "map face cs' = map face cs" and "i < length cs" and "j < length cs"
  shows "same_face (cs' ! i) (cs' ! j) = same_face (cs ! i) (cs ! j)"
proof -
  have "face (cs' ! k) = face (cs ! k)" if "k < length cs" for k
    using that assms(1) by (metis length_map nth_map)
  then show ?thesis using assms(2,3) by (simp add: same_face_def face_def)
qed

lemma calm_nth:
  assumes "gcalm g g'" and "k < length (cardArray g)"
  shows "flipSuccess (cardArray g' ! k) = flipSuccess (cardArray g ! k)"
proof -
  have m: "map flipSuccess (cardArray g') = map flipSuccess (cardArray g)" using assms(1) by (simp add: gcalm_def)
  then have "length (cardArray g') = length (cardArray g)" by (rule map_eq_imp_length_eq)
  with arg_cong [OF m, of "\<lambda>xs. xs ! k"] assms(2) show ?thesis by simp
qed

lemma calm_cards:
  assumes "gcalm g g'"
  shows "length (cardArray g') = length (cardArray g)"
    and "matched_in_pairs (cardArray g') = matched_in_pairs (cardArray g)"
    and "list_all flipSuccess (cardArray g') = list_all flipSuccess (cardArray g)"
proof -
  let ?cs = "cardArray g" and ?cs' = "cardArray g'"
  have f: "map face ?cs' = map face ?cs" and m: "map flipSuccess ?cs' = map flipSuccess ?cs"
    using assms by (auto simp: gcalm_def gkeeps_def)
  show len: "length ?cs' = length ?cs" using m map_eq_imp_length_eq by blast
  have s: "flipSuccess (?cs' ! k) = flipSuccess (?cs ! k)" if "k < length ?cs" for k
    using calm_nth [OF assms that] .
  show "matched_in_pairs ?cs' = matched_in_pairs ?cs"
    by (simp add: matched_in_pairs_def len s faces_same_face [OF f] cong: conj_cong)
  show "list_all flipSuccess ?cs' = list_all flipSuccess ?cs"
    using s by (auto simp: list_all_length len)
qed

lemma calm_outcome:
  assumes "pcalm s s'" and "outcome_inv s" and "gs s' = gs s \<or> gs s \<noteq> Exit"
  shows "outcome_inv s'"
proof -
  have g: "gcalm (gm s) (gm s')" and e: "game_over s' = game_over s" "victory s' = victory s"
    using assms(1) by (auto simp: pcalm_def)
  have "p1 (gm s') = p1 (gm s)" using g by (simp add: gcalm_def)
  with assms(2,3) e calm_cards [OF g] show ?thesis by (auto simp: outcome_inv_def player_inv_def)
qed

lemma draw_calm:
  "on_video f s = Inr s' \<Longrightarrow> pcalm s s' \<and> gs s' = gs s"
  "on_screen h (s, w) = Inr (s', w') \<Longrightarrow> pcalm s s' \<and> gs s' = gs s"
  by (auto simp: on_video_def on_screen_def andthen_eq_Inr pcalm_def)

lemma on_cards_calm: "on_cards (draw_game_cards ju) s = Inr s' \<Longrightarrow> pcalm s s' \<and> gs s' = gs s"
  using draw_game_cards_gvkeeps by (fastforce simp: on_cards_def andthen_eq_Inr pcalm_def gvkeeps_def)

lemma click_cards_calm: "click_cards s = Inr s' \<Longrightarrow> pcalm s s' \<and> gs s' = gs s"
  using click_gcalm by (auto simp: click_cards_def Let_def andthen_eq_Inr pcalm_def split: if_splits)

lemma buttons_calm:
  "pcalm s (menu_buttons s)" "pcalm s (pause_buttons s)" "pcalm s (instructions_keys s)" "pcalm s (deal_in s)"
  by (auto simp: pcalm_def menu_buttons_def pause_buttons_def instructions_keys_def deal_in_def gcalm_def gkeeps_def
      images_def face_def set_lb_def set_ticks_def set_scancode_def Let_def)

section \<open>The pair test\<close>

text \<open>
  The invariant of the loop over the cards before card \<open>i\<close>: once a life too many is lost, a card before
  \<open>i\<close> other than the one remembered in \<open>cardPosInArray\<close> is unmatched.
\<close>

definition match_inv :: "nat \<Rightarrow> nat \<times> nat \<times> proj \<times> 'w \<Rightarrow> bool" where
  "match_inv i st \<longleftrightarrow> (case st of (n, p, s, _) \<Rightarrow>
     length (cardArray (gm s)) = 16 \<and> matched_in_pairs (cardArray (gm s)) \<and> player_inv s \<and> \<not> victory s \<and>
     (n = 0 \<or> n = 1 \<and> p < i) \<and>
     (game_over s \<longrightarrow> n = 1 \<and> (\<exists>k<i. k \<noteq> p \<and> \<not> flipSuccess (cardArray (gm s) ! k))))"

lemma set_success_nth:
  assumes "i < length (cardArray g)" and "j < length (cardArray g)"
  shows "cardArray (set_success i j g) ! k =
    (if k = i \<or> k = j then (cardArray g ! k)\<lparr>flipSuccess := True\<rparr> else cardArray g ! k)"
  using assms by (auto simp: set_success_def Let_def nth_list_update)

lemma set_success_pairs:
  assumes "matched_in_pairs (cardArray g)" and "i < length (cardArray g)" and "j < length (cardArray g)" and "i \<noteq> j"
    and "same_face (cardArray g ! i) (cardArray g ! j)"
  shows "matched_in_pairs (cardArray (set_success i j g))"
proof -
  let ?cs = "cardArray g" and ?cs' = "cardArray (set_success i j g)"
  have len: "length ?cs' = length ?cs" by (simp add: set_success_def Let_def)
  have f: "same_face (?cs' ! a) (?cs' ! b) = same_face (?cs ! a) (?cs ! b)" for a b
    by (simp add: set_success_nth [OF assms(2,3)] same_face_def)
  have sym: "same_face (?cs ! j) (?cs ! i)" using assms(5) by (simp add: same_face_def)
  have s: "flipSuccess (?cs' ! k) \<longleftrightarrow> k = i \<or> k = j \<or> flipSuccess (?cs ! k)" for k
    by (simp add: set_success_nth [OF assms(2,3)])
  show ?thesis
    unfolding matched_in_pairs_def len f s
    using assms sym by (metis matched_in_pairs_def)
qed

lemma lose_life_player:
  assumes "player_inv s"
  shows "player_inv (lose_life s)" and "cardArray (gm (lose_life s)) = cardArray (gm s)"
    and "victory (lose_life s) = victory s"
  using assms by (auto simp: player_inv_def lose_life_def Let_def)

lemma match_step_inv:
  assumes "match_inv i st" and "i < 16"
  shows "match_inv (Suc i) (match_step K i st)"
proof -
  obtain n p s w where st: "st = (n, p, s, w)" by (metis prod.exhaust)
  let ?cs = "cardArray (gm s)"
  have inv: "length ?cs = 16" "matched_in_pairs ?cs" "player_inv s" "\<not> victory s" "n = 0 \<or> n = 1 \<and> p < i"
    and go: "game_over s \<Longrightarrow> n = 1 \<and> (\<exists>k<i. k \<noteq> p \<and> \<not> flipSuccess (?cs ! k))"
    using assms(1) by (auto simp: match_inv_def st)
  consider (first) "n = 0" "open_card (?cs ! i)" | (pair) "n = 1" "open_card (?cs ! i)" "same_face (?cs ! i) (?cs ! p)"
    | (differ) "n = 1" "open_card (?cs ! i)" "\<not> same_face (?cs ! i) (?cs ! p)" | (skip) "\<not> open_card (?cs ! i)"
    using inv(5) by blast
  then show ?thesis
  proof cases
    case first
    then have "match_step K i st = (1, i, s, w)" by (simp add: st match_step_def open_card_def)
    with inv go first show ?thesis by (auto simp: match_inv_def)
  next
    case pair
    let ?s = "s\<lparr>gm := set_success i p (gm s)\<rparr>"
    have b: "i < length ?cs" "p < length ?cs" "i \<noteq> p" using inv assms(2) pair by auto
    have "match_step K i st = (1, p, ?s, w)" using pair by (simp add: st match_step_def open_card_def same_face_def Let_def)
    moreover have "player_inv ?s" "length (cardArray (gm ?s)) = 16" using inv by (simp_all add: player_inv_def set_success_def Let_def)
    moreover have "\<exists>k<Suc i. k \<noteq> p \<and> \<not> flipSuccess (cardArray (gm ?s) ! k)" if "game_over s"
      using go [OF that] by (auto simp: set_success_nth [OF b(1,2)] intro: less_SucI)
    ultimately show ?thesis
      using inv b pair set_success_pairs [OF inv(2) b pair(3)] by (auto simp: match_inv_def)
  next
    case differ
    define t where "t = (if isFlipping (?cs ! i) then s else lose_life s)"
    have t: "player_inv t" "cardArray (gm t) = ?cs" "\<not> victory t" using lose_life_player [OF inv(3)] inv(3,4) by (auto simp: t_def)
    let ?g = "set_flipping True p (set_flipping True i (gm t))"
    have step: "\<exists>w'. match_step K i st = (1, p, t\<lparr>gm := ?g\<rparr>, w')"
      using differ by (auto simp: st match_step_def open_card_def same_face_def t_def Let_def)
    have c: "gcalm (gm t) ?g" by (blast intro: gcalm_steps gcalm_trans)
    have "p1 ?g = p1 (gm t)" using c by (simp add: gcalm_def)
    then have "player_inv (t\<lparr>gm := ?g\<rparr>)" using t(1) by (simp add: player_inv_def)
    moreover have "flipSuccess (cardArray ?g ! k) = flipSuccess (?cs ! k)" if "k < 16" for k
      using calm_nth [OF c, of k] t(2) inv(1) that by simp
    then have "\<exists>k<Suc i. k \<noteq> p \<and> \<not> flipSuccess (cardArray ?g ! k)"
      using differ inv(5) assms(2) by (intro exI [of _ i]) (auto simp: open_card_def)
    ultimately show ?thesis
      using step inv t(2,3) differ(1) calm_cards(1,2) [OF c] by (auto simp: match_inv_def)
  next
    case skip
    then have "match_step K i st = st" by (auto simp: st match_step_def open_card_def Let_def)
    with inv go show ?thesis by (auto simp: match_inv_def st intro: less_SucI)
  qed
qed

lemma match_fold_inv:
  assumes "match_inv 0 st" and "n \<le> 16"
  shows "match_inv n (fold (match_step K) [0..<n] st)"
  using assms(2)
proof (induction n)
  case 0
  then show ?case using assms(1) by simp
next
  case (Suc n)
  then show ?case using match_step_inv [of n _ K] by (simp add: less_eq_Suc_le)
qed

lemma match_check_outcome:
  assumes "outcome_inv s" and "gs s \<noteq> Exit" and "length (cardArray (gm s)) = 16" and "match_cards K (s, w) = (s', w')"
  shows "outcome_inv (check_victory s')"
proof -
  have "\<not> game_over s" "\<not> victory s" using assms(1,2) by (auto simp: outcome_inv_def player_inv_def)
  with assms(1,3) have i0: "match_inv 0 (0, 0, s, w)" by (auto simp: match_inv_def outcome_inv_def)
  then have "\<exists>n p. match_inv 16 (n, p, s', w')"
  proof (cases "isAnyCardFlipping s")
    case True
    with assms(4) have "s' = s" "w' = w" by (auto simp: match_cards_def)
    with i0 \<open>\<not> game_over s\<close> show ?thesis by (intro exI [of _ 0]) (auto simp: match_inv_def)
  next
    case False
    obtain n p t u where f: "fold (match_step K) [0..<16] (0, 0, s, w) = (n, p, t, u)" by (metis prod.exhaust)
    with False assms(4) have "s' = t" "w' = u" by (auto simp: match_cards_def)
    with match_fold_inv [OF i0, of 16 K] f show ?thesis by auto
  qed
  then obtain n p where m: "match_inv 16 (n, p, s', w')" by blast
  then have "\<not> list_all flipSuccess (cardArray (gm s'))" if "game_over s'"
    using that by (auto simp: match_inv_def list_all_length)
  with m show ?thesis
    by (auto simp: match_inv_def outcome_inv_def player_inv_def check_victory_def Let_def)
qed

section \<open>The invariant of the loop\<close>

lemma game_play_calm:
  assumes "game_play K ju (s, w) = Inr (s', w')" and "gs s = In_Game"
  obtains s5 s6 where "pcalm s s5" "gs s5 \<in> {In_Game, Pause}" "match_cards K (s5, w) = (s6, w')" "s' = check_victory s6"
proof -
  from assms(1) obtain s1 s2 s3 s5 s6 where
    1: "(if tmr_tck_counter (tmr s) mod 2 = 0 then on_cards (draw_game_cards ju) s else Inr s) = Inr s1" and
    2: "on_video (drawHearts ju (gm s1)) s1 = Inr s2" and 3: "on_video my_updateVideoMem s2 = Inr s3" and
    5: "click_cards (if scancode (kbd s3) = 0x81 then s3\<lparr>gs := Pause\<rparr> else s3) = Inr s5" and
    6: "match_cards K (s5, w) = (s6, w')" and s': "s' = check_victory s6"
    by (rule game_play_parts)
  have "pcalm s s1 \<and> gs s1 = gs s" using 1 on_cards_calm by (auto split: if_splits)
  with draw_calm(1) [OF 2] draw_calm(1) [OF 3] pcalm_trans have c3: "pcalm s s3 \<and> gs s3 = gs s" by metis
  let ?t = "if scancode (kbd s3) = 0x81 then s3\<lparr>gs := Pause\<rparr> else s3"
  have k: "pcalm ?t s5 \<and> gs s5 = gs ?t" by (rule click_cards_calm [OF 5])
  have t: "pcalm s ?t" "gs ?t \<in> {In_Game, Pause}" using c3 assms(2) by (simp_all add: pcalm_def)
  have "pcalm s s5" by (rule pcalm_trans [OF t(1) conjunct1 [OF k]])
  moreover have "gs s5 \<in> {In_Game, Pause}" unfolding conjunct2 [OF k] by (rule t(2))
  ultimately show thesis using 6 s' by (rule that)
qed

lemma deal_in_calm:
  assumes "game_tick K ju (s, w) = Inr (s', w')" and "initGame s"
  shows "pcalm s s' \<and> gs s' = gs s"
proof -
  from assms obtain s1 s2 where s: "on_cards (draw_game_cards ju) (deal_in s) = Inr s1"
    "on_video (drawHearts ju (gm s1)) s1 = Inr s2" "on_video my_updateVideoMem s2 = Inr s'"
    by (auto simp: game_tick_def andthen_eq_Inr)
  have "pcalm s (deal_in s)" "gs (deal_in s) = gs s" using buttons_calm(4) by (auto simp: deal_in_def)
  with on_cards_calm [OF s(1)] draw_calm(1) [OF s(2)] draw_calm(1) [OF s(3)] show ?thesis
    using pcalm_trans by metis
qed

lemma game_tick_outcome:
  assumes "game_tick K ju (s, w) = Inr (s', w')" and "outcome_inv s" and "gs s = In_Game" and "length (cardArray (gm s)) = 16"
  shows "outcome_inv s'"
proof (cases "initGame s")
  case True
  then show ?thesis using deal_in_calm [OF assms(1)] calm_outcome assms(2) by blast
next
  case False
  then have "game_play K ju (s, w) = Inr (s', w')" using assms(1) by (simp add: game_tick_def)
  then obtain s5 s6 where c: "pcalm s s5" "gs s5 \<in> {In_Game, Pause}" "match_cards K (s5, w) = (s6, w')" "s' = check_victory s6"
    using assms(3) by (rule game_play_calm)
  have "outcome_inv s5" using calm_outcome [OF c(1) assms(2)] assms(3) by simp
  moreover have "length (cardArray (gm s5)) = 16" using c(1) calm_cards(1) assms(4) by (auto simp: pcalm_def)
  ultimately show ?thesis using match_check_outcome [OF _ _ _ c(3)] c(2,4) by auto
qed

lemma dealt_unmatched:
  assumes "dealt cs"
  shows "c \<in> set cs \<Longrightarrow> \<not> flipSuccess c" and "length cs = 16"
proof -
  from assms obtain fs where fs: "length fs = 8" and m: "mset cs = mset (map (\<lambda>(x, y). mk_card x y) (fs @ fs))"
    by (auto simp: dealt_def)
  from m have "set cs = set (map (\<lambda>(x, y). mk_card x y) (fs @ fs))" by (rule mset_eq_setD)
  then show "c \<in> set cs \<Longrightarrow> \<not> flipSuccess c" by (auto simp: mk_card_def)
  show "length cs = 16" using arg_cong [OF m, of size] fs by simp
qed

lemma fresh_outcome:
  assumes "dealt (cardArray (gm s))" and "isAlive (p1 (gm s))" and "lives (p1 (gm s)) = 5" and "\<not> game_over s" and "\<not> victory s"
  shows "outcome_inv s"
  using assms dealt_unmatched [OF assms(1)]
  by (auto simp: outcome_inv_def player_inv_def matched_in_pairs_def)

lemma restart_fresh:
  assumes "rand_ok K" and "rand_fair K" and "length (cardArray (gm s)) = 16" and "restart K (s, w) = Some (Inr (s', w'))"
  shows "s' = s \<or> dealt (cardArray (gm s')) \<and> isAlive (p1 (gm s')) \<and> lives (p1 (gm s')) = 5 \<and>
    gs s' = Menu \<and> \<not> game_over s' \<and> \<not> victory s'"
proof (cases "tmr_tck_counter (tmr s) mod 240 = 0")
  case True
  obtain cs w1 where cs: "initialize_game_cards K (cardArray (gm s)) w = Some (Inr (cs, w1))" "dealt cs"
    using deal_total [OF assms(1-3)] by blast
  with True assms(4) have "s' = s\<lparr>gs := Menu, game_over := False, victory := False, initGame := True,
      gm := initializePlayer ((gm s)\<lparr>cardArray := cs\<rparr>)\<rparr>"
    by (simp add: restart_def Let_def)
  with cs(2) show ?thesis by (simp add: initializePlayer_def)
next
  case False
  then show ?thesis using assms(4) by (simp add: restart_def)
qed

lemma exit_tick_calm:
  assumes "exit_tick K ju (s, w) = Some (Inr (s', w'))"
  obtains s2 s3 w3 where "pcalm s s2 \<and> gs s2 = gs s" "pcalm s3 s' \<and> gs s' = gs s3"
    "if game_over s \<or> victory s then restart K (s2, w) = Some (Inr (s3, w3)) else s3 = s2\<lparr>condition := False\<rparr>"
proof -
  from assms obtain s1 s3 w3 where s1: "on_video green_screen s = Inr s1" and s': "on_video my_updateVideoMem s3 = Inr s'"
    and m: "(if game_over s1 then run_then (Some (on_video (draw_game_over ju (gm s1)) s1)) (\<lambda>s2. restart K (s2, w))
       else if victory s1 then run_then (Some (on_video (draw_victory ju (gm s1)) s1)) (\<lambda>s2. restart K (s2, w))
       else Some (Inr (s1\<lparr>condition := False\<rparr>, w))) = Some (Inr (s3, w3))"
    by (auto simp: exit_tick_def run_then_eq_Inr)
  have c1: "pcalm s s1 \<and> gs s1 = gs s" by (rule draw_calm(1) [OF s1])
  then have e: "game_over s1 = game_over s" "victory s1 = victory s" by (auto simp: pcalm_def)
  show thesis
  proof (cases "game_over s \<or> victory s")
    case True
    with m e obtain f s2 where "on_video f s1 = Inr s2" and r: "restart K (s2, w) = Some (Inr (s3, w3))"
      by (auto simp: run_then_eq_Inr split: if_splits)
    then have "pcalm s s2 \<and> gs s2 = gs s" using c1 draw_calm(1) pcalm_trans by metis
    with that [of s2 s3 w3] True r draw_calm(1) [OF s'] show thesis by simp
  next
    case False
    with m e have "s3 = s1\<lparr>condition := False\<rparr>" by simp
    with that [of s1 s3] c1 False draw_calm(1) [OF s'] show thesis by simp
  qed
qed

lemma exit_tick_outcome:
  assumes K: "rand_ok K" "rand_fair K" and o: "outcome_inv s" and len: "length (cardArray (gm s)) = 16"
    and tick: "exit_tick K ju (s, w) = Some (Inr (s', w'))"
  shows "outcome_inv s'"
proof -
  obtain s2 s3 w3 where c: "pcalm s s2 \<and> gs s2 = gs s" "pcalm s3 s' \<and> gs s' = gs s3"
    and m: "if game_over s \<or> victory s then restart K (s2, w) = Some (Inr (s3, w3)) else s3 = s2\<lparr>condition := False\<rparr>"
    by (rule exit_tick_calm [OF tick])
  have o2: "outcome_inv s2" using calm_outcome o c(1) by blast
  have l2: "length (cardArray (gm s2)) = 16" using len c(1) calm_cards(1) by (auto simp: pcalm_def)
  have "outcome_inv s3"
  proof (cases "game_over s \<or> victory s")
    case True
    with m restart_fresh [OF K l2, of w s3 w3] o2 fresh_outcome [of s3] show ?thesis by auto
  next
    case False
    then have "s3 = s2\<lparr>condition := False\<rparr>" using m by simp
    then show ?thesis using o2 by (simp add: outcome_inv_def player_inv_def)
  qed
  then show ?thesis using calm_outcome c(2) by blast
qed

lemma quiet_tick_parts:
  "menu_tick K ju (s, w) = Inr (s', w') \<Longrightarrow> \<exists>t. pcalm s t \<and> gs t = gs s \<and> s' = menu_buttons t"
  "pause_tick K ju (s, w) = Inr (s', w') \<Longrightarrow> \<exists>t. pcalm s t \<and> gs t = gs s \<and> s' = pause_buttons t"
  "instructions_tick ju s = Inr s' \<Longrightarrow> \<exists>t. pcalm s t \<and> gs t = gs s \<and> s' = instructions_keys t"
  unfolding menu_tick_def pause_tick_def instructions_tick_def
  by (auto simp: andthen_eq_Inr dest!: draw_calm split: if_splits; metis pcalm_trans)+

lemma state_tick_outcome:
  assumes K: "rand_ok K" "rand_fair K" and o: "outcome_inv s" and len: "length (cardArray (gm s)) = 16"
    and tick: "state_tick K ju (s, w) = Some (Inr (s', w'))"
  shows "outcome_inv s'"
proof -
  have quiet: "outcome_inv s'" if "gs s \<noteq> Exit" "\<exists>t. pcalm s t \<and> gs t = gs s \<and> pcalm t s'"
    using that calm_outcome [OF _ o, of s'] pcalm_trans by blast
  show ?thesis
  proof (cases "gs s")
    case Menu
    with tick quiet quiet_tick_parts(1) [of K ju s w s' w'] buttons_calm(1) show ?thesis by (auto simp: state_tick_def)
  next
    case In_Game
    with tick game_tick_outcome [OF _ o _ len] show ?thesis by (auto simp: state_tick_def)
  next
    case Pause
    with tick quiet quiet_tick_parts(2) [of K ju s w s' w'] buttons_calm(2) show ?thesis by (auto simp: state_tick_def)
  next
    case Instructions
    with tick quiet quiet_tick_parts(3) [of ju s s'] buttons_calm(3) show ?thesis by (auto simp: state_tick_def andthen_eq_Inr)
  next
    case Exit
    with tick exit_tick_outcome [OF K o len] show ?thesis by (auto simp: state_tick_def)
  qed (use tick o in \<open>auto simp: state_tick_def\<close>)
qed

definition same_outcome :: "proj \<Rightarrow> proj \<Rightarrow> bool" where
  "same_outcome s s' \<longleftrightarrow> cardArray (gm s') = cardArray (gm s) \<and> p1 (gm s') = p1 (gm s) \<and>
     game_over s' = game_over s \<and> victory s' = victory s \<and> gs s' = gs s"

lemma same_outcome_inv: "same_outcome s s' \<Longrightarrow> outcome_inv s' = outcome_inv s"
  by (simp add: same_outcome_def outcome_inv_def player_inv_def)

lemma device_parts_same:
  "keyboard_part K msg (s, w) = (s', w') \<Longrightarrow> same_outcome s s'"
  "mouse_part K msg (s, w) = Some (ev, s', w') \<Longrightarrow> same_outcome s s'"
  by (auto simp: same_outcome_def keyboard_part_def mouse_part_def Let_def update_mouse_position_def
      split: if_splits prod.splits option.splits)

text \<open>An iteration is a tick of the state machine between steps of the devices and the drawing of the pointer, or no tick at all.\<close>

lemma iteration_cases:
  assumes "proj_iteration K (s, w) = Some (Inr (s', w'))"
  obtains (idle) "same_outcome s s'"
    | (tick) ju t u t' u' where "same_outcome s t" "state_tick K ju (t, u) = Some (Inr (t', u'))" "pcalm t' s' \<and> gs s' = gs t'"
proof -
  obtain r msg ipc w1 where r: "driver_receive K w = ((r, msg, ipc), w1)" by (metis prod.exhaust)
  obtain s1 w2 where kp: "keyboard_part K msg (s, w1) = (s1, w2)" by fastforce
  from assms consider "s' = s"
    | ev where "mouse_part K msg (s1, w2) = Some (ev, s', w')"
    | ev s2 w3 where "mouse_part K msg (s1, w2) = Some (ev, s2, w3)" "timer_part K msg (s2, w3) = Some (Inr (s', w'))"
    by (auto simp: proj_iteration_def r kp split: if_splits option.splits)
  then show thesis
  proof cases
    case 1
    then show thesis using idle by (simp add: same_outcome_def)
  next
    case 2
    then show thesis using idle device_parts_same(1) [OF kp] device_parts_same(2) [OF 2] by (simp add: same_outcome_def)
  next
    case 3
    have d: "same_outcome s s2" using device_parts_same(1) [OF kp] device_parts_same(2) [OF 3(1)] by (simp add: same_outcome_def)
    show thesis
    proof (cases "interrupts msg AND ucast (irq_set2 s2) \<noteq> 0")
      case True
      let ?t = "s2\<lparr>tmr := timer_int_handler (tmr s2)\<rparr>"
      from True 3(2) obtain ju t' u' t2 where t': "state_tick K ju (?t, w3) = Some (Inr (t', u'))"
        and p: "on_video (draw_mouse ju (gm t')) t' = Inr t2" "on_video my_updateVideoMem t2 = Inr s'"
        by (auto simp: timer_part_def Let_def run_then_eq_Inr)
      have "pcalm t' s' \<and> gs s' = gs t'" using draw_calm(1) [OF p(1)] draw_calm(1) [OF p(2)] pcalm_trans by metis
      moreover have "same_outcome s ?t" using d by (simp add: same_outcome_def)
      ultimately show thesis using t' by (intro tick)
    next
      case False
      then show thesis using 3(2) d idle by (simp add: timer_part_def)
    qed
  qed
qed

lemma iteration_outcome:
  assumes K: "rand_ok K" "rand_fair K" and len: "length (cardArray (gm s)) = 16" and o: "outcome_inv s"
    and it: "proj_iteration K (s, w) = Some (Inr (s', w'))"
  shows "outcome_inv s'"
  using it
proof (cases rule: iteration_cases)
  case idle
  then show ?thesis using o same_outcome_inv by blast
next
  case (tick ju t u t' u')
  have "outcome_inv t" "length (cardArray (gm t)) = 16" using tick(1) o len same_outcome_inv [OF tick(1)] by (simp_all add: same_outcome_def)
  then have "outcome_inv t'" using state_tick_outcome [OF K _ _ tick(2)] by blast
  then show ?thesis using tick(3) calm_outcome by blast
qed

lemma table_length: "table_inv mi im s \<Longrightarrow> length (cardArray (gm s)) = 16"
  using eight_pairs_length by (simp add: table_inv_def)

interpretation outcome: step_invariant "proj_step K"
    "\<lambda>(s, w). table_inv mi im s \<and> outcome_inv s \<and> rand_ok K \<and> rand_fair K \<and>
       15 \<le> uint (XResolution mi) \<and> 15 \<le> uint (YResolution mi)" for K mi im
proof
  fix st st' :: "proj \<times> 'a"
  assume i: "case st of (s, w) \<Rightarrow> table_inv mi im s \<and> outcome_inv s \<and> rand_ok K \<and> rand_fair K \<and>
    15 \<le> uint (XResolution mi) \<and> 15 \<le> uint (YResolution mi)" and "proj_step K st st'"
  from this(2) obtain s w s' w' where st: "st = (s, w)" "st' = (s', w')" and it: "proj_iteration K (s, w) = Some (Inr (s', w'))"
    by cases
  have "table_inv mi im s'" using iteration_keeps [OF _ _ _ _ _ it] i by (simp add: st)
  moreover have "outcome_inv s'" using iteration_outcome [OF _ _ _ _ it] table_length i by (auto simp: st)
  ultimately show "case st' of (s, w) \<Rightarrow> table_inv mi im s \<and> outcome_inv s \<and> rand_ok K \<and> rand_fair K \<and>
    15 \<le> uint (XResolution mi) \<and> 15 \<le> uint (YResolution mi)" using i by (simp add: st)
qed

text \<open>C4: The outcome of a game is right in every state the running program can reach: a matched card has a matched twin of the
  same face, victory is only declared with all sixteen cards matched, defeat only with a dead player and cards left over,
  never both, and either one only on the exit screen; while the player lives there is a life left.\<close>

lemma outcome_right:
  assumes "rand_ok K" and "rand_fair K" and "machine_ok K mi" and "svga mi"
    and "length (cardArray (gm s0)) = 16" and "length (otherSide (gm s0)) = 16"
  shows "\<exists>st1 s2 w2. proj_setup_game K (s0, w0) = Some (Inr st1) \<and> proj_setup_devices K st1 = Inr (Inr s2, w2) \<and>
    (\<forall>s w. (proj_step K)\<^sup>*\<^sup>* (s2, w2) (s, w) \<longrightarrow>
      (\<forall>i<16. flipSuccess (cardArray (gm s) ! i) \<longrightarrow>
        (\<exists>j<16. j \<noteq> i \<and> flipSuccess (cardArray (gm s) ! j) \<and> same_face (cardArray (gm s) ! i) (cardArray (gm s) ! j))) \<and>
      (victory s \<longrightarrow> gs s = Exit \<and> (\<forall>i<16. flipSuccess (cardArray (gm s) ! i))) \<and>
      (game_over s \<longrightarrow> gs s = Exit \<and> \<not> isAlive (p1 (gm s)) \<and> (\<exists>i<16. \<not> flipSuccess (cardArray (gm s) ! i))) \<and>
      (\<not> game_over s \<longrightarrow> isAlive (p1 (gm s)) \<and> lives (p1 (gm s)) \<noteq> 0))"
proof -
  obtain st1 s2 w2 where 1: "proj_setup_game K (s0, w0) = Some (Inr st1)" "proj_setup_devices K st1 = Inr (Inr s2, w2)"
    and f: "fresh_game K (gm s2)" "\<not> game_over s2" "\<not> victory s2"
    and inv: "\<And>s w. (proj_step K)\<^sup>*\<^sup>* (s2, w2) (s, w) \<Longrightarrow> table_inv mi (images (gm s2)) s"
    using program_runs [OF assms] by blast
  have "outcome_inv s2" using f by (intro fresh_outcome) (auto simp: fresh_game_def)
  with inv [OF rtranclp.rtrancl_refl] have "outcome_inv s" if "(proj_step K)\<^sup>*\<^sup>* (s2, w2) (s, w)" for s w
    using outcome.run_keeps [OF that, of mi "images (gm s2)"] assms(1,2,4) by (simp add: svga_def)
  moreover have "length (cardArray (gm s)) = 16" if "(proj_step K)\<^sup>*\<^sup>* (s2, w2) (s, w)" for s w
    using inv [OF that] eight_pairs_length by (simp add: table_inv_def)
  ultimately show ?thesis
    using 1 by (fastforce simp: outcome_inv_def player_inv_def matched_in_pairs_def list_all_length)
qed

theorem outcome_right_witness:
  "\<exists>st1 s2 w2. proj_setup_game pc_kernel (proj_globals, sim0) = Some (Inr st1) \<and>
     proj_setup_devices pc_kernel st1 = Inr (Inr s2, w2) \<and>
     (victory s2 \<longrightarrow> (\<forall>i<16. flipSuccess (cardArray (gm s2) ! i)))"
  using outcome_right [OF pc_kernel_ok proj_globals_tables, of sim0] by (meson rtranclp.rtrancl_refl)

end
