(* ===== verification/Memory_Game.thy ===== *)
theory Memory_Game
  imports Proj_Main
begin

text \<open>
  The game the program plays, without drivers, drawing, animation and time: sixteen places with
  faces, the places whose pairs have been found, the lives left, the screen shown and the result.
  \<open>memory_step\<close> has one rule for each thing that can happen; \<open>Session\<close> proves that the program does
  nothing else.
\<close>

datatype status = Running | Won | Lost

record memory_game =
  faces :: "(cardNumber \<times> cardSuit) list"
  found :: "nat set"
  hearts :: nat
  shown :: gameState
  status :: status

section \<open>The rules\<close>

text \<open>
  The places of the cards that lie open, in ascending order, are judged against the first of them:
  \<open>judged\<close> are the places of the pair, if there is one, \<open>mismatches\<close> counts the others.
\<close>

fun judged :: "'f list \<Rightarrow> nat list \<Rightarrow> nat set" where
  "judged b [] = {}"
| "judged b (a # us) = (let ts = filter (\<lambda>u. b ! u = b ! a) us in if ts = [] then {} else set (a # ts))"

fun mismatches :: "'f list \<Rightarrow> nat list \<Rightarrow> nat" where
  "mismatches b [] = 0"
| "mismatches b (a # us) = length (filter (\<lambda>u. b ! u \<noteq> b ! a) us)"

text \<open>The ways from screen to screen while a game is running; a running game is left for the exit screen by its result only.\<close>

fun routes :: "gameState \<Rightarrow> gameState set" where
  "routes Menu = {In_Game, Instructions, Exit}"
| "routes In_Game = {Pause}"
| "routes Pause = {In_Game, Instructions, Exit}"
| "routes Instructions = {In_Game, Menu}"
| "routes _ = {}"

definition paired :: "'f list \<Rightarrow> bool" where
  "paired b \<longleftrightarrow> (\<exists>fs. length fs = 8 \<and> distinct fs \<and> mset b = mset (fs @ fs))"

definition new_game :: "memory_game \<Rightarrow> bool" where
  "new_game m \<longleftrightarrow> paired (faces m) \<and> found m = {} \<and> hearts m = 5 \<and> shown m = Menu \<and> status m = Running"

inductive memory_step :: "memory_game \<Rightarrow> memory_game \<Rightarrow> bool" where
  navigate: "status m = Running \<Longrightarrow> scr \<in> routes (shown m) \<Longrightarrow> memory_step m (m\<lparr>shown := scr\<rparr>)"
| turn: "memory_step m (m\<lparr>found := found m \<union> judged (faces m) us, hearts := hearts m - n, shown := scr\<rparr>)"
    if "status m = Running" "shown m = In_Game" "sorted_wrt (<) us" "set us \<subseteq> {..<16} - found m"
      "n \<le> mismatches (faces m) us" "n < hearts m" "scr \<in> {In_Game, Pause}"
| win: "memory_step m (m\<lparr>found := {..<16}, hearts := hearts m - n, shown := Exit, status := Won\<rparr>)"
    if "status m = Running" "shown m = In_Game" "sorted_wrt (<) us" "set us \<subseteq> {..<16} - found m"
      "n \<le> mismatches (faces m) us" "n < hearts m" "found m \<union> judged (faces m) us = {..<16}"
| lose: "memory_step m (m\<lparr>found := found m \<union> judged (faces m) us, hearts := 0, shown := Exit, status := Lost\<rparr>)"
    if "status m = Running" "shown m = In_Game" "sorted_wrt (<) us" "set us \<subseteq> {..<16} - found m"
      "hearts m \<le> mismatches (faces m) us"
| deal: "status m \<noteq> Running \<Longrightarrow> shown m = Exit \<Longrightarrow> new_game m' \<Longrightarrow> memory_step m m'"

section \<open>Judging one card more\<close>

lemma judged_snoc:
  "judged b (a # us @ [i]) = judged b (a # us) \<union> (if b ! i = b ! a then {a, i} else {})"
  by (auto simp: Let_def filter_empty_conv)

lemma judged_singleton [simp]: "judged b [i] = {}" "mismatches b [i] = 0"
  by simp_all

lemma mismatches_snoc: "mismatches b (a # us @ [i]) = mismatches b (a # us) + (if b ! i = b ! a then 0 else 1)"
  by simp

lemma judged_subset: "judged b us \<subseteq> set us"
  by (cases us) (auto simp: Let_def)

lemma judged_twins:
  assumes "i \<in> judged b us" and "distinct us"
  shows "\<exists>j\<in>judged b us. j \<noteq> i \<and> b ! j = b ! i"
proof (cases us)
  case Nil
  with assms(1) show ?thesis by simp
next
  case (Cons a vs)
  define ts where "ts = filter (\<lambda>u. b ! u = b ! a) vs"
  have ts: "ts \<noteq> []" "judged b us = set (a # ts)"
    using assms(1) by (auto simp: Cons ts_def Let_def split: if_splits)
  then obtain t where "t \<in> set ts" by (cases ts) auto
  moreover have "a \<notin> set ts" "\<forall>t\<in>set ts. b ! t = b ! a" using assms(2) by (auto simp: Cons ts_def)
  ultimately show ?thesis
    using assms(1) unfolding ts(2) by (cases "i = a") auto
qed

text \<open>A mismatch needs a card that is in no pair, so a lost game leaves cards over.\<close>

lemma mismatch_unjudged:
  assumes "mismatches b us \<noteq> 0" and "distinct us"
  shows "\<exists>u\<in>set us. u \<notin> judged b us"
proof (cases us)
  case Nil
  with assms(1) show ?thesis by simp
next
  case (Cons a vs)
  with assms(1) obtain u where "u \<in> set vs" "b ! u \<noteq> b ! a" by (auto simp: filter_empty_conv)
  with assms(2) show ?thesis by (auto simp: Cons Let_def)
qed

section \<open>What holds in every game\<close>

definition memory_ok :: "memory_game \<Rightarrow> bool" where
  "memory_ok m \<longleftrightarrow> paired (faces m) \<and> found m \<subseteq> {..<16} \<and> hearts m \<le> 5 \<and>
     (\<forall>i\<in>found m. \<exists>j\<in>found m. j \<noteq> i \<and> faces m ! j = faces m ! i) \<and>
     (status m = Lost \<longleftrightarrow> hearts m = 0) \<and> (status m \<noteq> Running \<longrightarrow> shown m = Exit) \<and>
     (status m = Won \<longrightarrow> found m = {..<16}) \<and> (status m = Lost \<longrightarrow> found m \<noteq> {..<16})"

lemma new_game_ok: "new_game m \<Longrightarrow> memory_ok m"
  by (simp add: new_game_def memory_ok_def)

lemma found_pairs_grow:
  assumes "\<forall>i\<in>F. \<exists>j\<in>F. j \<noteq> i \<and> b ! j = b ! i" and "sorted_wrt (<) us"
  shows "\<forall>i\<in>F \<union> judged b us. \<exists>j\<in>F \<union> judged b us. j \<noteq> i \<and> b ! j = b ! i"
  using assms(1) judged_twins [of _ b us] strict_sorted_iff [of us] assms(2) by blast

interpretation memory: step_invariant memory_step memory_ok
proof
  fix m m' :: memory_game
  assume "memory_ok m" and "memory_step m m'"
  from this(2,1) show "memory_ok m'"
  proof cases
    case (navigate scr)
    with \<open>memory_ok m\<close> show ?thesis by (auto simp: memory_ok_def)
  next
    case (turn us n scr)
    with \<open>memory_ok m\<close> found_pairs_grow [of "found m" "faces m" us] judged_subset [of "faces m" us]
    show ?thesis by (auto simp: memory_ok_def)
  next
    case (win us n)
    with \<open>memory_ok m\<close> found_pairs_grow [of "found m" "faces m" us] show ?thesis by (auto simp: memory_ok_def)
  next
    case (lose us)
    have "hearts m \<noteq> 0" using lose \<open>memory_ok m\<close> by (auto simp: memory_ok_def)
    with lose have "mismatches (faces m) us \<noteq> 0" "distinct us" using strict_sorted_iff by auto
    then obtain u where "u \<in> set us" "u \<notin> judged (faces m) us" using mismatch_unjudged by blast
    with lose have "found m \<union> judged (faces m) us \<noteq> {..<16}" by blast
    with lose \<open>memory_ok m\<close> found_pairs_grow [of "found m" "faces m" us] judged_subset [of "faces m" us]
    show ?thesis by (auto simp: memory_ok_def)
  next
    case deal
    then show ?thesis by (simp add: new_game_ok)
  qed
qed

text \<open>Until a new deal pairs stay found, lives are not given back and the cards stay where they are.\<close>

definition same_deal :: "memory_game \<Rightarrow> memory_game \<Rightarrow> bool" where
  "same_deal m m' \<longleftrightarrow> faces m' = faces m \<and> found m \<subseteq> found m' \<and> hearts m' \<le> hearts m"

lemma step_same_deal: "memory_step m m' \<Longrightarrow> found m \<subseteq> {..<16} \<Longrightarrow> same_deal m m' \<or> new_game m'"
  by (cases rule: memory_step.cases) (auto simp: same_deal_def)

end
