(* ===== verification/Session.thy ===== *)
theory Session
  imports Outcome Memory_Game
begin

text \<open>
  The program refines the memory game: the abstraction \<open>memory_of\<close>, a lemma for each level of the
  program from the pair test to one pass of the loop, and the interpretation of the locale
  \<open>simulation\<close>.
\<close>

section \<open>The abstraction\<close>

text \<open>What the state of the program means: a matched card is a place found, the lives of a dead player are none.\<close>

definition cards_board :: "card list \<Rightarrow> (cardNumber \<times> cardSuit) list" where
  "cards_board cs = map (\<lambda>c. (num c, suit c)) cs"

definition places_found :: "card list \<Rightarrow> nat set" where
  "places_found cs = {i. i < length cs \<and> flipSuccess (cs ! i)}"

definition hearts_left :: "player \<Rightarrow> nat" where
  "hearts_left p = (if isAlive p then unat (lives p) else 0)"

definition memory_of :: "proj \<Rightarrow> memory_game" where
  "memory_of s = \<lparr>faces = cards_board (cardArray (gm s)), found = places_found (cardArray (gm s)),
     hearts = hearts_left (p1 (gm s)), shown = gs s,
     status = (if game_over s then Lost else if victory s then Won else Running)\<rparr>"

lemma memory_of_simps [simp]:
  "faces (memory_of s) = cards_board (cardArray (gm s))" "found (memory_of s) = places_found (cardArray (gm s))"
  "hearts (memory_of s) = hearts_left (p1 (gm s))" "shown (memory_of s) = gs s"
  "status (memory_of s) = (if game_over s then Lost else if victory s then Won else Running)"
  by (simp_all add: memory_of_def)

lemma cards_board_face: "cards_board cs = map (\<lambda>(x, y, n, t). (n, t)) (map face cs)"
  by (simp add: cards_board_def face_def)

lemma board_nth: "i < length cs \<Longrightarrow> j < length cs \<Longrightarrow> cards_board cs ! i = cards_board cs ! j \<longleftrightarrow> same_face (cs ! i) (cs ! j)"
  by (auto simp: cards_board_def same_face_def)

lemma calm_places:
  assumes "gcalm g g'"
  shows "cards_board (cardArray g') = cards_board (cardArray g)" "places_found (cardArray g') = places_found (cardArray g)"
proof -
  show "cards_board (cardArray g') = cards_board (cardArray g)"
    using assms by (simp add: cards_board_face gcalm_def gkeeps_def)
  show "places_found (cardArray g') = places_found (cardArray g)"
    using calm_nth [OF assms] calm_cards(1) [OF assms] by (auto simp: places_found_def)
qed

lemma calm_memory: "pcalm s s' \<Longrightarrow> memory_of s' = (memory_of s)\<lparr>shown := gs s'\<rparr>"
  using calm_places [of "gm s" "gm s'"] by (simp add: pcalm_def memory_of_def gcalm_def)

lemma same_memory: "same_outcome s s' \<Longrightarrow> memory_of s' = memory_of s"
  by (simp add: same_outcome_def memory_of_def)

section \<open>A deal\<close>

lemma card_codes_inj: "inj_on (\<lambda>(x, y). (getCardNumber x, getCardSuit y)) ({0..<13} \<times> {0..<4})"
proof -
  have "inj_on getCardNumber (set [0..12])" "inj_on getCardSuit (set [0..3])"
    by code_simp+
  moreover have "set [0..12] = {0..<13::int}" "set [0..3] = {0..<4::int}" by auto
  ultimately have "inj_on getCardNumber {0..<13}" "inj_on getCardSuit {0..<4}" by simp_all
  then show ?thesis by (auto simp: inj_on_def)
qed

lemma dealt_paired:
  assumes "dealt cs"
  shows "paired (cards_board cs)" "places_found cs = {}"
proof -
  let ?code = "\<lambda>(x, y). (getCardNumber x, getCardSuit y)"
  from assms obtain fs where fs: "length fs = 8" "distinct fs" "set fs \<subseteq> {0..<13} \<times> {0..<4}"
    and m: "mset cs = mset (map (\<lambda>(x, y). mk_card x y) (fs @ fs))" by (auto simp: dealt_def)
  have "mset (cards_board cs) = image_mset (\<lambda>c. (num c, suit c)) (mset cs)" by (simp add: cards_board_def)
  also have "\<dots> = mset (map ((\<lambda>c. (num c, suit c)) \<circ> (\<lambda>(x, y). mk_card x y)) (fs @ fs))"
    by (simp only: m mset_map image_mset.compositionality)
  also have "(\<lambda>c. (num c, suit c)) \<circ> (\<lambda>(x, y). mk_card x y) = ?code" by (auto simp: fun_eq_iff mk_card_def)
  finally have "mset (cards_board cs) = mset (map ?code fs @ map ?code fs)" by simp
  moreover have "distinct (map ?code fs)"
    using fs(2,3) card_codes_inj by (simp add: distinct_map inj_on_subset)
  ultimately show "paired (cards_board cs)" using fs(1) unfolding paired_def by (metis length_map)
  show "places_found cs = {}" using dealt_unmatched(1) [OF assms] by (auto simp: places_found_def)
qed

lemma dealt_new_game:
  assumes "dealt (cardArray (gm s))" and "isAlive (p1 (gm s))" and "lives (p1 (gm s)) = 5"
    and "gs s = Menu" and "\<not> game_over s" and "\<not> victory s"
  shows "new_game (memory_of s)"
  using assms dealt_paired [OF assms(1)] by (simp add: new_game_def hearts_left_def)

section \<open>A turn\<close>

text \<open>The pair test before card \<open>i\<close>: what has been judged so far of the cards that were open in \<open>s\<close>.\<close>

definition open_places :: "nat \<Rightarrow> proj \<Rightarrow> nat list" where
  "open_places i s = filter (\<lambda>k. open_card (cardArray (gm s) ! k)) [0..<i]"

definition judging :: "proj \<Rightarrow> nat \<Rightarrow> nat \<times> nat \<times> proj \<times> 'w \<Rightarrow> bool" where
  "judging s i st \<longleftrightarrow> (case st of (n, p, t, _) \<Rightarrow>
     (case open_places i s of [] \<Rightarrow> n = 0 | a # _ \<Rightarrow> n = 1 \<and> p = a) \<and>
     length (cardArray (gm t)) = 16 \<and> (\<forall>k. i \<le> k \<longrightarrow> cardArray (gm t) ! k = cardArray (gm s) ! k) \<and>
     faces (memory_of t) = faces (memory_of s) \<and>
     found (memory_of t) = found (memory_of s) \<union> judged (faces (memory_of s)) (open_places i s) \<and>
     (\<exists>k\<le>mismatches (faces (memory_of s)) (open_places i s). hearts (memory_of t) = hearts (memory_of s) - k) \<and>
     player_inv t \<and> gs t = (if game_over t then Exit else gs s) \<and> victory t = victory s)"

lemma open_places_Suc: "open_places (Suc i) s = open_places i s @ (if open_card (cardArray (gm s) ! i) then [i] else [])"
  by (simp add: open_places_def)

lemma open_places_sorted: "sorted_wrt (<) (open_places i s)"
  by (simp add: open_places_def sorted_wrt_filter)

lemma open_places_unfound: "i \<le> length (cardArray (gm s)) \<Longrightarrow> set (open_places i s) \<subseteq> {..<i} - found (memory_of s)"
  by (auto simp: open_places_def open_card_def places_found_def)

lemma set_success_memory:
  assumes "i < length (cardArray (gm t))" and "p < length (cardArray (gm t))"
  shows "cards_board (cardArray (set_success i p (gm t))) = cards_board (cardArray (gm t))"
    and "places_found (cardArray (set_success i p (gm t))) = places_found (cardArray (gm t)) \<union> {p, i}"
proof -
  have l: "length (cardArray (set_success i p (gm t))) = length (cardArray (gm t))" by (simp add: set_success_def Let_def)
  show "cards_board (cardArray (set_success i p (gm t))) = cards_board (cardArray (gm t))"
    using set_success_gkeeps [of "gm t" i p] by (simp add: cards_board_face gkeeps_def)
  show "places_found (cardArray (set_success i p (gm t))) = places_found (cardArray (gm t)) \<union> {p, i}"
    using assms by (auto simp: places_found_def l set_success_nth [OF assms])
qed

text \<open>A life lost is a heart less; a dead player has none to lose, whatever the counter says.\<close>

lemma lose_life_hearts:
  assumes "player_inv t"
  shows "hearts_left (p1 (gm (lose_life t))) = hearts_left (p1 (gm t)) - 1"
    and "game_over (lose_life t) \<longleftrightarrow> game_over t \<or> lives (p1 (gm t)) = 1"
    and "gs (lose_life t) = (if game_over (lose_life t) then Exit else gs t)"
proof -
  have u: "unat (lives (p1 (gm t)) - 1) = unat (lives (p1 (gm t))) - 1" if "lives (p1 (gm t)) \<noteq> 0"
    using that by (rule unat_minus_one)
  have "lives (p1 (gm t)) - 1 = 0 \<longleftrightarrow> lives (p1 (gm t)) = 1" by simp
  then show "game_over (lose_life t) \<longleftrightarrow> game_over t \<or> lives (p1 (gm t)) = 1" by (simp add: lose_life_def Let_def)
  show "hearts_left (p1 (gm (lose_life t))) = hearts_left (p1 (gm t)) - 1"
    using assms u by (auto simp: lose_life_def Let_def hearts_left_def player_inv_def)
  show "gs (lose_life t) = (if game_over (lose_life t) then Exit else gs t)"
    using assms by (auto simp: lose_life_def Let_def player_inv_def)
qed

lemma judgingD:
  assumes "judging s i (n, p, t, w)"
  shows "open_places i s = [] \<Longrightarrow> n = 0" "open_places i s = a # us \<Longrightarrow> n = 1 \<and> p = a"
    "length (cardArray (gm t)) = 16" "i \<le> k \<Longrightarrow> cardArray (gm t) ! k = cardArray (gm s) ! k"
    "cards_board (cardArray (gm t)) = faces (memory_of s)"
    "places_found (cardArray (gm t)) = found (memory_of s) \<union> judged (faces (memory_of s)) (open_places i s)"
    "\<exists>k\<le>mismatches (faces (memory_of s)) (open_places i s). hearts_left (p1 (gm t)) = hearts (memory_of s) - k"
    "player_inv t" "gs t = (if game_over t then Exit else gs s)" "victory t = victory s"
  using assms by (auto simp: judging_def)

lemma judging_pair:
  assumes j: "judging s i (n, a, t, w)" and us: "open_places i s = a # us" "open_places (Suc i) s = a # us @ [i]"
    and b: "i < 16" "a < i" and same: "same_face (cardArray (gm t) ! i) (cardArray (gm t) ! a)"
  shows "judging s (Suc i) (1, a, t\<lparr>gm := set_success i a (gm t)\<rparr>, w)"
proof -
  note J = judgingD [OF j]
  let ?t = "t\<lparr>gm := set_success i a (gm t)\<rparr>"
  have l: "i < length (cardArray (gm t))" "a < length (cardArray (gm t))" using J(3) b by auto
  have "faces (memory_of s) ! i = faces (memory_of s) ! a" using board_nth [OF l] same J(5) by simp
  moreover have "p1 (gm ?t) = p1 (gm t)" "length (cardArray (gm ?t)) = 16"
    using J(3) by (simp_all add: set_success_def Let_def)
  moreover have "\<forall>k. Suc i \<le> k \<longrightarrow> cardArray (gm ?t) ! k = cardArray (gm s) ! k"
    using J(4) b by (simp add: set_success_nth [OF l])
  ultimately show ?thesis
    unfolding judging_def us(2) using set_success_memory [OF l] J(5-10) us(1)
    by (simp add: judged_snoc mismatches_snoc player_inv_def del: judged.simps mismatches.simps)
qed

lemma judging_differ:
  assumes j: "judging s i (n, a, t, w)" and us: "open_places i s = a # us" "open_places (Suc i) s = a # us @ [i]"
    and b: "i < 16" "a < i" and differ: "\<not> same_face (cardArray (gm t) ! i) (cardArray (gm t) ! a)"
    and u: "u = t \<or> u = lose_life t"
  shows "judging s (Suc i) (1, a, u\<lparr>gm := set_flipping True a (set_flipping True i (gm u))\<rparr>, w')"
proof -
  note J = judgingD [OF j]
  let ?g = "set_flipping True a (set_flipping True i (gm u))"
  have l: "i < length (cardArray (gm t))" "a < length (cardArray (gm t))" using J(3) b by auto
  have b: "faces (memory_of s) ! i \<noteq> faces (memory_of s) ! a" using board_nth [OF l] differ J(5) by simp
  have u1: "player_inv u" "cardArray (gm u) = cardArray (gm t)" "victory u = victory s" "gs u = (if game_over u then Exit else gs s)"
    using u lose_life_player [OF J(8)] lose_life_hearts(2,3) [OF J(8)] J(8-10) by (auto split: if_splits)
  have c: "gcalm (gm u) ?g" by (blast intro: gcalm_steps gcalm_trans)
  have "\<exists>k\<le>mismatches (faces (memory_of s)) (a # us) + 1. hearts_left (p1 (gm u)) = hearts (memory_of s) - k"
    using J(7) lose_life_hearts(1) [OF J(8)] u unfolding us(1)
    by (auto intro: exI [of _ "_ + 1"] le_SucI simp del: mismatches.simps)
  moreover have "\<forall>k. Suc i \<le> k \<longrightarrow> cardArray ?g ! k = cardArray (gm s) ! k"
    using J(4) u1(2) \<open>a < i\<close> by (simp add: set_flipping_def nth_list_update)
  moreover have "length (cardArray ?g) = 16" "cards_board (cardArray ?g) = faces (memory_of s)"
      "places_found (cardArray ?g) = places_found (cardArray (gm t))" "p1 ?g = p1 (gm u)"
    using calm_cards(1) [OF c] calm_places [OF c] u1(2) J(3,5) c by (simp_all add: gcalm_def)
  ultimately show ?thesis
    using u1(1,3,4) J(6) b unfolding judging_def us
    by (auto simp: judged_snoc mismatches_snoc player_inv_def simp del: judged.simps mismatches.simps)
qed

lemma judging_step:
  assumes "judging s i st" and "i < 16"
  shows "judging s (Suc i) (match_step K i st)"
proof -
  obtain n p t w where st: "st = (n, p, t, w)" by (metis prod.exhaust)
  let ?cs = "cardArray (gm t)"
  note j = assms(1) [unfolded st] and J = judgingD [OF assms(1) [unfolded st]]
  have ci: "?cs ! i = cardArray (gm s) ! i" using J(4) by simp
  consider (skip) "\<not> open_card (?cs ! i)" | (first) "open_card (?cs ! i)" "open_places i s = []"
    | (more) a us where "open_card (?cs ! i)" "open_places i s = a # us" by (cases "open_places i s") auto
  then show ?thesis
  proof cases
    case skip
    then have "match_step K i st = st" by (auto simp: st match_step_def open_card_def Let_def)
    moreover have "open_places (Suc i) s = open_places i s" using skip ci by (simp add: open_places_Suc)
    ultimately show ?thesis using j by (auto simp: judging_def st)
  next
    case first
    then have "match_step K i st = (1, i, t, w)" "open_places (Suc i) s = [i]"
      using J(1) ci by (simp_all add: st match_step_def open_card_def open_places_Suc)
    then show ?thesis using first(2) J(3-10) by (auto simp: judging_def)
  next
    case more
    have "a \<in> set (open_places i s)" using more(2) by simp
    then have "a < i" by (auto simp: open_places_def)
    have np: "n = 1" "p = a" using J(2) [OF more(2)] by auto
    have us: "open_places (Suc i) s = a # us @ [i]" using more ci by (simp add: open_places_Suc)
    define u where "u = (if isFlipping (?cs ! i) then t else lose_life t)"
    have "match_step K i st = (1, a, t\<lparr>gm := set_success i a (gm t)\<rparr>, w)" if "same_face (?cs ! i) (?cs ! a)"
      using that more(1) np by (simp add: st match_step_def open_card_def same_face_def Let_def)
    moreover have "\<exists>w'. match_step K i st = (1, a, u\<lparr>gm := set_flipping True a (set_flipping True i (gm u))\<rparr>, w')"
      if "\<not> same_face (?cs ! i) (?cs ! a)"
      using that more(1) np by (auto simp: st match_step_def open_card_def same_face_def u_def Let_def)
    moreover have "u = t \<or> u = lose_life t" by (simp add: u_def)
    ultimately show ?thesis
      using judging_pair [OF j [unfolded np] more(2) us assms(2) \<open>a < i\<close>]
        judging_differ [OF j [unfolded np] more(2) us assms(2) \<open>a < i\<close>] by metis
  qed
qed

lemma judging_fold:
  assumes "judging s 0 st" and "n \<le> 16"
  shows "judging s n (fold (match_step K) [0..<n] st)"
  using assms(2) by (induction n) (simp_all add: assms(1) judging_step)

lemma match_turn:
  assumes "\<not> game_over s" and "player_inv s" and len: "length (cardArray (gm s)) = 16" and m: "match_cards K (s, w) = (s', w')"
  obtains us k where "sorted_wrt (<) us" "set us \<subseteq> {..<16} - found (memory_of s)"
    "found (memory_of s') = found (memory_of s) \<union> judged (faces (memory_of s)) us" "faces (memory_of s') = faces (memory_of s)"
    "k \<le> mismatches (faces (memory_of s)) us" "hearts (memory_of s') = hearts (memory_of s) - k"
    "player_inv s'" "gs s' = (if game_over s' then Exit else gs s)" "victory s' = victory s" "length (cardArray (gm s')) = 16"
proof (cases "isAnyCardFlipping s")
  case True
  with m have "s' = s" by (auto simp: match_cards_def)
  with that [of "[]" 0] assms(1-3) show ?thesis by simp
next
  case False
  obtain n q t u where fd: "fold (match_step K) [0..<16] (0, 0, s, w) = (n, q, t, u)" by (metis prod.exhaust)
  with False m have s': "s' = t" "w' = u" by (auto simp: match_cards_def)
  have "judging s 0 (0, 0, s, w)" using assms(1-3) by (auto simp: judging_def open_places_def)
  from judging_fold [OF this, of 16 K] fd have j: "judging s 16 (n, q, t, u)" by simp
  from judgingD(7) [OF j] obtain k where "k \<le> mismatches (faces (memory_of s)) (open_places 16 s)"
    "hearts (memory_of s') = hearts (memory_of s) - k" using s' by auto
  with that [of "open_places 16 s" k] open_places_sorted open_places_unfound [of 16 s] judgingD [OF j] s' len show ?thesis by auto
qed

text \<open>A pass of the pair test followed by the test for victory is a turn of the game.\<close>

lemma match_check_turn:
  assumes o: "outcome_inv s" and g: "gs s \<in> {In_Game, Pause}" and len: "length (cardArray (gm s)) = 16"
    and m: "match_cards K (s, w) = (s', w')"
  shows "memory_step ((memory_of s)\<lparr>shown := In_Game\<rparr>) (memory_of (check_victory s'))"
proof -
  let ?m = "(memory_of s)\<lparr>shown := In_Game\<rparr>"
  have r: "\<not> game_over s" "\<not> victory s" "player_inv s" using o g by (auto simp: outcome_inv_def player_inv_def)
  obtain us k where us: "sorted_wrt (<) us" "set us \<subseteq> {..<16} - found (memory_of s)"
    and f: "found (memory_of s') = found (memory_of s) \<union> judged (faces (memory_of s)) us" "faces (memory_of s') = faces (memory_of s)"
    and k: "k \<le> mismatches (faces (memory_of s)) us" "hearts (memory_of s') = hearts (memory_of s) - k"
    and p: "player_inv s'" "gs s' = (if game_over s' then Exit else gs s)" "victory s' = victory s" "length (cardArray (gm s')) = 16"
    by (rule match_turn [OF r(1,3) len m])
  have o': "outcome_inv (check_victory s')" using match_check_outcome [OF o _ len m] g by auto
  have cv: "memory_of (check_victory s') = (memory_of s')\<lparr>shown := gs (check_victory s'),
      status := if game_over s' then Lost else if victory (check_victory s') then Won else Running\<rparr>"
    by (simp add: memory_of_def check_victory_def Let_def)
  have h: "hearts (memory_of s') = 0 \<longleftrightarrow> game_over s'"
    using p(1) by (auto simp: player_inv_def hearts_left_def unat_eq_0)
  consider (lost) "game_over s'" | (won) "\<not> game_over s'" "victory (check_victory s')"
    | (on) "\<not> game_over s'" "\<not> victory (check_victory s')" by blast
  then show ?thesis
  proof cases
    case lost
    have "gs (check_victory s') = Exit" using lost p(2) by (simp add: check_victory_def Let_def)
    then have e: "memory_of (check_victory s') =
        ?m\<lparr>found := found ?m \<union> judged (faces ?m) us, hearts := 0, shown := Exit, status := Lost\<rparr>"
      using cv f h lost by (simp add: memory_of_def)
    show ?thesis unfolding e by (rule memory_step.lose) (use us k h lost r in auto)
  next
    case won
    have v: "gs (check_victory s') = Exit" "list_all flipSuccess (cardArray (gm s'))"
      using won(2) o' by (auto simp: outcome_inv_def check_victory_def Let_def split: if_splits)
    then have all: "found (memory_of s') = {..<16}" using p(4) by (auto simp: places_found_def list_all_length)
    have e: "memory_of (check_victory s') = ?m\<lparr>found := {..<16}, hearts := hearts ?m - k, shown := Exit, status := Won\<rparr>"
      using cv f k won v all by (simp add: memory_of_def)
    show ?thesis unfolding e by (rule memory_step.win [of _ us]) (use us k h f all won r in auto)
  next
    case on
    have "gs (check_victory s') = gs s" using on p by (auto simp: check_victory_def Let_def split: if_splits)
    then have e: "memory_of (check_victory s') =
        ?m\<lparr>found := found ?m \<union> judged (faces ?m) us, hearts := hearts ?m - k, shown := gs s\<rparr>"
      using cv f k on r by (simp add: memory_of_def)
    show ?thesis unfolding e by (rule memory_step.turn) (use us k h on r g in auto)
  qed
qed

section \<open>Ticks and iterations\<close>

abbreviation memory_move :: "proj \<Rightarrow> proj \<Rightarrow> bool" where
  "memory_move s s' \<equiv> memory_of s' = memory_of s \<or> memory_step (memory_of s) (memory_of s')"

lemma navigate_move:
  assumes "outcome_inv s" and "gs s \<noteq> Exit" and "memory_of s' = (memory_of s)\<lparr>shown := gs s'\<rparr>" and "gs s' \<in> insert (gs s) (routes (gs s))"
  shows "memory_move s s'"
proof (cases "gs s' = gs s")
  case True
  with assms(3) show ?thesis by (simp add: memory_of_def)
next
  case False
  have "status (memory_of s) = Running" using assms(1,2) by (auto simp: outcome_inv_def player_inv_def)
  with False assms(3,4) memory_step.navigate [of "memory_of s" "gs s'"] show ?thesis by simp
qed

lemma game_tick_move:
  assumes tick: "game_tick K ju (s, w) = Inr (s', w')" and o: "outcome_inv s" and g: "gs s = In_Game" and len: "length (cardArray (gm s)) = 16"
  shows "memory_move s s'"
proof (cases "initGame s")
  case True
  then have "pcalm s s' \<and> gs s' = gs s" by (rule deal_in_calm [OF tick])
  then show ?thesis using navigate_move [OF o, of s'] calm_memory [of s s'] g by simp
next
  case False
  then have "game_play K ju (s, w) = Inr (s', w')" using tick by (simp add: game_tick_def)
  then obtain s5 s6 where c: "pcalm s s5" "gs s5 \<in> {In_Game, Pause}" "match_cards K (s5, w) = (s6, w')" "s' = check_victory s6"
    using g by (rule game_play_calm)
  have "outcome_inv s5" using calm_outcome [OF c(1) o] g by simp
  moreover have "length (cardArray (gm s5)) = 16" using c(1) calm_cards(1) len by (auto simp: pcalm_def)
  ultimately have "memory_step ((memory_of s5)\<lparr>shown := In_Game\<rparr>) (memory_of s')"
    using match_check_turn [OF _ c(2) _ c(3)] c(4) by simp
  moreover have "(memory_of s5)\<lparr>shown := In_Game\<rparr> = memory_of s" using calm_memory [OF c(1)] g by (simp add: memory_of_def)
  ultimately show ?thesis by simp
qed

lemma exit_tick_move:
  assumes K: "rand_ok K" "rand_fair K" and o: "outcome_inv s" and g: "gs s = Exit" and len: "length (cardArray (gm s)) = 16"
    and tick: "exit_tick K ju (s, w) = Some (Inr (s', w'))"
  shows "memory_move s s'"
proof -
  obtain s2 s3 w3 where c: "pcalm s s2 \<and> gs s2 = gs s" "pcalm s3 s' \<and> gs s' = gs s3"
    and m: "if game_over s \<or> victory s then restart K (s2, w) = Some (Inr (s3, w3)) else s3 = s2\<lparr>condition := False\<rparr>"
    by (rule exit_tick_calm [OF tick])
  have e: "memory_of s2 = memory_of s" "memory_of s' = memory_of s3" using calm_memory c by (simp_all add: memory_of_def)
  have l2: "length (cardArray (gm s2)) = 16" using len c(1) calm_cards(1) by (auto simp: pcalm_def)
  show ?thesis
  proof (cases "game_over s \<or> victory s")
    case True
    with m have "s3 = s2 \<or> new_game (memory_of s3)" using restart_fresh [OF K l2] dealt_new_game by auto
    moreover have "memory_step (memory_of s) (memory_of s3)" if "new_game (memory_of s3)"
      using memory_step.deal [OF _ _ that, of "memory_of s"] True g by (auto split: if_splits)
    ultimately show ?thesis using e by auto
  next
    case False
    then have "memory_of s3 = memory_of s2" using m by (simp add: memory_of_def)
    with e show ?thesis by simp
  qed
qed

lemma state_tick_move:
  assumes K: "rand_ok K" "rand_fair K" and o: "outcome_inv s" and len: "length (cardArray (gm s)) = 16"
    and tick: "state_tick K ju (s, w) = Some (Inr (s', w'))"
  shows "memory_move s s'"
proof -
  have quiet: "memory_move s s'" if "pcalm s t" "gs t = gs s" "pcalm t s'" "gs s \<noteq> Exit" "gs s' \<in> insert (gs s) (routes (gs s))" for t
    using navigate_move [OF o that(4) _ that(5)] calm_memory [OF pcalm_trans [OF that(1,3)]] by simp
  show ?thesis
  proof (cases "gs s")
    case Menu
    with tick obtain t where "pcalm s t" "gs t = gs s" "s' = menu_buttons t"
      using quiet_tick_parts(1) by (fastforce simp: state_tick_def)
    with quiet buttons_calm(1) [of t] button_follow(1) [of t] Menu show ?thesis by auto
  next
    case In_Game
    with tick have "game_tick K ju (s, w) = Inr (s', w')" by (simp add: state_tick_def)
    then show ?thesis by (rule game_tick_move [OF _ o In_Game len])
  next
    case Pause
    with tick obtain t where "pcalm s t" "gs t = gs s" "s' = pause_buttons t"
      using quiet_tick_parts(2) by (fastforce simp: state_tick_def)
    with quiet buttons_calm(2) [of t] button_follow(2) [of t] Pause show ?thesis by auto
  next
    case Instructions
    with tick obtain t where "pcalm s t" "gs t = gs s" "s' = instructions_keys t"
      using quiet_tick_parts(3) by (fastforce simp: state_tick_def andthen_eq_Inr)
    with quiet buttons_calm(3) [of t] button_follow(3) [of t] Instructions show ?thesis by auto
  next
    case Exit
    with tick have "exit_tick K ju (s, w) = Some (Inr (s', w'))" by (simp add: state_tick_def)
    then show ?thesis by (rule exit_tick_move [OF K o Exit len])
  qed (use tick in \<open>auto simp: state_tick_def\<close>)
qed

lemma iteration_move:
  assumes K: "rand_ok K" "rand_fair K" and len: "length (cardArray (gm s)) = 16" and o: "outcome_inv s"
    and it: "proj_iteration K (s, w) = Some (Inr (s', w'))"
  shows "memory_move s s'"
  using it
proof (cases rule: iteration_cases)
  case idle
  then show ?thesis using same_memory by blast
next
  case (tick ju t u t' u')
  have "outcome_inv t" "length (cardArray (gm t)) = 16"
    using tick(1) o len same_outcome_inv [OF tick(1)] by (simp_all add: same_outcome_def)
  then have "memory_move t t'" using state_tick_move [OF K _ _ tick(2)] by blast
  moreover have "memory_of s' = memory_of t'" using calm_memory [of t' s'] tick(3) by (simp add: memory_of_def)
  ultimately show ?thesis using same_memory [OF tick(1)] by simp
qed

interpretation session: simulation "proj_step K"
    "\<lambda>(s, w). table_inv mi im s \<and> outcome_inv s \<and> rand_ok K \<and> rand_fair K \<and>
       15 \<le> uint (XResolution mi) \<and> 15 \<le> uint (YResolution mi)"
    memory_step "\<lambda>(s, w). memory_of s" for K mi im
proof
  fix st st' :: "proj \<times> 'a"
  assume i: "case st of (s, w) \<Rightarrow> table_inv mi im s \<and> outcome_inv s \<and> rand_ok K \<and> rand_fair K \<and>
    15 \<le> uint (XResolution mi) \<and> 15 \<le> uint (YResolution mi)" and "proj_step K st st'"
  from this(2) obtain s w s' w' where st: "st = (s, w)" "st' = (s', w')" and it: "proj_iteration K (s, w) = Some (Inr (s', w'))"
    by cases
  have "memory_move s s'" using iteration_move [OF _ _ _ _ it] table_length i by (auto simp: st)
  then show "(case st' of (s, w) \<Rightarrow> memory_of s) = (case st of (s, w) \<Rightarrow> memory_of s) \<or>
      memory_step (case st of (s, w) \<Rightarrow> memory_of s) (case st' of (s, w) \<Rightarrow> memory_of s)"
    by (simp add: st)
qed

section \<open>Properties\<close>

lemma session_starts:
  assumes "rand_ok K" and "rand_fair K" and "machine_ok K mi" and "svga mi"
    and "length (cardArray (gm s0)) = 16" and "length (otherSide (gm s0)) = 16"
  obtains st1 s2 w2 where "proj_setup_game K (s0, w0) = Some (Inr st1)" "proj_setup_devices K st1 = Inr (Inr s2, w2)"
    "new_game (memory_of s2)" "outcome_inv s2" "table_inv mi (images (gm s2)) s2"
proof -
  obtain st1 s2 w2 where 1: "proj_setup_game K (s0, w0) = Some (Inr st1)" "proj_setup_devices K st1 = Inr (Inr s2, w2)"
    and f: "fresh_game K (gm s2)" "gs s2 = Menu" "\<not> game_over s2" "\<not> victory s2"
    and inv: "\<And>s w. (proj_step K)\<^sup>*\<^sup>* (s2, w2) (s, w) \<Longrightarrow> table_inv mi (images (gm s2)) s"
    using program_runs [OF assms] by blast
  have d: "dealt (cardArray (gm s2))" "isAlive (p1 (gm s2))" "lives (p1 (gm s2)) = 5" using f(1) by (auto simp: fresh_game_def)
  show thesis
    using that [OF 1] dealt_new_game [OF d f(2-4)] fresh_outcome [OF d f(3,4)] inv [OF rtranclp.rtrancl_refl] by blast
qed

text \<open>C2: The program plays the memory game and nothing else: it starts with a new game on the menu, and in every state it can
  reach each pass of its loop is a step of the abstract game (to another screen, a turn that finds at most the pair of the first
  open card and costs at most a life for each card that differs from it, a victory with all pairs found, a defeat with the last
  life, a new deal after either) or leaves the game as it is; so all that holds in every abstract game holds in the
  program: at most five lives, none exactly after a defeat, and only pairs are found.  (The lives of a dead player count as
  none, also when the counter itself has wrapped around.)\<close>

lemma session_refines_memory_game:
  assumes "rand_ok K" and "rand_fair K" and "machine_ok K mi" and "svga mi"
    and "length (cardArray (gm s0)) = 16" and "length (otherSide (gm s0)) = 16"
  shows "\<exists>st1 s2 w2. proj_setup_game K (s0, w0) = Some (Inr st1) \<and> proj_setup_devices K st1 = Inr (Inr s2, w2) \<and>
    new_game (memory_of s2) \<and>
    (\<forall>s w. (proj_step K)\<^sup>*\<^sup>* (s2, w2) (s, w) \<longrightarrow> memory_step\<^sup>*\<^sup>* (memory_of s2) (memory_of s) \<and> memory_ok (memory_of s) \<and>
      (\<forall>s' w'. proj_step K (s, w) (s', w') \<longrightarrow> memory_of s' = memory_of s \<or> memory_step (memory_of s) (memory_of s')))"
proof -
  obtain st1 s2 w2 where 1: "proj_setup_game K (s0, w0) = Some (Inr st1)" "proj_setup_devices K st1 = Inr (Inr s2, w2)"
    and n: "new_game (memory_of s2)" and i: "outcome_inv s2" "table_inv mi (images (gm s2)) s2"
    by (rule session_starts [OF assms])
  let ?inv = "\<lambda>(s, w). table_inv mi (images (gm s2)) s \<and> outcome_inv s \<and> rand_ok K \<and> rand_fair K \<and>
       15 \<le> uint (XResolution mi) \<and> 15 \<le> uint (YResolution mi)"
  have inv2: "?inv (s2, w2)" using i assms(1,2,4) by (simp add: svga_def)
  have "memory_step\<^sup>*\<^sup>* (memory_of s2) (memory_of s)" "memory_ok (memory_of s)"
    "proj_step K (s, w) (s', w') \<longrightarrow> memory_of s' = memory_of s \<or> memory_step (memory_of s) (memory_of s')"
    if "(proj_step K)\<^sup>*\<^sup>* (s2, w2) (s, w)" for s w s' w'
    using session.run_simulates [OF that inv2] session.transfer [OF that inv2 memory.step_invariant_axioms] new_game_ok [OF n]
      session.simulates [OF outcome.run_keeps [OF that inv2], of "(s', w')"] by auto
  then show ?thesis using 1 n by blast
qed

theorem session_refines_memory_game_witness:
  "\<exists>st1 s2 w2. proj_setup_game pc_kernel (proj_globals, sim0) = Some (Inr st1) \<and>
     proj_setup_devices pc_kernel st1 = Inr (Inr s2, w2) \<and> memory_ok (memory_of s2) \<and> hearts (memory_of s2) = 5"
proof -
  obtain st1 s2 w2 where "proj_setup_game pc_kernel (proj_globals, sim0) = Some (Inr st1)"
      "proj_setup_devices pc_kernel st1 = Inr (Inr s2, w2)" "new_game (memory_of s2)"
      "\<forall>s w. (proj_step pc_kernel)\<^sup>*\<^sup>* (s2, w2) (s, w) \<longrightarrow> memory_ok (memory_of s)"
    using session_refines_memory_game [OF pc_kernel_ok proj_globals_tables, of sim0] by blast
  then show ?thesis by (auto simp only: new_game_def intro!: exI)
qed

end
