(* ===== verification/Shutdown.thy ===== *)
theory Shutdown
  imports Screens
begin

text \<open>
  Interrupt lines from the start of the program to its end.  The kernel's table of subscribed lines is an
  observation of the world (\<open>irq_ledger\<close>); every call of the game and of the loop leaves it and the
  hooks in the drivers alone, so that the shutdown of \<open>proj.c\<close> releases what the set-up subscribed.
  Together with the last tick this makes \<open>proj_main_loop\<close> as a whole return.
\<close>

unbundle bit_operations_syntax

section \<open>The ledger of the interrupt lines\<close>

text \<open>
  \<open>held\<close> is what the kernel knows: the line subscribed under each hook.  Only the two calls that subscribe
  and release change it; a hook that is held can be released.
\<close>

definition quiet_calls :: "'w kernel \<Rightarrow> ('w \<Rightarrow> 'o) \<Rightarrow> bool" where
  "quiet_calls K obs \<longleftrightarrow>
     (\<forall>p w. obs (snd (sys_inb K p w)) = obs w) \<and> (\<forall>p v w. obs (snd (sys_outb K p v w)) = obs w) \<and>
     (\<forall>t w. obs (tickdelay K t w) = obs w) \<and> (\<forall>w. obs (snd (driver_receive K w)) = obs w) \<and>
     (\<forall>n w. obs (sleep K n w) = obs w) \<and> (\<forall>w. obs (snd (rand K w)) = obs w) \<and> (\<forall>w. obs (srand_time K w) = obs w) \<and>
     (\<forall>n w. obs (snd (malloc K n w)) = obs w) \<and> (\<forall>a b w. obs (snd (sys_privctl_add_mem K a b w)) = obs w) \<and>
     (\<forall>a n w. obs (snd (vm_map_phys K a n w)) = obs w) \<and> (\<forall>a b n w. obs (snd (sys_int86 K a b n w)) = obs w) \<and>
     (\<forall>m i w. obs (snd (vbe_get_mode_info K m i w)) = obs w) \<and> (\<forall>m t w. obs (snd (xpm_load K m t w)) = obs w) \<and>
     (\<forall>w. obs (snd (mouse_enable_data_reporting K w)) = obs w) \<and> (\<forall>w. obs (snd (vg_exit K w)) = obs w)"

definition irq_ledger :: "'w kernel \<Rightarrow> ('w \<Rightarrow> int \<rightharpoonup> int) \<Rightarrow> bool" where
  "irq_ledger K held \<longleftrightarrow> quiet_calls K held \<and>
     (\<forall>irq pol line w r h w'. sys_irqsetpolicy K irq pol line w = ((r, h), w') \<longrightarrow>
        (if r = 0 then held w h = None \<and> held w' = (held w)(h \<mapsto> irq) else held w' = held w)) \<and>
     (\<forall>h w r h' w'. sys_irqrmpolicy K h w = ((r, h'), w') \<longrightarrow>
        (if r = 0 then held w' = (held w)(h := None) else held w' = held w) \<and> (held w h \<noteq> None \<longrightarrow> r = 0))"

lemma quiet_simps:
  assumes "quiet_calls K obs"
  shows "obs (snd (sys_inb K p w)) = obs w" "obs (snd (sys_outb K p v w)) = obs w"
    "obs (tickdelay K t w) = obs w" "obs (snd (driver_receive K w)) = obs w" "obs (sleep K n w) = obs w"
    "obs (snd (rand K w)) = obs w" "obs (srand_time K w) = obs w" "obs (snd (malloc K m w)) = obs w"
    "obs (snd (sys_privctl_add_mem K a b w)) = obs w" "obs (snd (vm_map_phys K a m w)) = obs w"
    "obs (snd (sys_int86 K a' b' c' w)) = obs w" "obs (snd (vbe_get_mode_info K mo mi w)) = obs w"
    "obs (snd (xpm_load K x ty w)) = obs w" "obs (snd (mouse_enable_data_reporting K w)) = obs w"
    "obs (snd (vg_exit K w)) = obs w" "obs (snd (util_sys_inb K p old w)) = obs w"
  using assms by (simp_all add: quiet_calls_def util_sys_inb_def split_beta)

section \<open>Calls that leave the ledger alone\<close>

lemma get_date_quiet: "quiet_calls K obs \<Longrightarrow> obs (snd (get_date K d w)) = obs w"
  by (simp add: get_date_def read_rtc_reg_def split_beta quiet_simps)

lemma load_sprites_quiet: "quiet_calls K obs \<Longrightarrow> obs (snd (snd (load_sprites K g v w))) = obs w"
  by (simp add: load_sprites_def split_beta quiet_simps)

lemma vg_start_quiet: "quiet_calls K obs \<Longrightarrow> vg_start K m v w = Inr (r, v', w') \<Longrightarrow> obs w' = obs w"
  by (auto simp: vg_start_def Let_def split_beta quiet_simps split: if_splits)

lemma kbc_ih_quiet: "quiet_calls K obs \<Longrightarrow> obs (snd (kbc_ih K k w)) = obs w"
  by (simp add: kbc_ih_def split_beta quiet_simps)

lemma pick_faces_quiet:
  assumes "quiet_calls K obs" and "pick_faces K i f s w = Some y"
  shows "obs (snd (snd y)) = obs w"
  using pick_faces.raw_induct [where P = "\<lambda>K i f s w y. quiet_calls K obs \<longrightarrow> obs (snd (snd y)) = obs w", OF _ assms(2)] assms(1)
  by (fastforce simp: split_beta quiet_simps split: if_splits)

lemma shuffle_quiet:
  assumes "quiet_calls K obs" and "for_each is (shuffle_step K) st = Inr st'"
  shows "obs (snd st') = obs (snd st)"
  using assms(2)
proof (induction "is" arbitrary: st)
  case (Cons i "is")
  then obtain st1 where s: "shuffle_step K i st = Inr st1" "for_each is (shuffle_step K) st1 = Inr st'"
    by (auto simp: andthen_eq_Inr)
  have "obs (snd st1) = obs (snd st)"
    using s(1) by (auto simp: shuffle_step_def Let_def split_beta quiet_simps [OF assms(1)] split: if_splits)
  with Cons.IH [OF s(2)] show ?case by simp
qed simp

lemma deal_quiet:
  assumes "quiet_calls K obs" and "initialize_game_cards K cs w = Some (Inr st)"
  shows "obs (snd st) = obs w"
  using assms(2)
  by (auto simp: initialize_game_cards_def Let_def split_beta quiet_simps [OF assms(1)]
      dest!: pick_faces_quiet [OF assms(1)] shuffle_quiet [OF assms(1)] split: option.splits)

lemma draw_word_quiet:
  assumes "quiet_calls K obs" and "draw_word K ju x y ls st = Inr st'"
  shows "obs (snd st') = obs (snd st)"
  using assms(2)
proof (induction ls arbitrary: x st)
  case (Cons l ls)
  then obtain st1 where s: "draw_letter K ju x y l st = Inr st1" "draw_word K ju (x + (LETTER_WIDTH + 5)) y ls st1 = Inr st'"
    by (auto simp: andthen_eq_Inr)
  have "obs (snd st1) = obs (snd st)"
    using s(1) by (auto simp: draw_letter_def andthen_eq_Inr split_beta quiet_simps [OF assms(1)])
  with Cons.IH [OF s(2)] show ?case by simp
qed simp

lemma menus_quiet:
  assumes "quiet_calls K obs"
  shows "draw_menu K ju g st = Inr st' \<Longrightarrow> obs (snd st') = obs (snd st)" "draw_pause K ju g st = Inr st' \<Longrightarrow> obs (snd st') = obs (snd st)"
  by (auto simp: draw_menu_def draw_pause_def andthen_eq_Inr split_beta dest!: draw_word_quiet [OF assms])

lemma quiet_ports: "quiet_calls K obs \<Longrightarrow> ports_quiet K obs"
  by (simp add: quiet_calls_def ports_quiet_def)

section \<open>The loop\<close>

text \<open>The hooks the drivers keep for the release, and the masks of the loop.\<close>

definition hooks :: "proj \<Rightarrow> (int \<times> int \<times> int) \<times> u8 \<times> u8 \<times> u8" where
  "hooks s = ((hook_id_kbd (kbd s), hook_id2 (tmr s), hook_id_mouse (mdrv s)), irq_set s, irq_set2 s, irq_set3 s)"

text \<open>A step of the program that neither subscribes nor releases a line nor forgets a hook.\<close>

definition undisturbed :: "('w \<Rightarrow> 'o) \<Rightarrow> proj \<times> 'w \<Rightarrow> proj \<times> 'w \<Rightarrow> bool" where
  "undisturbed obs st st' \<longleftrightarrow> obs (snd st') = obs (snd st) \<and> hooks (fst st') = hooks (fst st)"

lemma undisturbed_trans: "undisturbed obs a b \<Longrightarrow> undisturbed obs b c \<Longrightarrow> undisturbed obs a c"
  by (simp add: undisturbed_def)

lemma draw_hooks: "on_video f s = Inr s' \<Longrightarrow> hooks s' = hooks s" "on_cards g s = Inr s' \<Longrightarrow> hooks s' = hooks s"
  by (auto simp: on_video_def on_cards_def hooks_def andthen_eq_Inr)

lemma key_hooks [simp]:
  "hooks (set_lb b s) = hooks s" "hooks (set_ticks n s) = hooks s" "hooks (set_scancode c s) = hooks s" "hooks (lose_life s) = hooks s"
  "hooks (s\<lparr>gs := x\<rparr>) = hooks s" "hooks (s\<lparr>prevState := x\<rparr>) = hooks s" "hooks (s\<lparr>gm := g\<rparr>) = hooks s"
  by (simp_all add: hooks_def set_lb_def set_ticks_def set_scancode_def lose_life_def Let_def)

lemma button_hooks [simp]:
  "hooks (menu_buttons s) = hooks s" "hooks (pause_buttons s) = hooks s" "hooks (instructions_keys s) = hooks s"
  "hooks (deal_in s) = hooks s" "hooks (check_victory s) = hooks s"
  by (simp_all add: menu_buttons_def pause_buttons_def instructions_keys_def Let_def)
    (simp_all add: deal_in_def check_victory_def hooks_def Let_def)

lemma click_cards_hooks: "click_cards s = Inr s' \<Longrightarrow> hooks s' = hooks s"
  by (auto simp: click_cards_def Let_def andthen_eq_Inr hooks_def split: if_splits)

lemma match_cards_undisturbed:
  assumes "quiet_calls K obs"
  shows "undisturbed obs st (match_cards K st)"
proof -
  have step: "undisturbed obs (snd (snd x)) (snd (snd (match_step K i x)))" for i x
    by (cases x) (simp add: match_step_def undisturbed_def Let_def quiet_simps [OF assms])
  have "undisturbed obs (snd (snd x)) (snd (snd (fold (match_step K) is x)))" for "is" x
    by (induction "is" arbitrary: x) (simp add: undisturbed_def, metis fold_simps(2) step undisturbed_trans)
  from this [of "(0, 0, st)" "[0..<16]"] show ?thesis
    by (auto simp: match_cards_def undisturbed_def split_beta)
qed

lemma game_tick_undisturbed:
  assumes "quiet_calls K obs" and "game_tick K ju (s, w) = Inr st'"
  shows "undisturbed obs (s, w) st'"
proof -
  have play: "undisturbed obs (s, w) (s', w')" if "game_play K ju (s, w) = Inr (s', w')" for s' w'
  proof -
    from that obtain s1 s2 s3 s5 s6 where
      1: "(if tmr_tck_counter (tmr s) mod 2 = 0 then on_cards (draw_game_cards ju) s else Inr s) = Inr s1" and
      2: "on_video (drawHearts ju (gm s1)) s1 = Inr s2" and 3: "on_video my_updateVideoMem s2 = Inr s3" and
      5: "click_cards (if scancode (kbd s3) = 0x81 then s3\<lparr>gs := Pause\<rparr> else s3) = Inr s5" and
      6: "match_cards K (s5, w) = (s6, w')" and s': "s' = check_victory s6"
      by (rule game_play_parts)
    have "hooks s1 = hooks s" using 1 draw_hooks(2) by (auto split: if_splits)
    then have "hooks s5 = hooks s" using draw_hooks(1) [OF 2] draw_hooks(1) [OF 3] click_cards_hooks [OF 5] by (simp split: if_splits)
    then show ?thesis using match_cards_undisturbed [OF assms(1), of "(s5, w)"] 6 s' by (simp add: undisturbed_def)
  qed
  obtain s' w' where st': "st' = (s', w')" by (cases st')
  show ?thesis
  proof (cases "initGame s")
    case True
    with assms(2) show ?thesis
      by (auto simp: game_tick_def andthen_eq_Inr undisturbed_def dest!: draw_hooks)
  next
    case False
    then show ?thesis using play [of s' w'] assms(2) by (simp add: game_tick_def st')
  qed
qed

lemma exit_tick_undisturbed:
  assumes "quiet_calls K obs" and "exit_tick K ju (s, w) = Some (Inr st')"
  shows "undisturbed obs (s, w) st'"
proof -
  have r: "undisturbed obs (t, u) x" if "restart K (t, u) = Some (Inr x)" for t u x
    using that deal_quiet [OF assms(1)]
    by (auto simp: restart_def Let_def run_then_eq_Inr undisturbed_def split: if_splits) (auto simp: hooks_def)
  from assms(2) show ?thesis
    by (auto simp: exit_tick_def run_then_eq_Inr undisturbed_def dest!: draw_hooks r split: if_splits) (auto simp: hooks_def)
qed

lemma state_tick_undisturbed:
  assumes q: "quiet_calls K obs" and "state_tick K ju (s, w) = Some (Inr st')"
  shows "undisturbed obs (s, w) st'"
proof (cases "gs s")
  case Menu
  with assms(2) have "menu_tick K ju (s, w) = Inr st'" by (simp add: state_tick_def)
  then show ?thesis
    by (auto simp: menu_tick_def on_screen_def andthen_eq_Inr undisturbed_def dest!: draw_hooks menus_quiet [OF q] split: if_splits)
      (auto simp: hooks_def)
next
  case In_Game
  with assms game_tick_undisturbed [OF q] show ?thesis by (simp add: state_tick_def)
next
  case Pause
  with assms(2) have "pause_tick K ju (s, w) = Inr st'" by (simp add: state_tick_def)
  then show ?thesis
    by (auto simp: pause_tick_def on_screen_def andthen_eq_Inr undisturbed_def dest!: draw_hooks menus_quiet [OF q]) (auto simp: hooks_def)
next
  case Instructions
  with assms(2) show ?thesis
    by (auto simp: state_tick_def instructions_tick_def andthen_eq_Inr undisturbed_def dest!: draw_hooks)
next
  case Exit
  with assms exit_tick_undisturbed [OF q] show ?thesis by (simp add: state_tick_def)
qed (use assms in \<open>auto simp: state_tick_def undisturbed_def\<close>)

lemma mouse_driver_hook:
  "mouse_ih K d w = Some y \<Longrightarrow> hook_id_mouse (fst y) = hook_id_mouse d"
  "hook_id_mouse (snd (mouse_dispatch d)) = hook_id_mouse d"
  by (auto dest!: mouse_ih_outcome simp: irq_outcome_def mouse_ih_broken_def split: if_splits)
    (simp add: mouse_dispatch_def print_mouse_packet_def store_byte_def Let_def)

lemma device_parts_undisturbed:
  assumes q: "quiet_calls K obs"
  shows "undisturbed obs st (keyboard_part K msg st)" "mouse_part K msg st = Some (ev, st') \<Longrightarrow> undisturbed obs st st'"
proof -
  show "undisturbed obs st (keyboard_part K msg st)"
    by (cases st) (simp add: keyboard_part_def split_beta undisturbed_def kbc_ih_quiet [OF q], simp add: hooks_def kbc_ih_def split_beta)
  assume m: "mouse_part K msg st = Some (ev, st')"
  show "undisturbed obs st st'"
  proof (cases "interrupts msg AND ucast (irq_set3 (fst st)) \<noteq> 0")
    case True
    then obtain y where y: "mouse_ih K (mdrv (fst st)) (snd st) = Some y"
      using m by (cases "mouse_ih K (mdrv (fst st)) (snd st)") (auto simp: mouse_part_def split_beta)
    have "hooks (fst st') = ((hook_id_kbd (kbd (fst st)), hook_id2 (tmr (fst st)), hook_id_mouse (snd (mouse_dispatch (fst y)))),
        irq_set (fst st), irq_set2 (fst st), irq_set3 (fst st))"
      "snd st' = snd y"
      using m y True by (auto simp: mouse_part_def split_beta Let_def hooks_def)
    then show ?thesis using mouse_ih_quiet [OF quiet_ports [OF q] y] mouse_driver_hook(1) [OF y] mouse_driver_hook(2) by (simp add: undisturbed_def hooks_def)
  next
    case False
    then show ?thesis using m by (auto simp: mouse_part_def undisturbed_def split_beta)
  qed
qed

lemma timer_part_undisturbed:
  assumes q: "quiet_calls K obs" and "timer_part K msg (s, w) = Some (Inr st')"
  shows "undisturbed obs (s, w) st'"
proof (cases "interrupts msg AND ucast (irq_set2 s) \<noteq> 0")
  case True
  then obtain ju s1 w1 where "state_tick K ju (s\<lparr>tmr := timer_int_handler (tmr s)\<rparr>, w) = Some (Inr (s1, w1))"
    and "hooks (fst st') = hooks s1" "snd st' = w1"
    using assms(2) by (auto simp: timer_part_def Let_def run_then_eq_Inr dest!: draw_hooks)
  with state_tick_undisturbed [OF q] show ?thesis
    by (fastforce simp: undisturbed_def hooks_def timer_int_handler_def)
next
  case False
  then show ?thesis using assms(2) by (auto simp: timer_part_def undisturbed_def)
qed

lemma iteration_undisturbed:
  assumes q: "quiet_calls K obs" and "proj_iteration K st = Some (Inr st')"
  shows "undisturbed obs st st'"
proof -
  obtain s w where st: "st = (s, w)" by (cases st)
  obtain r msg ipc w1 where r: "driver_receive K w = ((r, msg, ipc), w1)" by (metis prod.exhaust)
  have w1: "obs w1 = obs w" using quiet_simps(4) [OF q, of w] r by simp
  let ?st1 = "keyboard_part K msg (s, w1)"
  have k: "undisturbed obs (s, w) ?st1" using device_parts_undisturbed(1) [OF q, of "(s, w1)" msg] w1 by (simp add: undisturbed_def)
  from assms(2) consider "st' = (s, w1)"
    | ev where "mouse_part K msg ?st1 = Some (ev, st')"
    | ev s2 w2 where "mouse_part K msg ?st1 = Some (ev, s2, w2)" "timer_part K msg (s2, w2) = Some (Inr st')"
    by (auto simp: proj_iteration_def st r split: if_splits option.splits)
  then show ?thesis
  proof cases
    case 1
    then show ?thesis using w1 by (simp add: undisturbed_def st)
  next
    case 2
    then show ?thesis using k device_parts_undisturbed(2) [OF q 2] undisturbed_trans st by blast
  next
    case 3
    then show ?thesis using k device_parts_undisturbed(2) [OF q 3(1)] timer_part_undisturbed [OF q 3(2)] undisturbed_trans st by blast
  qed
qed

lemma loop_undisturbed:
  assumes "quiet_calls K obs" and "proj_loop K st = Some (Inr st')"
  shows "undisturbed obs st st' \<and> \<not> condition (fst st')"
proof -
  let ?P = "\<lambda>K st (y :: (proj \<times> 'a) result). \<forall>st'. quiet_calls K obs \<and> y = Inr st' \<longrightarrow> undisturbed obs st st' \<and> \<not> condition (fst st')"
  have "?P K st (Inr st')"
  proof (rule proj_loop.raw_induct [where P = ?P, rotated])
    show "proj_loop K st = Some (Inr st')" by (rule assms(2))
  next
    fix loop K st y
    assume IH: "\<And>K st y. loop K st = Some y \<Longrightarrow> ?P K st y"
      and e: "(if condition (fst st) then case proj_iteration K st of None \<Rightarrow> None | Some (Inl f) \<Rightarrow> Some (Inl f)
         | Some (Inr st') \<Rightarrow> loop K st' else Some (Inr st)) = Some y"
    show "?P K st y"
      using e IH iteration_undisturbed [of K obs st] undisturbed_trans [of obs st]
      by (fastforce simp: undisturbed_def split: if_splits option.splits sum.splits)
  qed
  then show ?thesis using assms(1) by simp
qed

interpretation undisturbed_run: step_invariant "proj_step K" "\<lambda>st. quiet_calls K obs \<and> undisturbed obs st0 st" for K obs st0
  by unfold_locales (auto elim!: proj_step.cases dest: iteration_undisturbed intro: undisturbed_trans)

lemma loop_run: "(proj_step K)\<^sup>*\<^sup>* st st' \<Longrightarrow> proj_loop K st = proj_loop K st'"
proof (induction rule: rtranclp_induct)
  case (step st' st'')
  from step(2) have "proj_loop K st' = proj_loop K st''" by cases (subst proj_loop.simps, simp)
  with step show ?case by simp
qed simp

section \<open>Subscription and release\<close>

text \<open>The ledger with the three lines of the program under the hooks the drivers keep.\<close>

definition with_lines :: "proj \<Rightarrow> (int \<rightharpoonup> int) \<Rightarrow> int \<rightharpoonup> int" where
  "with_lines s m = m(hook_id_kbd (kbd s) \<mapsto> IRQ1, hook_id2 (tmr s) \<mapsto> TIMER0_IRQ, hook_id_mouse (mdrv s) \<mapsto> IRQ12)"

definition fresh_hooks :: "proj \<Rightarrow> (int \<rightharpoonup> int) \<Rightarrow> bool" where
  "fresh_hooks s m \<longleftrightarrow> distinct [hook_id_kbd (kbd s), hook_id2 (tmr s), hook_id_mouse (mdrv s)] \<and>
     m (hook_id_kbd (kbd s)) = None \<and> m (hook_id2 (tmr s)) = None \<and> m (hook_id_mouse (mdrv s)) = None"

lemma hooks_lines:
  assumes "hooks s' = hooks s"
  shows "with_lines s' m = with_lines s m" "fresh_hooks s' m = fresh_hooks s m"
  using assms by (auto simp: hooks_def with_lines_def fresh_hooks_def)

lemma ledgerD:
  assumes "irq_ledger K held"
  shows "quiet_calls K held"
    "sys_irqsetpolicy K irq pol line w = ((0, h), w') \<Longrightarrow> held w h = None \<and> held w' = (held w)(h \<mapsto> irq)"
    "sys_irqrmpolicy K h w = ((0, h'), w') \<Longrightarrow> held w' = (held w)(h := None)"
    "held w h \<noteq> None \<Longrightarrow> \<exists>h' w'. sys_irqrmpolicy K h w = ((0, h'), w')"
  using assms unfolding irq_ledger_def by (blast, force, force, metis prod.exhaust)

lemma three_lines:
  assumes L: "irq_ledger K held"
    and k: "sys_irqsetpolicy K IRQ1 pk 1 w = ((0, hook_id_kbd (kbd s)), w1)"
    and t: "sys_irqsetpolicy K TIMER0_IRQ pt 0 w1 = ((0, hook_id2 (tmr s)), w2)"
    and m: "sys_irqsetpolicy K IRQ12 pm 2 w2 = ((0, hook_id_mouse (mdrv s)), w3)"
  shows "held w3 = with_lines s (held w) \<and> fresh_hooks s (held w)"
  using ledgerD(2) [OF L k] ledgerD(2) [OF L t] ledgerD(2) [OF L m]
  by (auto simp: with_lines_def fresh_hooks_def split: if_splits)

lemma setup_lines:
  assumes L: "irq_ledger K held" and s: "proj_setup_devices K (s, w) = Inr (Inr s', w')"
  shows "held w' = with_lines s' (held w) \<and> fresh_hooks s' (held w)"
proof -
  note q = ledgerD(1) [OF L]
  from s obtain w1 w2 w3 w4 r v where k: "sys_irqsetpolicy K IRQ1 (IRQ_REENABLE OR IRQ_EXCLUSIVE) 1 w = ((0, hook_id_kbd (kbd s')), w1)"
    and t: "sys_irqsetpolicy K TIMER0_IRQ IRQ_REENABLE 0 w1 = ((0, hook_id2 (tmr s')), w2)"
    and m: "sys_irqsetpolicy K IRQ12 (IRQ_REENABLE OR IRQ_EXCLUSIVE) 2 w2 = ((0, hook_id_mouse (mdrv s')), w3)"
    and w4: "w4 = snd (mouse_enable_data_reporting K w3)" and v: "vg_start K 0x115 (vid s) w4 = Inr (r, v, w')"
    by (auto simp: proj_setup_devices_def kbd_line.subscribe_call timer_line.subscribe_call mouse_line.subscribe_call
        andthen_eq_Inr OK_def TIMER0_IRQ_def split: prod.splits if_splits)
  have "held w' = held w3" using vg_start_quiet [OF q v] quiet_simps(14) [OF q] w4 by simp
  then show ?thesis using three_lines [OF L k t m] by simp
qed

lemma teardown_lines:
  assumes L: "irq_ledger K held" and t: "proj_teardown K (s, w) = Some (0, s', w')"
  shows "held w' = (held w)(hook_id2 (tmr s) := None, hook_id_kbd (kbd s) := None, hook_id_mouse (mdrv s) := None)"
proof -
  note q = ledgerD(1) [OF L]
  from t obtain w1 w2 w3 w4 h2 h3 h4 where d: "disable_mouse_data K w = Some (0, w1)"
    and r: "sys_irqrmpolicy K (hook_id2 (tmr s)) w1 = ((0, h2), w2)" "sys_irqrmpolicy K (hook_id_kbd (kbd s)) w2 = ((0, h3), w3)"
      "sys_irqrmpolicy K (hook_id_mouse (mdrv s)) w3 = ((0, h4), w4)" and v: "w' = snd (vg_exit K w4)"
    by (auto simp: proj_teardown_def kbd_line.unsubscribe_call timer_line.unsubscribe_call mouse_line.unsubscribe_call
        split: prod.splits if_splits option.splits)
  have "held w1 = held w" "held w' = held w4" using mouse_data_quiet(1) [OF quiet_ports [OF q] d] quiet_simps(15) [OF q] v by simp_all
  with r [THEN ledgerD(3) [OF L]] show ?thesis by simp
qed

lemma release_all:
  assumes "fresh_hooks s m"
  shows "(with_lines s m)(hook_id2 (tmr s) := None, hook_id_kbd (kbd s) := None, hook_id_mouse (mdrv s) := None) = m"
  using assms by (auto simp: with_lines_def fresh_hooks_def fun_eq_iff)

lemma setup_game_quiet:
  assumes "quiet_calls K obs" and "proj_setup_game K (s, w) = Some (Inr (s', w'))"
  shows "obs w' = obs w"
  using assms(2) deal_quiet [OF assms(1)] quiet_simps(7) [OF assms(1)] load_sprites_quiet [OF assms(1)] get_date_quiet [OF assms(1)]
  by (fastforce simp: proj_setup_game_def run_then_eq_Inr Let_def split_beta)

lemma setup_fails: "proj_setup_devices K st = Inr (Inl c, w') \<Longrightarrow> c = 1"
  by (cases st) (auto simp: proj_setup_devices_def andthen_eq_Inr split: prod.splits if_splits)

lemma main_parts:
  assumes "proj_main_loop K (s0, w0) = Some (Inr (code, w'))"
  obtains (failed) st1 where "proj_setup_game K (s0, w0) = Some (Inr st1)" "proj_setup_devices K st1 = Inr (Inl 1, w')" "code = 1"
  | (ran) st1 s2 w2 st3 s4 where "proj_setup_game K (s0, w0) = Some (Inr st1)" "proj_setup_devices K st1 = Inr (Inr s2, w2)"
      "proj_loop K (s2, w2) = Some (Inr st3)" "proj_teardown K st3 = Some (code, s4, w')"
proof -
  from assms obtain st1 r w2 where 1: "proj_setup_game K (s0, w0) = Some (Inr st1)" "proj_setup_devices K st1 = Inr (r, w2)"
    and m: "(case r of Inl code \<Rightarrow> Some (Inr (code, w2)) | Inr s2 \<Rightarrow> run_then (proj_loop K (s2, w2)) (\<lambda>st3.
         case proj_teardown K st3 of None \<Rightarrow> None | Some (code, _, w4) \<Rightarrow> Some (Inr (code, w4)))) = Some (Inr (code, w'))"
    by (auto simp: proj_main_loop_def run_then_eq_Inr)
  show thesis
  proof (cases r)
    case (Inl c)
    with setup_fails [of K st1 c w2] 1 m failed show thesis by simp
  next
    case (Inr s2)
    with m obtain st3 where "proj_loop K (s2, w2) = Some (Inr st3)" "\<exists>s4. proj_teardown K st3 = Some (code, s4, w')"
      by (auto simp: run_then_eq_Inr split: option.splits prod.splits)
    with ran 1 Inr show thesis by blast
  qed
qed

text \<open>C6: A run of the program that returns 0 has released every interrupt line it subscribed: the kernel's table of
  lines is the one before the start, whatever happened in the loop.\<close>

lemma lines_released:
  assumes L: "irq_ledger K held" and run: "proj_main_loop K (s0, w0) = Some (Inr (0, w'))"
  shows "held w' = held w0"
  using run
proof (cases rule: main_parts)
  case (ran st1 s2 w2 st3 s4)
  note q = ledgerD(1) [OF L]
  obtain s1 w1 s3 w3 where st: "st1 = (s1, w1)" "st3 = (s3, w3)" by (metis prod.exhaust)
  have "undisturbed held (s2, w2) (s3, w3)" using loop_undisturbed [OF q] ran(3) st by blast
  then have "held w3 = with_lines s3 (held w1)" "fresh_hooks s3 (held w1)"
    using setup_lines [OF L ran(2) [unfolded st]] hooks_lines [of s3 s2] by (simp_all add: undisturbed_def)
  then have "held w' = held w1"
    using teardown_lines [OF L ran(4) [unfolded st]] release_all by simp
  then show ?thesis using setup_game_quiet [OF q ran(1) [unfolded st]] by simp
qed simp

text \<open>C29: When the mouse cannot be switched on, \<open>proj_main_loop\<close> returns 1 and leaves the keyboard, the timer and the
  mouse line subscribed: three entries more in the kernel's table than before.\<close>

lemma failed_start_keeps_lines:
  assumes L: "irq_ledger K held" and "rand_ok K" and "rand_fair K" and "length (cardArray (gm s0)) = 16"
    and irq: "\<forall>irq pol h w. fst (fst (sys_irqsetpolicy K irq pol h w)) = 0"
    and mouse: "\<forall>w. fst (mouse_enable_data_reporting K w) \<noteq> 0"
  shows "\<exists>w' s. proj_main_loop K (s0, w0) = Some (Inr (1, w')) \<and> held w' = with_lines s (held w0) \<and> fresh_hooks s (held w0)"
proof -
  note q = ledgerD(1) [OF L]
  obtain s1 w1 where 1: "proj_setup_game K (s0, w0) = Some (Inr (s1, w1))" using setup_game_ok [OF assms(2-4)] by blast
  obtain hk u1 where k: "sys_irqsetpolicy K IRQ1 (IRQ_REENABLE OR IRQ_EXCLUSIVE) 1 w1 = ((0, hk), u1)" using irq by (metis prod.collapse)
  obtain ht u2 where t: "sys_irqsetpolicy K TIMER0_IRQ IRQ_REENABLE 0 u1 = ((0, ht), u2)" using irq by (metis prod.collapse)
  obtain hm u3 where m: "sys_irqsetpolicy K IRQ12 (IRQ_REENABLE OR IRQ_EXCLUSIVE) 2 u2 = ((0, hm), u3)" using irq by (metis prod.collapse)
  obtain r u4 where e: "mouse_enable_data_reporting K u3 = (r, u4)" "r \<noteq> 0" using mouse by (metis prod.collapse)
  have "proj_setup_devices K (s1, w1) = Inr (Inl 1, u4)"
    using k t m e by (simp add: proj_setup_devices_def kbd_line.subscribe_call timer_line.subscribe_call mouse_line.subscribe_call OK_def
        TIMER0_IRQ_def)
  then have "proj_main_loop K (s0, w0) = Some (Inr (1, u4))" using 1 by (simp add: proj_main_loop_def)
  moreover define s where "s = s0\<lparr>kbd := (kbd s0)\<lparr>hook_id_kbd := hk\<rparr>, tmr := (tmr s0)\<lparr>hook_id2 := ht\<rparr>, mdrv := (mdrv s0)\<lparr>hook_id_mouse := hm\<rparr>\<rparr>"
  have "held u3 = with_lines s (held w1) \<and> fresh_hooks s (held w1)"
    using three_lines [OF L, of _ w1 s] k t m by (simp add: s_def)
  moreover have "held u4 = held u3" "held w1 = held w0"
    using quiet_simps(14) [OF q, of u3] e setup_game_quiet [OF q 1] by simp_all
  ultimately show ?thesis by auto
qed

lemma teardown_succeeds:
  assumes L: "irq_ledger K held" and K: "kbc_responsive K" "io_traced K tr" "\<forall>w. fst (vg_exit K w) = 0"
    and h: "held w = with_lines s m" "fresh_hooks s m"
  shows "\<exists>s' w'. proj_teardown K (s, w) = Some (0, s', w')"
proof -
  note q = ledgerD(1) [OF L] and rm = ledgerD(3,4) [OF L]
  obtain w1 where d: "disable_mouse_data K w = Some (0, w1)" using disable_responsive [OF K(1,2)] by blast
  have h1: "held w1 = with_lines s m" using mouse_data_quiet(1) [OF quiet_ports [OF q] d] h(1) by simp
  have n: "hook_id2 (tmr s) \<noteq> hook_id_kbd (kbd s)" "hook_id_mouse (mdrv s) \<noteq> hook_id2 (tmr s)" "hook_id_mouse (mdrv s) \<noteq> hook_id_kbd (kbd s)"
    using h(2) by (auto simp: fresh_hooks_def)
  obtain h2 w2 where 2: "sys_irqrmpolicy K (hook_id2 (tmr s)) w1 = ((0, h2), w2)"
    using rm(2) [of w1 "hook_id2 (tmr s)"] h1 n by (auto simp: with_lines_def)
  obtain h3 w3 where 3: "sys_irqrmpolicy K (hook_id_kbd (kbd s)) w2 = ((0, h3), w3)"
    using rm(2) [of w2 "hook_id_kbd (kbd s)"] rm(1) [OF 2] h1 n by (auto simp: with_lines_def)
  obtain h4 w4 where 4: "sys_irqrmpolicy K (hook_id_mouse (mdrv s)) w3 = ((0, h4), w4)"
    using rm(2) [of w3 "hook_id_mouse (mdrv s)"] rm(1) [OF 2] rm(1) [OF 3] h1 n by (auto simp: with_lines_def)
  obtain w5 where 5: "vg_exit K w4 = (0, w5)" using K(3) by (metis prod.collapse)
  show ?thesis
    using d 2 3 4 5 by (simp add: proj_teardown_def kbd_line.unsubscribe_call timer_line.unsubscribe_call mouse_line.unsubscribe_call)
qed

definition timer_only :: "message \<Rightarrow> u32 \<Rightarrow> bool" where
  "timer_only msg ipc_status \<longleftrightarrow> is_ipc_notify ipc_status \<and> ENDPOINT_P (m_source msg) = HARDWARE \<and> interrupts msg = 1"

text \<open>With the masks of the program, a pass of the loop for such a message is the timer's part alone.\<close>

lemma timer_only_iteration:
  assumes "driver_receive K w = ((0, msg, ipc), w1)" and "timer_only msg ipc" and "irq_set s = 0x02" and "irq_set3 s = 0x04"
  shows "proj_iteration K (s, w) = timer_part K msg (s, w1)"
  using assms by (simp add: proj_iteration_def timer_only_def keyboard_part_def mouse_part_def)

text \<open>What is known of a state the running program has reached.\<close>

lemma reached:
  assumes "rand_ok K" and "rand_fair K" and "machine_ok K mi" and "svga mi" and "xpm_loads K"
    and "length (cardArray (gm s0)) = 16" and "length (otherSide (gm s0)) = 16" and "irq_ledger K held"
    and st: "proj_setup_game K (s0, w0) = Some (Inr st1)" "proj_setup_devices K st1 = Inr (Inr s2, w2)" "(proj_step K)\<^sup>*\<^sup>* (s2, w2) (s, w)"
  shows "table_inv mi (images (gm s2)) s" "sprites_ok (images (gm s))" "screen_ok (vid s)"
    "irq_set s = 0x02" "irq_set2 s = 0x01" "irq_set3 s = 0x04"
    "held w = with_lines s (held w0)" "fresh_hooks s (held w0)" "proj_loop K (s2, w2) = proj_loop K (s, w)"
proof -
  note q = ledgerD(1) [OF assms(8)]
  have f: "fresh_game K (gm s2)" and inv: "table_inv mi (images (gm s2)) s"
    using program_runs [OF assms(1-4,6,7), of w0] st by auto
  show "table_inv mi (images (gm s2)) s" by (rule inv)
  show "sprites_ok (images (gm s))" using f inv load_sprites_ok [OF assms(5)] by (auto simp: fresh_game_def table_inv_def)
  show "screen_ok (vid s)" using inv assms(4) by (simp add: table_inv_def screen_ok_def)
  obtain s1 w1 where s1: "st1 = (s1, w1)" by (cases st1)
  have u: "undisturbed held (s2, w2) (s, w)" using undisturbed_run.run_keeps [OF st(3), of held "(s2, w2)"] q by (simp add: undisturbed_def)
  then have h: "hooks s = hooks s2" "held w = held w2" by (simp_all add: undisturbed_def)
  show "irq_set s = 0x02" "irq_set2 s = 0x01" "irq_set3 s = 0x04"
    using irq_masks_distinct [OF st(2) [unfolded s1]] h(1) by (auto simp: hooks_def)
  show "held w = with_lines s (held w0)" "fresh_hooks s (held w0)"
    using setup_lines [OF assms(8) st(2) [unfolded s1]] setup_game_quiet [OF q st(1) [unfolded s1]] h hooks_lines [OF h(1)] by auto
  show "proj_loop K (s2, w2) = proj_loop K (s, w)" by (rule loop_run [OF st(3)])
qed

lemma exit_run:
  assumes "rand_ok K" and "rand_fair K" and "machine_ok K mi" and "svga mi" and "xpm_loads K"
    and "length (cardArray (gm s0)) = 16" and "length (otherSide (gm s0)) = 16" and L: "irq_ledger K held"
    and dev: "kbc_responsive K" "io_traced K tr" "\<forall>w. fst (vg_exit K w) = 0"
    and st: "proj_setup_game K (s0, w0) = Some (Inr st1)" "proj_setup_devices K st1 = Inr (Inr s2, w2)" "(proj_step K)\<^sup>*\<^sup>* (s2, w2) (s, w)"
    and s: "condition s" "gs s = Exit" "\<not> game_over s" "\<not> victory s" "mouse_x (mouse (gm s)) \<le> 750" "mouse_y (mouse (gm s)) \<le> 558"
    and msg: "driver_receive K w = ((0, msg, ipc), w1)" "timer_only msg ipc"
  shows "\<exists>w'. proj_main_loop K (s0, w0) = Some (Inr (0, w')) \<and> held w' = held w0"
proof -
  note q = ledgerD(1) [OF L]
  note R = reached [OF assms(1-8) st]
  have m: "loaded_as (spriteMouse (gm s)) (imgMouse (gm s)) 50 42" using sprites_okD(2) [OF R(2)] .
  have "\<exists>s'. timer_part K msg (s, w1) = Some (Inr (s', w1)) \<and> \<not> condition s'"
    by (rule exit_clears_condition; (fact s(2-4))?)
      (use R(1,3,5) s(5,6) msg(2) loaded_asD [OF m] screen_okD [OF R(3)] in \<open>simp_all add: table_inv_def pointer_ok_def timer_only_def\<close>)
  then obtain s' where t: "timer_part K msg (s, w1) = Some (Inr (s', w1))" "\<not> condition s'" by blast
  have it: "proj_iteration K (s, w) = Some (Inr (s', w1))"
    using timer_only_iteration [OF msg, of s] R(4,6) t(1) by simp
  then have "proj_loop K (s, w) = proj_loop K (s', w1)" by (subst proj_loop.simps) (simp add: s(1))
  also have "\<dots> = Some (Inr (s', w1))" by (subst proj_loop.simps) (simp add: t(2))
  finally have l: "proj_loop K (s2, w2) = Some (Inr (s', w1))" using R(9) by simp
  have "undisturbed held (s, w) (s', w1)" using iteration_undisturbed [OF q it] .
  then have "held w1 = with_lines s' (held w0)" "fresh_hooks s' (held w0)"
    using R(7,8) hooks_lines [of s' s] by (simp_all add: undisturbed_def)
  then obtain s4 w' where td: "proj_teardown K (s', w1) = Some (0, s4, w')" using teardown_succeeds [OF L dev] by blast
  have run: "proj_main_loop K (s0, w0) = Some (Inr (0, w'))"
    using st(1,2) l td by (simp add: proj_main_loop_def)
  moreover have "held w' = held w0"
    using teardown_lines [OF L td] \<open>held w1 = _\<close> release_all [OF \<open>fresh_hooks s' _\<close>] by simp
  ultimately show ?thesis by blast
qed

section \<open>Leaving from the menu\<close>

lemma menu_tick_frame: "menu_tick K ju (s, w) = Inr (s', w') \<Longrightarrow> \<exists>v. s' = menu_buttons (s\<lparr>vid := v\<rparr>) \<and> vkeeps (vid s) v"
  by (auto simp: menu_tick_def on_video_def on_screen_def andthen_eq_Inr image_defs split: if_splits
      dest!: green_vkeeps(1) update_vkeeps menu_vkeeps draw_image_vkeeps; metis vkeeps_trans)

text \<open>In the menu the release of the key E leads to the exit screen in one timer interrupt.\<close>

lemma exit_key_leaves_menu:
  assumes "xpm_loads K" and "screen_ok (vid s)" and "sprites_ok (images (gm s))" and "irq_set s = 0x02" "irq_set2 s = 0x01" "irq_set3 s = 0x04"
    and "gs s = Menu" and "scancode (kbd s) = E_KEY_BREAKCODE" and "\<not> lb (packet1 (mdrv s))"
    and "0 \<le> mouse_x (mouse (gm s))" "mouse_x (mouse (gm s)) \<le> 750" "0 \<le> mouse_y (mouse (gm s))" "mouse_y (mouse (gm s)) \<le> 558"
    and msg: "driver_receive K w = ((0, msg, ipc), w1)" "timer_only msg ipc"
  shows "\<exists>v t w'. proj_iteration K (s, w) = Some (Inr (s\<lparr>tmr := t, vid := v, gs := Exit\<rparr>, w'))"
proof -
  define ju where "ju = indeterminate K w1"
  let ?s = "s\<lparr>tmr := timer_int_handler (tmr s)\<rparr>"
  obtain s1 w2 where m: "menu_tick K ju (?s, w1) = Inr (s1, w2)"
    using menu_tick_total [OF assms(1), of ?s ju w1] assms(2,3) by auto
  then obtain v where s1: "s1 = menu_buttons (?s\<lparr>vid := v\<rparr>)" "vkeeps (vid ?s) v" using menu_tick_frame [OF m] by blast
  have s1': "s1 = ?s\<lparr>vid := v, gs := Exit\<rparr>"
    using assms(7-9) by (simp add: s1(1) menu_buttons_def play_chosen_def instructions_chosen_def exit_chosen_def clicked_in_def
        P_KEY_BREAKCODE_def I_KEY_BREAKCODE_def E_KEY_BREAKCODE_def)
  have "screen_ok v" using vkeeps_screen s1(2) assms(2) by auto
  moreover have "always_draws (draw_mouse ju (gm s))"
    using draws_image [OF sprites_okD(2) [OF assms(3)], of "mouse_x (mouse (gm s))" "mouse_y (mouse (gm s))" ju] assms(10-13)
    by (simp add: always_draws_def draw_mouse_def)
  ultimately obtain v2 where v2: "draw_mouse ju (gm s) v = Inr v2" "screen_ok v2" by (auto simp: always_draws_def)
  then obtain v3 where v3: "my_updateVideoMem v2 = Inr v3" using draws_update by (auto simp: always_draws_def)
  have "timer_part K msg (s, w1) = Some (Inr (s\<lparr>tmr := timer_int_handler (tmr s), vid := v3, gs := Exit\<rparr>, w2))"
    using m s1' v2(1) v3 assms(5,7) msg(2)
    by (simp add: timer_part_def Let_def state_tick_def on_video_def timer_only_def flip: ju_def)
  then show ?thesis unfolding timer_only_iteration [OF msg assms(4,6)] by (intro exI)
qed

section \<open>A machine with a table of lines\<close>

text \<open>The scripted machine with the kernel's table of subscribed lines; a subscription takes a new entry.\<close>

definition with_table :: "(sim \<Rightarrow> 'r \<times> sim) \<Rightarrow> sim \<times> int option list \<Rightarrow> 'r \<times> sim \<times> int option list" where
  "with_table f w = (case f (fst w) of (r, w') \<Rightarrow> (r, w', snd w))"

definition table_kernel :: "(sim \<times> int option list) kernel" where
  "table_kernel = (let K = pixmap_kernel in \<lparr>
     sys_inb = (\<lambda>p w. ((0, if p = 0x60 then 0xFA else 0), w)), sys_outb = (\<lambda>p v. with_table (sys_outb K p v)),
     sys_irqsetpolicy = (\<lambda>irq pol hook (w, t). ((0, int (length t)), w, t @ [Some irq])),
     sys_irqrmpolicy = (\<lambda>hook (w, t). if 0 \<le> hook \<and> nat hook < length t \<and> t ! nat hook \<noteq> None
        then ((0, hook), w, t[nat hook := None]) else ((1, hook), w, t)),
     tickdelay = (\<lambda>t w. w), micros_to_ticks = (\<lambda>m. m div 16667),
     driver_receive = (\<lambda>w. ((0, \<lparr>m_source = HARDWARE, interrupts = 1\<rparr>, 4), w)), sleep = (\<lambda>n w. w),
     rand = with_table (rand K), srand_time = (\<lambda>w. w), malloc = (\<lambda>n. with_table (malloc K n)),
     sys_privctl_add_mem = (\<lambda>a b. with_table (sys_privctl_add_mem K a b)), vm_map_phys = (\<lambda>a n. with_table (vm_map_phys K a n)),
     sys_int86 = (\<lambda>a b n. with_table (sys_int86 K a b n)), vbe_get_mode_info = (\<lambda>m i. with_table (vbe_get_mode_info K m i)),
     xpm_load = (\<lambda>m t. with_table (xpm_load K m t)), mouse_enable_data_reporting = (\<lambda>w. (0, w)), vg_exit = (\<lambda>w. (0, w)),
     kbd_print_scancode = (\<lambda>mk n bs w. w), kbd_print_no_sysinb = (\<lambda>n w. w), timer_print_config = (\<lambda>t f v w. (0, w)),
     timer_print_elapsed_time = (\<lambda>w. w), mouse_print_packet = (\<lambda>p w. w), minix_get_dflt_kbc_cmd_byte = (\<lambda>w. (0x47, w)),
     indeterminate = (\<lambda>w. 0)\<rparr>)"

definition table_lines :: "sim \<times> int option list \<Rightarrow> int \<rightharpoonup> int" where
  "table_lines w h = (if 0 \<le> h \<and> nat h < length (snd w) then snd w ! nat h else None)"

lemma table_ledger: "irq_ledger table_kernel table_lines"
  unfolding irq_ledger_def
proof (intro conjI)
  show "quiet_calls table_kernel table_lines"
    by (simp add: quiet_calls_def table_kernel_def with_table_def table_lines_def split_beta fun_eq_iff)
  show "\<forall>irq pol line w r h w'. sys_irqsetpolicy table_kernel irq pol line w = ((r, h), w') \<longrightarrow>
      (if r = 0 then table_lines w h = None \<and> table_lines w' = (table_lines w)(h \<mapsto> irq) else table_lines w' = table_lines w)"
    by (auto simp: table_kernel_def table_lines_def fun_eq_iff nth_append)
  show "\<forall>h w r h' w'. sys_irqrmpolicy table_kernel h w = ((r, h'), w') \<longrightarrow>
      (if r = 0 then table_lines w' = (table_lines w)(h := None) else table_lines w' = table_lines w) \<and>
      (table_lines w h \<noteq> None \<longrightarrow> r = 0)"
    by (auto simp: table_kernel_def table_lines_def fun_eq_iff nth_list_update split: if_splits)
qed

lemma table_kernel_rand: "rand_ok table_kernel" "rand_fair table_kernel"
proof -
  have r: "rand table_kernel = with_table (rand pixmap_kernel)" by (simp add: table_kernel_def Let_def)
  show "rand_ok table_kernel" using pixmap_kernel_ok(1) by (simp add: rand_ok_def r with_table_def split_beta)
  have f: "draw_face table_kernel w = (fst (draw_face pixmap_kernel (fst w)), snd (draw_face pixmap_kernel (fst w)), snd w)" for w
    by (simp add: draw_face_def r with_table_def split_beta)
  have d: "draws table_kernel n w = (draws pixmap_kernel n (fst w), snd w)" for n w
    by (induction n arbitrary: w) (simp_all add: f)
  show "rand_fair table_kernel" using pixmap_kernel_ok(2) by (simp add: rand_fair_def f d)
qed

lemma table_kernel_ok: "machine_ok table_kernel svga_info" "xpm_loads table_kernel" "kbc_responsive table_kernel" "io_traced table_kernel (sim_out \<circ> fst)"
proof -
  show "machine_ok table_kernel svga_info" using pixmap_kernel_ok(3)
    by (auto simp: machine_ok_def table_kernel_def Let_def with_table_def split_beta)
  show "xpm_loads table_kernel" using pixmap_kernel_ok(4)
    by (simp add: xpm_loads_def table_kernel_def Let_def with_table_def split_beta)
  have "ready_after table_kernel id in_free 0 w" for w
    by (simp add: table_kernel_def Let_def status_of_def in_free_def)
  then have "\<exists>n. ready_after table_kernel id in_free n w" for w by blast
  then show "kbc_responsive table_kernel"
    by (simp add: kbc_responsive_def)
      (simp add: table_kernel_def Let_def with_table_def pixmap_kernel_def pc_kernel_def cycle_kernel_def sim_kernel_def)
  show "io_traced table_kernel (sim_out \<circ> fst)"
    by (simp add: io_traced_def table_kernel_def Let_def with_table_def pixmap_kernel_def pc_kernel_def cycle_kernel_def sim_kernel_def)
qed

lemma table_timer:
  "driver_receive table_kernel w = ((0, \<lparr>m_source = HARDWARE, interrupts = 1\<rparr>, 4), w)" "timer_only \<lparr>m_source = HARDWARE, interrupts = 1\<rparr> 4"
  by (simp_all add: table_kernel_def timer_only_def is_ipc_notify_def ENDPOINT_P_task HARDWARE_def MAX_NR_TASKS_def NOTIFY_def)

text \<open>The player leaves at once: the key E is in the driver when the menu is shown.\<close>

definition leaving_globals :: proj where
  "leaving_globals = proj_globals\<lparr>kbd := keyboard_init\<lparr>scancode := E_KEY_BREAKCODE\<rparr>\<rparr>"

lemma setup_keeps_input:
  assumes "proj_setup_game K (s0, w0) = Some (Inr (s1, w1))" and "proj_setup_devices K (s1, w1) = Inr (Inr s2, w2)"
  shows "scancode (kbd s2) = scancode (kbd s0)" "packet1 (mdrv s2) = packet1 (mdrv s0)" "condition s2" "gm s2 = gm s1" "gs s2 = gs s1"
proof -
  have "kbd s1 = kbd s0" "mdrv s1 = mdrv s0"
    using assms(1) by (auto simp: proj_setup_game_def run_then_eq_Inr Let_def split_beta)
  then show "scancode (kbd s2) = scancode (kbd s0)" "packet1 (mdrv s2) = packet1 (mdrv s0)" "condition s2" "gm s2 = gm s1" "gs s2 = gs s1"
    using assms(2) by (auto simp: proj_setup_devices_def kbd_line.subscribe_call timer_line.subscribe_call
        mouse_line.subscribe_call andthen_eq_Inr split: prod.splits if_splits)
qed

lemma leaving_session:
  obtains st1 s2 w2 s w where "proj_setup_game table_kernel (leaving_globals, (sim0, [])) = Some (Inr st1)"
    "proj_setup_devices table_kernel st1 = Inr (Inr s2, w2)" "(proj_step table_kernel)\<^sup>*\<^sup>* (s2, w2) (s, w)"
    "condition s" "gs s = Exit" "\<not> game_over s" "\<not> victory s" "mouse_x (mouse (gm s)) \<le> 750" "mouse_y (mouse (gm s)) \<le> 558"
proof -
  let ?K = table_kernel and ?w0 = "(sim0, []) :: sim \<times> int option list"
  have g: "length (cardArray (gm leaving_globals)) = 16" "length (otherSide (gm leaving_globals)) = 16"
    using proj_globals_tables by (simp_all add: leaving_globals_def)
  obtain s1 w1 where 1: "proj_setup_game ?K (leaving_globals, ?w0) = Some (Inr (s1, w1))" "mouse (gm s1) = \<lparr>mouse_x = 0, mouse_y = 0\<rparr>" "gs s1 = Menu"
    using setup_game_ok [OF table_kernel_rand g(1)] by blast
  obtain s2 w2 where 2: "proj_setup_devices ?K (s1, w1) = Inr (Inr s2, w2)" "\<not> game_over s2" "\<not> victory s2"
    using setup_devices_ok [OF table_kernel_ok(1)] by blast
  note i = setup_keeps_input [OF 1(1) 2(1)]
  note R = reached [OF table_kernel_rand table_kernel_ok(1) pc_kernel_ok(4) table_kernel_ok(2) g table_ledger 1(1) 2(1) rtranclp.rtrancl_refl]
  have "scancode (kbd s2) = E_KEY_BREAKCODE" "\<not> lb (packet1 (mdrv s2))"
    using i(1,2) by (simp_all add: leaving_globals_def proj_globals_def mouse_driver_init_def packet_zero_def)
  then obtain v t w' where it: "proj_iteration ?K (s2, w2) = Some (Inr (s2\<lparr>tmr := t, vid := v, gs := Exit\<rparr>, w'))"
    using exit_key_leaves_menu [OF table_kernel_ok(2) R(3,2,4,5,6) _ _ _ _ _ _ _ table_timer] i 1 by fastforce
  with i(3) have "proj_step ?K (s2, w2) (s2\<lparr>tmr := t, vid := v, gs := Exit\<rparr>, w')" by (rule proj_stepI)
  from r_into_rtranclp [of "proj_step ?K", OF this] that [OF 1(1) 2(1)] i 1(2) 2(2,3) show thesis by fastforce
qed

section \<open>Properties\<close>

text \<open>C5: Choosing the exit ends the program: from every state on the exit screen that the running program can reach without a
  finished game, with the cursor on the screen, the next timer interrupt makes \<open>proj_main_loop\<close> as a whole return 0 with
  every interrupt line released.\<close>

lemma exit_ends_program:
  assumes "rand_ok K" and "rand_fair K" and "machine_ok K mi" and "svga mi" and "xpm_loads K"
    and "length (cardArray (gm s0)) = 16" and "length (otherSide (gm s0)) = 16" and L: "irq_ledger K held"
    and dev: "kbc_responsive K" "io_traced K tr" "\<forall>w. fst (vg_exit K w) = 0"
    and st: "proj_setup_game K (s0, w0) = Some (Inr st1)" "proj_setup_devices K st1 = Inr (Inr s2, w2)" "(proj_step K)\<^sup>*\<^sup>* (s2, w2) (s, w)"
    and s: "condition s" "gs s = Exit" "\<not> game_over s" "\<not> victory s" "mouse_x (mouse (gm s)) \<le> 750" "mouse_y (mouse (gm s)) \<le> 558"
    and msg: "driver_receive K w = ((0, msg, ipc), w1)" "timer_only msg ipc"
  shows "\<exists>w'. proj_main_loop K (s0, w0) = Some (Inr (0, w')) \<and> held w' = held w0"
  using assms by (rule exit_run)

lemmas table_machine = table_kernel_rand table_kernel_ok(1) pc_kernel_ok(4) table_kernel_ok(2)

lemma leaving_tables: "length (cardArray (gm leaving_globals)) = 16" "length (otherSide (gm leaving_globals)) = 16"
  "\<forall>w. fst (vg_exit table_kernel w) = 0"
  using proj_globals_tables by (simp_all add: leaving_globals_def table_kernel_def)

theorem exit_ends_program_witness:
  "\<exists>w'. proj_main_loop table_kernel (leaving_globals, (sim0, [])) = Some (Inr (0, w')) \<and> table_lines w' = table_lines (sim0, [])"
  by (rule leaving_session)
    (rule exit_ends_program [OF table_machine leaving_tables(1,2) table_ledger table_kernel_ok(3,4) leaving_tables(3) _ _ _ _ _ _ _ _ _ table_timer])

theorem lines_released_witness:
  "\<exists>w'. proj_main_loop table_kernel (leaving_globals, (sim0, [])) = Some (Inr (0, w')) \<and> table_lines w' = (\<lambda>_. None)"
proof -
  obtain w' where r: "proj_main_loop table_kernel (leaving_globals, (sim0, [])) = Some (Inr (0, w'))"
    by (rule leaving_session)
      (use exit_run [OF table_machine leaving_tables(1,2) table_ledger table_kernel_ok(3,4) leaving_tables(3) _ _ _ _ _ _ _ _ _ table_timer] in blast)
  with lines_released [OF table_ledger r] show ?thesis by (simp add: table_lines_def fun_eq_iff)
qed

theorem failed_start_keeps_lines_witness:
  "\<exists>w' s. proj_main_loop (table_kernel\<lparr>mouse_enable_data_reporting := \<lambda>w. (1, w)\<rparr>) (proj_globals, (sim0, [])) = Some (Inr (1, w')) \<and>
     table_lines w' = with_lines s (table_lines (sim0, []))"
proof -
  let ?K = "table_kernel\<lparr>mouse_enable_data_reporting := \<lambda>w. (1, w)\<rparr>"
  have "irq_ledger ?K table_lines" using table_ledger by (simp add: irq_ledger_def quiet_calls_def)
  moreover have "rand_ok ?K" "rand_fair ?K" using table_kernel_rand rand_cong [of ?K table_kernel] by simp_all
  moreover have "\<forall>irq pol h w. fst (fst (sys_irqsetpolicy ?K irq pol h w)) = 0" by (simp add: table_kernel_def split_beta)
  ultimately show ?thesis
    using failed_start_keeps_lines [of ?K table_lines proj_globals "(sim0, [])"] proj_globals_tables(1) by auto
qed

end
