(* ===== verification/Entry_Points.thy ===== *)
theory Entry_Points
  imports Kernel_Env
begin

text \<open>
  The \<open>main\<close> functions: the game, the four labs and \<open>hello.c\<close>.  The framework that parses the
  command line and calls the program's function is not in the repository; its five calls and
  \<open>printf\<close> are the fields of a record.  \<open>lcf_start\<close> runs the program, so it may not return and may
  stop with a fault.
\<close>

record 'w framework =
  lcf_set_language :: "string \<Rightarrow> 'w \<Rightarrow> bool \<times> 'w"
  lcf_trace_calls :: "string \<Rightarrow> 'w \<Rightarrow> bool \<times> 'w"
  lcf_log_output :: "string \<Rightarrow> 'w \<Rightarrow> bool \<times> 'w"
  lcf_start :: "int \<Rightarrow> string list \<Rightarrow> 'w \<Rightarrow> (int \<times> 'w) run"
  lcf_cleanup :: "'w \<Rightarrow> int \<times> 'w"
  printf :: "string \<Rightarrow> 'w \<Rightarrow> int \<times> 'w"

text \<open>The body all five programs share, over the names of its two log files.\<close>

definition lcf_main :: "string \<Rightarrow> string \<Rightarrow> 'w framework \<Rightarrow> int \<Rightarrow> string list \<Rightarrow> 'w \<Rightarrow> (int \<times> 'w) run" where
  "lcf_main trace output F argc argv w =
     (case lcf_set_language F ''EN-US'' w of (_, w1) \<Rightarrow>
      case lcf_trace_calls F trace w1 of (_, w2) \<Rightarrow>
      case lcf_log_output F output w2 of (_, w3) \<Rightarrow>
      run_then (lcf_start F argc argv w3) (\<lambda>(r, w4).
      if r \<noteq> 0 then Some (Inr (1, w4))
      else case lcf_cleanup F w4 of (_, w5) \<Rightarrow> Some (Inr (0, w5))))"

definition proj_main :: "'w framework \<Rightarrow> int \<Rightarrow> string list \<Rightarrow> 'w \<Rightarrow> (int \<times> 'w) run" where
  "proj_main = lcf_main ''/home/lcom/labs/g02/proj/src/trace.txt'' ''/home/lcom/labs/g02/proj/src/output.txt''"

definition lab2_main :: "'w framework \<Rightarrow> int \<Rightarrow> string list \<Rightarrow> 'w \<Rightarrow> (int \<times> 'w) run" where
  "lab2_main = lcf_main ''./trace.txt'' ''./output.txt''"

definition lab3_main :: "'w framework \<Rightarrow> int \<Rightarrow> string list \<Rightarrow> 'w \<Rightarrow> (int \<times> 'w) run" where
  "lab3_main = lcf_main ''./trace.txt'' ''./output.txt''"

definition lab4_main :: "'w framework \<Rightarrow> int \<Rightarrow> string list \<Rightarrow> 'w \<Rightarrow> (int \<times> 'w) run" where
  "lab4_main = lcf_main ''./trace.txt'' ''./output.txt''"

definition lab5_main :: "'w framework \<Rightarrow> int \<Rightarrow> string list \<Rightarrow> 'w \<Rightarrow> (int \<times> 'w) run" where
  "lab5_main = lcf_main ''./trace.txt'' ''./output.txt''"

definition hello_main :: "'w framework \<Rightarrow> 'w \<Rightarrow> int \<times> 'w" where
  "hello_main F w = (case printf F (''hello MINIX'' @ [CHR 0x0A]) w of (_, w1) \<Rightarrow> (0, w1))"

lemmas main_defs = proj_main_def lab2_main_def lab3_main_def lab4_main_def lab5_main_def

section \<open>The framework is closed exactly when the program succeeded\<close>

text \<open>The calls of the framework, as an observer of the world sees them.\<close>

datatype framework_call = Set_Language string | Trace_Calls string | Log_Output string | Start "string list" | Cleanup

definition framework_traced :: "'w framework \<Rightarrow> ('w \<Rightarrow> framework_call list) \<Rightarrow> bool" where
  "framework_traced F calls \<longleftrightarrow>
     (\<forall>l w. calls (snd (lcf_set_language F l w)) = calls w @ [Set_Language l]) \<and>
     (\<forall>f w. calls (snd (lcf_trace_calls F f w)) = calls w @ [Trace_Calls f]) \<and>
     (\<forall>f w. calls (snd (lcf_log_output F f w)) = calls w @ [Log_Output f]) \<and>
     (\<forall>n argv w r w'. lcf_start F n argv w = Some (Inr (r, w')) \<longrightarrow> calls w' = calls w @ [Start argv]) \<and>
     (\<forall>w. calls (snd (lcf_cleanup F w)) = calls w @ [Cleanup])"

lemma main_calls:
  assumes F: "framework_traced F calls" and "lcf_main trace output F argc argv w = Some (Inr (code, w'))"
  shows "code \<in> {0, 1} \<and> calls w' = calls w @
    [Set_Language ''EN-US'', Trace_Calls trace, Log_Output output, Start argv] @ (if code = 0 then [Cleanup] else [])"
proof -
  let ?w1 = "snd (lcf_set_language F ''EN-US'' w)"
  let ?w2 = "snd (lcf_trace_calls F trace ?w1)"
  let ?w3 = "snd (lcf_log_output F output ?w2)"
  from assms(2) obtain r w4 where s: "lcf_start F argc argv ?w3 = Some (Inr (r, w4))"
    and e: "(code, w') = (if r \<noteq> 0 then (1, w4) else (0, snd (lcf_cleanup F w4)))"
    by (auto simp: lcf_main_def run_then_eq_Inr split_beta split: if_splits)
  have "calls ?w3 = calls w @ [Set_Language ''EN-US'', Trace_Calls trace, Log_Output output]"
    using F by (simp add: framework_traced_def)
  moreover have "calls w4 = calls ?w3 @ [Start argv]" using F s by (metis framework_traced_def)
  moreover have "calls (snd (lcf_cleanup F w4)) = calls w4 @ [Cleanup]" using F by (simp add: framework_traced_def)
  ultimately show ?thesis using e by (auto split: if_splits)
qed

text \<open>A framework that only writes its calls down; the program it starts returns the length of its command line.\<close>

definition log_framework :: "framework_call list framework" where
  "log_framework = \<lparr>lcf_set_language = (\<lambda>l w. (True, w @ [Set_Language l])),
     lcf_trace_calls = (\<lambda>f w. (True, w @ [Trace_Calls f])), lcf_log_output = (\<lambda>f w. (True, w @ [Log_Output f])),
     lcf_start = (\<lambda>n argv w. Some (Inr (int (length argv), w @ [Start argv]))),
     lcf_cleanup = (\<lambda>w. (0, w @ [Cleanup])), printf = (\<lambda>s w. (int (length s), w))\<rparr>"

lemma log_framework_traced: "framework_traced log_framework id"
  by (simp add: framework_traced_def log_framework_def)

end
