(* ===== verification/Irq_Loop.thy ===== *)
theory Irq_Loop
  imports Kernel_Env
begin

text \<open>
  The interrupt loop every lab test is written around: while a condition on the state holds,
  receive a message, and hand a hardware notification to the body of the loop.  A failed
  \<open>driver_receive\<close>, a message that is no notification and a notification that does not come from
  the hardware change nothing.  The locale \<open>counted_loop\<close> is the contract under which such a
  loop returns: the device keeps interrupting, and every interrupt brings the state nearer to the
  end.
\<close>

unbundle bit_operations_syntax

definition hardware_notify :: "int \<times> message \<times> u32 \<Rightarrow> bool" where
  "hardware_notify m \<longleftrightarrow>
     (case m of (r, msg, ipc_status) \<Rightarrow>
        r = 0 \<and> is_ipc_notify ipc_status \<and> ENDPOINT_P (m_source msg) = HARDWARE)"

partial_function (option) irq_loop ::
  "'w kernel \<Rightarrow> ('s \<Rightarrow> bool) \<Rightarrow> (message \<Rightarrow> 's \<times> 'w \<Rightarrow> ('s \<times> 'w) run) \<Rightarrow> 's \<times> 'w \<Rightarrow> ('s \<times> 'w) run" where
  "irq_loop K guard body st =
     (if guard (fst st) then
        (case driver_receive K (snd st) of (m, w1) \<Rightarrow>
           if hardware_notify m then
             (case body (fst (snd m)) (fst st, w1) of
                None \<Rightarrow> None
              | Some (Inl f) \<Rightarrow> Some (Inl f)
              | Some (Inr st') \<Rightarrow> irq_loop K guard body st')
           else irq_loop K guard body (fst st, w1))
      else Some (Inr st))"

section \<open>Reference definitions\<close>

text \<open>
  A message with one of the lines of \<open>line\<close>; one arrives after \<open>n\<close> others; a device that never
  stops interrupting.
\<close>

definition on_line :: "u32 \<Rightarrow> int \<times> message \<times> u32 \<Rightarrow> bool" where
  "on_line line m \<longleftrightarrow> hardware_notify m \<and> interrupts (fst (snd m)) AND line \<noteq> 0"

fun notified_after :: "'w kernel \<Rightarrow> u32 \<Rightarrow> nat \<Rightarrow> 'w \<Rightarrow> bool" where
  "notified_after K line 0 w \<longleftrightarrow> on_line line (fst (driver_receive K w))"
| "notified_after K line (Suc n) w \<longleftrightarrow>
     \<not> on_line line (fst (driver_receive K w)) \<and> notified_after K line n (snd (driver_receive K w))"

definition keeps_interrupting :: "'w kernel \<Rightarrow> u32 \<Rightarrow> bool" where
  "keeps_interrupting K line \<longleftrightarrow> (\<forall>w. \<exists>n. notified_after K line n w)"

text \<open>
  An observation of the world that counts the messages with one of the lines of \<open>line\<close> and that no other call of the
  tests changes.
\<close>

definition irqs_seen :: "'w kernel \<Rightarrow> u32 \<Rightarrow> ('w \<Rightarrow> nat) \<Rightarrow> bool" where
  "irqs_seen K line seen \<longleftrightarrow>
     (\<forall>w. seen (snd (driver_receive K w)) = (if on_line line (fst (driver_receive K w)) then Suc (seen w) else seen w)) \<and>
     ports_quiet K seen \<and> (\<forall>i p h w. seen (snd (sys_irqsetpolicy K i p h w)) = seen w) \<and>
     (\<forall>h w. seen (snd (sys_irqrmpolicy K h w)) = seen w) \<and> (\<forall>w. seen (timer_print_elapsed_time K w) = seen w)"

section \<open>The contract\<close>

text \<open>
  \<open>good\<close> is an invariant of state and world between two messages, \<open>rank\<close> is the number of interrupts still needed.
\<close>

locale counted_loop =
  fixes K :: "'w kernel" and guard :: "'s \<Rightarrow> bool" and body :: "message \<Rightarrow> 's \<times> 'w \<Rightarrow> ('s \<times> 'w) run"
    and line :: u32 and rank :: "'s \<Rightarrow> nat" and good :: "'s \<times> 'w \<Rightarrow> bool"
  assumes receive_good: "good (s, w) \<Longrightarrow> driver_receive K w = (m, w1) \<Longrightarrow> \<not> on_line line m \<Longrightarrow> good (s, w1)"
    and idle: "good (s, w) \<Longrightarrow> driver_receive K w = (m, w1) \<Longrightarrow> hardware_notify m \<Longrightarrow> \<not> on_line line m \<Longrightarrow>
      body (fst (snd m)) (s, w1) = Some (Inr (s, w1))"
    and progress: "good (s, w) \<Longrightarrow> guard s \<Longrightarrow> driver_receive K w = (m, w1) \<Longrightarrow> on_line line m \<Longrightarrow>
      \<exists>s' w'. body (fst (snd m)) (s, w1) = Some (Inr (s', w')) \<and> good (s', w') \<and> rank s' < rank s"
begin

lemma skips_others:
  assumes "notified_after K line n w" and "good (s, w)" and "guard s"
  shows "\<exists>s' w'. good (s', w') \<and> rank s' < rank s \<and>
    irq_loop K guard body (s, w) = irq_loop K guard body (s', w')"
  using assms
proof (induction n arbitrary: w)
  case 0
  obtain m w1 where d: "driver_receive K w = (m, w1)" by (metis prod.exhaust)
  have "on_line line m" using 0(1) by (simp add: d)
  then have "hardware_notify m" "on_line line m" by (simp_all add: on_line_def)
  with progress [OF 0(2,3) d] show ?case
    by (subst irq_loop.simps) (fastforce simp: d 0(3))
next
  case (Suc n)
  obtain m w1 where d: "driver_receive K w = (m, w1)" by (metis prod.exhaust)
  have m: "\<not> on_line line m" using Suc.prems(1) by (simp add: d)
  have "irq_loop K guard body (s, w) = irq_loop K guard body (s, w1)"
    using idle [OF Suc.prems(2) d _ m] by (subst irq_loop.simps) (auto simp: d Suc.prems(3))
  with Suc.IH [of w1] Suc.prems receive_good [OF Suc.prems(2) d m] show ?case by (simp add: d)
qed

lemma loop_returns:
  assumes "keeps_interrupting K line" and "good (s, w)"
  shows "\<exists>s' w'. irq_loop K guard body (s, w) = Some (Inr (s', w')) \<and> good (s', w') \<and> \<not> guard s'"
  using assms(2)
proof (induction "rank s" arbitrary: s w rule: less_induct)
  case less
  show ?case
  proof (cases "guard s")
    case True
    obtain n where "notified_after K line n w" using assms(1) by (auto simp: keeps_interrupting_def)
    from skips_others [OF this less.prems True] less.hyps show ?thesis by metis
  next
    case False
    with less.prems show ?thesis by (subst irq_loop.simps) auto
  qed
qed

end

section \<open>An environment that only interrupts\<close>

text \<open>
  The machine \<open>K\<close> with another device and a timer that interrupt in turn, once each; the messages are counted in the list of
  port values, which \<open>K\<close> does not use.
\<close>

definition notification :: "u32 \<Rightarrow> int \<times> message \<times> u32" where
  "notification irqs = (0, \<lparr>m_source = HARDWARE, interrupts = irqs\<rparr>, 4)"

definition alternating :: "sim kernel \<Rightarrow> sim kernel" where
  "alternating K = K\<lparr>driver_receive := (\<lambda>w. (notification (if even (length (sim_in w)) then 4 else 1),
     w\<lparr>sim_in := (0, 0) # sim_in w\<rparr>))\<rparr>"

lemma on_line_notification: "on_line line (notification irqs) \<longleftrightarrow> irqs AND line \<noteq> 0"
  by (simp add: on_line_def hardware_notify_def notification_def is_ipc_notify_def NOTIFY_def ENDPOINT_P_def
      HARDWARE_def MAX_NR_TASKS_def)

lemma alternating_receive:
  "driver_receive (alternating K) w = (notification (if even (length (sim_in w)) then 4 else 1), w\<lparr>sim_in := (0, 0) # sim_in w\<rparr>)"
  by (simp add: alternating_def)

lemma alternating_interrupts: "keeps_interrupting (alternating K) 1"
proof -
  have "notified_after (alternating K) 1 (if even (length (sim_in w)) then Suc 0 else 0) w" for w
    by (simp add: alternating_receive on_line_notification)
  then show ?thesis by (auto simp: keeps_interrupting_def)
qed

lemma alternating_seen:
  assumes "ports_quiet K sim_in" and "\<And>i p h w. sim_in (snd (sys_irqsetpolicy K i p h w)) = sim_in w"
    and "\<And>h w. sim_in (snd (sys_irqrmpolicy K h w)) = sim_in w" and "\<And>w. sim_in (timer_print_elapsed_time K w) = sim_in w"
  shows "irqs_seen (alternating K) 1 (\<lambda>w. length (sim_in w) div 2)"
proof -
  have "Suc (length (sim_in w)) div 2 = (if even (length (sim_in w)) then length (sim_in w) div 2 else Suc (length (sim_in w) div 2))" for w
    by presburger
  then show ?thesis
    using assms unfolding irqs_seen_def by (simp add: alternating_receive on_line_notification) (simp add: alternating_def ports_quiet_def)
qed

text \<open>A loop that returns has left its condition.\<close>

lemma irq_loop_exit:
  assumes "irq_loop K guard body st = Some (Inr st')"
  shows "\<not> guard (fst st')"
proof -
  have "\<forall>st'. y = Inr st' \<longrightarrow> \<not> guard (fst st')" if "irq_loop K guard body st = Some y" for y
    using that
    by (rule irq_loop.raw_induct [where P = "\<lambda>K g body st y. \<forall>st'. y = Inr st' \<longrightarrow> \<not> g (fst st')", rotated])
      (auto split: if_splits prod.splits option.splits sum.splits, blast+)
  with assms show ?thesis by blast
qed

end
