(* ===== verification/Lab3.thy ===== *)
theory Lab3
  imports Keyboard Irq_Loop
begin

text \<open>
  \<open>lab3\<close>: the first keyboard driver (\<open>keyboard.c\<close>, \<open>utils.c\<close>, \<open>timer.c\<close>) and its tests
  (\<open>lab3.c\<close>).  The program is built with \<open>-DLAB3\<close>, so \<open>util_sys_inb\<close> counts its calls.

  \<open>kbd_test_poll\<close> and \<open>kbd_test_timed_scan\<close> call \<open>kbc_read\<close>, \<open>kbc_print_scancode\<close>, \<open>kbc_subscribe\<close>
  without argument and read \<open>cnt\<close>, which the sources of \<open>lab3\<close> do not define: these are the fields
  of the record \<open>lab3_missing\<close>, an argument of the two tests.
\<close>

unbundle bit_operations_syntax

section \<open>\<open>utils.c\<close>\<close>

definition lab3_util_get_LSB :: "u16 \<Rightarrow> u8 option \<Rightarrow> int \<times> u8 option" where
  "lab3_util_get_LSB val lsb = (if lsb = None then (1, None) else (0, Some (ucast val)))"

definition lab3_util_get_MSB :: "u16 \<Rightarrow> u8 option \<Rightarrow> int \<times> u8 option" where
  "lab3_util_get_MSB val msb =
     (if msb = None then (1, None) else let val = drop_bit 8 val in (0, Some (ucast val)))"

text \<open>The last component of the state is the global \<open>count\<close>.\<close>

definition lab3_util_sys_inb :: "'w kernel \<Rightarrow> int \<Rightarrow> u8 \<Rightarrow> int \<times> 'w \<Rightarrow> (int \<times> u8) \<times> int \<times> 'w" where
  "lab3_util_sys_inb K port old st =
     (case st of (count, w) \<Rightarrow>
      case sys_inb K port w of ((aux, byt32), w') \<Rightarrow>
        let count = count + 1 in
        if aux \<noteq> 0 then ((1, old), count, w') else ((0, ucast byt32), count, w'))"

interpretation lab3_bytes: byte_access lab3_util_get_LSB lab3_util_get_MSB
  by unfold_locales (simp_all add: lab3_util_get_LSB_def lab3_util_get_MSB_def)

text \<open>Whatever the counter holds, the routine reads ports as the contract says.\<close>

interpretation lab3_port: port_reader
    "\<lambda>K p old w. apsnd snd (lab3_util_sys_inb K p old (n, w))" for n
  by unfold_locales (simp_all add: lab3_util_sys_inb_def Let_def)

section \<open>\<open>keyboard.c\<close> and \<open>timer.c\<close>\<close>

record lab3 =
  l3_hook_id_kbd :: int
  l3_scancode :: u8
  l3_bytes :: int
  l3_scancodes :: "u8 list"
  l3_makecode :: bool
  l3_count :: int
  l3_hook_id_timer :: int
  l3_counter :: int

definition lab3_init :: lab3 where
  "lab3_init = \<lparr>l3_hook_id_kbd = 0, l3_scancode = 0, l3_bytes = 1, l3_scancodes = [0, 0],
     l3_makecode = False, l3_count = 0, l3_hook_id_timer = 0, l3_counter = 0\<rparr>"

definition lab3_kbc_subscribe :: "'w kernel \<Rightarrow> u8 \<Rightarrow> lab3 \<Rightarrow> 'w \<Rightarrow> (int \<times> lab3) \<times> 'w" where
  "lab3_kbc_subscribe K bit_no s w =
     (let s1 = s\<lparr>l3_hook_id_kbd := uint bit_no\<rparr> in
      case sys_irqsetpolicy K IRQ1 (IRQ_REENABLE OR IRQ_EXCLUSIVE) (l3_hook_id_kbd s1) w of ((r, h), w') \<Rightarrow>
        ((if r \<noteq> OK then 1 else 0, s1\<lparr>l3_hook_id_kbd := h\<rparr>), w'))"

definition lab3_kbc_unsubscribe :: "'w kernel \<Rightarrow> lab3 \<Rightarrow> 'w \<Rightarrow> (int \<times> lab3) \<times> 'w" where
  "lab3_kbc_unsubscribe K s w =
     (case sys_irqrmpolicy K (l3_hook_id_kbd s) w of ((r, h), w') \<Rightarrow>
        ((if r \<noteq> OK then 1 else 0, s\<lparr>l3_hook_id_kbd := h\<rparr>), w'))"

definition lab3_kbc_ih :: "'w kernel \<Rightarrow> lab3 \<Rightarrow> 'w \<Rightarrow> lab3 \<times> 'w" where
  "lab3_kbc_ih K s w =
     (case lab3_util_sys_inb K 0x64 (indeterminate K w) (l3_count s, w) of ((_, st), n1, w1) \<Rightarrow>
        let s1 = s\<lparr>l3_count := n1\<rparr> in
        if st AND BIT 0 \<noteq> 0 then
          (case lab3_util_sys_inb K 0x60 (l3_scancode s1) (l3_count s1, w1) of ((_, sc), n2, w2) \<Rightarrow>
             (s1\<lparr>l3_count := n2, l3_scancode := sc\<rparr>, w2))
        else (s1, w1))"

definition lab3_printSC :: "'w kernel \<Rightarrow> lab3 \<Rightarrow> 'w \<Rightarrow> lab3 \<times> 'w" where
  "lab3_printSC K s w =
     (if l3_scancode s = 0xE0 then
        (s\<lparr>l3_scancodes := (l3_scancodes s)[0 := l3_scancode s], l3_bytes := 2\<rparr>, w)
      else
        let s1 = (if l3_scancode s AND 0x80 = 0 then s\<lparr>l3_makecode := True\<rparr> else s);
            s2 = (if l3_bytes s1 = 2 then s1\<lparr>l3_scancodes := (l3_scancodes s1)[1 := l3_scancode s1]\<rparr>
                  else s1\<lparr>l3_scancodes := (l3_scancodes s1)[0 := l3_scancode s1]\<rparr>);
            w1 = kbd_print_scancode K (l3_makecode s2) (word_of_int (l3_bytes s2)) (l3_scancodes s2) w
        in (s2\<lparr>l3_bytes := 1, l3_scancodes := (l3_scancodes s2)[0 := 0, 1 := 0], l3_makecode := False\<rparr>, w1))"

text \<open>\<open>timer_subscribe_int\<close> leaves \<open>*bit_no\<close> as it is.\<close>

definition lab3_timer_subscribe_int :: "'w kernel \<Rightarrow> u8 \<Rightarrow> lab3 \<Rightarrow> 'w \<Rightarrow> (int \<times> u8 \<times> lab3) \<times> 'w" where
  "lab3_timer_subscribe_int K bit_no s w =
     (let s1 = s\<lparr>l3_hook_id_timer := IRQ0\<rparr> in
      case sys_irqsetpolicy K IRQ0 IRQ_REENABLE (l3_hook_id_timer s1) w of ((r, h), w') \<Rightarrow>
        ((if r \<noteq> OK then 1 else 0, bit_no, s1\<lparr>l3_hook_id_timer := h\<rparr>), w'))"

definition lab3_timer_unsubscribe_int :: "'w kernel \<Rightarrow> lab3 \<Rightarrow> 'w \<Rightarrow> (int \<times> lab3) \<times> 'w" where
  "lab3_timer_unsubscribe_int K s w =
     (case sys_irqrmpolicy K (l3_hook_id_timer s) w of ((r, h), w') \<Rightarrow>
        ((if r \<noteq> OK then 1 else 0, s\<lparr>l3_hook_id_timer := h\<rparr>), w'))"

definition lab3_timer_int_handler :: "lab3 \<Rightarrow> lab3" where
  "lab3_timer_int_handler s = s\<lparr>l3_counter := l3_counter s + 1\<rparr>"

section \<open>\<open>lab3.c\<close>\<close>

definition kbd_test_scan_irq :: "'w kernel \<Rightarrow> u8 \<Rightarrow> message \<Rightarrow> lab3 \<times> 'w \<Rightarrow> (lab3 \<times> 'w) run" where
  "kbd_test_scan_irq K irq_set msg st =
     (case st of (s, w) \<Rightarrow>
      if interrupts msg AND ucast irq_set \<noteq> 0 then
        (case lab3_kbc_ih K s w of (s1, w1) \<Rightarrow> Some (Inr (lab3_printSC K s1 w1)))
      else Some (Inr (s, w)))"

definition kbd_test_scan :: "'w kernel \<Rightarrow> lab3 \<Rightarrow> 'w \<Rightarrow> (int \<times> lab3 \<times> 'w) run" where
  "kbd_test_scan K s w =
     (let hookid = (0 :: u8); irq_set = BIT (unat hookid) in
      case lab3_kbc_subscribe K hookid s w of ((r, s1), w1) \<Rightarrow>
      if r \<noteq> 0 then Some (Inr (1, s1, w1)) else
      run_then (irq_loop K (\<lambda>s. l3_scancode s \<noteq> 0x81) (kbd_test_scan_irq K irq_set) (s1, w1)) (\<lambda>(s2, w2).
      let w3 = kbd_print_no_sysinb K (l3_count s2) w2 in
      case lab3_kbc_unsubscribe K s2 w3 of ((r2, s3), w4) \<Rightarrow>
      if r2 \<noteq> 0 then Some (Inr (1, s3, w4)) else Some (Inr (0, s3, w4))))"

text \<open>What \<open>lab3.c\<close> uses and the sources of \<open>lab3\<close> do not define.\<close>

record 'w lab3_missing =
  kbc_subscribe_noarg :: "lab3 \<Rightarrow> 'w \<Rightarrow> (int \<times> lab3) \<times> 'w"
  kbc_read_ext :: "lab3 \<Rightarrow> 'w \<Rightarrow> (lab3 \<times> 'w) option"
  kbc_print_scancode_ext :: "lab3 \<Rightarrow> 'w \<Rightarrow> lab3 \<times> 'w"
  cnt_ext :: "lab3 \<Rightarrow> 'w \<Rightarrow> int"

partial_function (option) kbd_test_poll_loop :: "'w lab3_missing \<Rightarrow> lab3 \<times> 'w \<Rightarrow> (lab3 \<times> 'w) option" where
  "kbd_test_poll_loop M st =
     (case st of (s, w) \<Rightarrow>
      if l3_scancode s \<noteq> ESCAPE then
        (case kbc_read_ext M s w of None \<Rightarrow> None
         | Some (s1, w1) \<Rightarrow> kbd_test_poll_loop M (kbc_print_scancode_ext M s1 w1))
      else Some (s, w))"

definition kbd_test_poll :: "'w kernel \<Rightarrow> 'w lab3_missing \<Rightarrow> lab3 \<Rightarrow> 'w \<Rightarrow> (int \<times> lab3 \<times> 'w) option" where
  "kbd_test_poll K M s w =
     (case kbd_test_poll_loop M (s, w) of None \<Rightarrow> None
      | Some (s1, w1) \<Rightarrow>
      case sys_outb K INPUT_BUFFER_COMMANDS READ_COMMAND w1 of (r, w2) \<Rightarrow>
      if r \<noteq> 0 then Some (1, s1, w2) else
      case kbc_read_ext M s1 w2 of None \<Rightarrow> None
      | Some (s2, w3) \<Rightarrow>
      case sys_outb K INPUT_BUFFER_COMMANDS WRITE_COMMAND w3 of (r2, w4) \<Rightarrow>
      if r2 \<noteq> 0 then Some (1, s2, w4) else
      case sys_outb K INPUT_BUFFER_ARGUMENTS (l3_scancode s2 OR BIT 0) w4 of (r3, w5) \<Rightarrow>
      if r3 \<noteq> 0 then Some (1, s2, w5) else
      Some (0, s2, kbd_print_no_sysinb K (cnt_ext M s2 w5) w5))"

definition kbd_test_timed_scan_irq ::
  "'w kernel \<Rightarrow> 'w lab3_missing \<Rightarrow> u8 \<Rightarrow> u32 \<Rightarrow> u32 \<Rightarrow> message \<Rightarrow> lab3 \<times> 'w \<Rightarrow> (lab3 \<times> 'w) run" where
  "kbd_test_timed_scan_irq K M n irq_set_kbd irq_set_timer msg st =
     (let (s1, w1) = (case st of (s, w) \<Rightarrow>
            if interrupts msg AND irq_set_kbd \<noteq> 0 then
              (case lab3_kbc_ih K s w of (s1, w1) \<Rightarrow>
               case kbc_print_scancode_ext M s1 w1 of (s2, w2) \<Rightarrow> (s2\<lparr>l3_counter := 0\<rparr>, w2))
            else (s, w))
      in if interrupts msg AND irq_set_timer \<noteq> 0 then
           let s2 = lab3_timer_int_handler s1 in
           Some (Inr (if l3_counter s2 \<ge> uint n * 60 then s2\<lparr>l3_scancode := ESCAPE\<rparr> else s2, w1))
         else Some (Inr (s1, w1)))"

definition kbd_test_timed_scan ::
  "'w kernel \<Rightarrow> 'w lab3_missing \<Rightarrow> u8 \<Rightarrow> lab3 \<Rightarrow> 'w \<Rightarrow> (int \<times> lab3 \<times> 'w) run" where
  "kbd_test_timed_scan K M n s w =
     (let bit_no_timer = (word_of_int IRQ0 :: u8);
          irq_set_kbd = push_bit (nat IRQ1) 1; irq_set_timer = push_bit (unat bit_no_timer) 1 in
      case kbc_subscribe_noarg M s w of ((r, s1), w1) \<Rightarrow>
      if r \<noteq> 0 then Some (Inr (1, s1, w1)) else
      case lab3_timer_subscribe_int K bit_no_timer s1 w1 of ((r2, _, s2), w2) \<Rightarrow>
      if r2 \<noteq> 0 then Some (Inr (1, s2, w2)) else
      run_then (irq_loop K (\<lambda>s. l3_scancode s \<noteq> ESCAPE)
          (kbd_test_timed_scan_irq K M n irq_set_kbd irq_set_timer) (s2, w2)) (\<lambda>(s3, w3).
      case lab3_kbc_unsubscribe K s3 w3 of ((_, s4), w4) \<Rightarrow>
      case lab3_timer_unsubscribe_int K s4 w4 of ((_, s5), w5) \<Rightarrow>
      Some (Inr (0, s5, kbd_print_no_sysinb K (cnt_ext M s5 w5) w5))))"

section \<open>Lemmas\<close>

interpretation lab3_timer_line: irq_line "\<lambda>K. lab3_timer_subscribe_int K 0" lab3_timer_unsubscribe_int
    l3_hook_id_timer "\<lambda>h. l3_hook_id_timer_update (\<lambda>_. h)" IRQ0 IRQ_REENABLE 0
  by unfold_locales (simp_all add: lab3_timer_subscribe_int_def lab3_timer_unsubscribe_int_def
      Let_def OK_def IRQ0_def split_beta)

interpretation lab3_kbd_line: irq_line "\<lambda>K s w. apfst (\<lambda>(r, s'). (r, bit, s')) (lab3_kbc_subscribe K bit s w)"
    lab3_kbc_unsubscribe l3_hook_id_kbd "\<lambda>h. l3_hook_id_kbd_update (\<lambda>_. h)"
    IRQ1 "IRQ_REENABLE OR IRQ_EXCLUSIVE" "uint bit" for bit
  by unfold_locales (simp_all add: lab3_kbc_subscribe_def lab3_kbc_unsubscribe_def
      Let_def OK_def split_beta)

text \<open>The keyboard part of the state as the project's driver has it.\<close>

definition lab3_keyboard :: "lab3 \<Rightarrow> keyboard" where
  "lab3_keyboard s = \<lparr>hook_id_kbd = l3_hook_id_kbd s, scancode = l3_scancode s, bytes = l3_bytes s,
     scancodes = l3_scancodes s, makecode = l3_makecode s\<rparr>"

lemma lab3_printSC_refines:
  "apfst lab3_keyboard (lab3_printSC K s w) = snd (printSC K (lab3_keyboard s) w)"
  by (simp add: lab3_printSC_def printSC_def lab3_keyboard_def Let_def)

lemma lab3_kbc_ih_refines:
  "apfst lab3_keyboard (lab3_kbc_ih K s w) = kbc_ih K (lab3_keyboard s) w"
  by (simp add: lab3_kbc_ih_def kbc_ih_def lab3_util_sys_inb_def util_sys_inb_def lab3_keyboard_def
      Let_def OUT_BUFF_def split_beta)

text \<open>A test that returns has seen the break code of the escape key.\<close>

lemma kbd_test_scan_escape:
  assumes "kbd_test_scan K s w = Some (Inr (0, s', w'))"
  shows "l3_scancode s' = 0x81"
  using assms
  by (auto simp: kbd_test_scan_def Let_def run_then_def lab3_kbc_unsubscribe_def
      split: if_splits prod.splits option.splits sum.splits dest!: irq_loop_exit)

end
