(* ===== verification/Lab2.thy ===== *)
theory Lab2
  imports Timer_Driver Irq_Loop
begin

text \<open>
  \<open>lab2\<close>: the first version of the timer driver (\<open>utils.c\<close>, \<open>timer.c\<close>) and its three tests
  (\<open>lab2.c\<close>).  The constants of \<open>i8254.h\<close> are those of the project.  \<open>lab4\<close> has the same two
  driver files.  The driver is equivalent to the project's, except in the bit number the
  subscription returns.
\<close>

unbundle bit_operations_syntax

section \<open>\<open>utils.c\<close>\<close>

definition lab2_util_get_LSB :: "u16 \<Rightarrow> u8 option \<Rightarrow> int \<times> u8 option" where
  "lab2_util_get_LSB val lsb = (if lsb = None then (1, None) else (0, Some (ucast val)))"

definition lab2_util_get_MSB :: "u16 \<Rightarrow> u8 option \<Rightarrow> int \<times> u8 option" where
  "lab2_util_get_MSB val msb =
     (if msb = None then (1, None) else let val = drop_bit 8 val in (0, Some (ucast val)))"

definition lab2_util_sys_inb :: "'w kernel \<Rightarrow> int \<Rightarrow> u8 \<Rightarrow> 'w \<Rightarrow> (int \<times> u8) \<times> 'w" where
  "lab2_util_sys_inb K port old w =
     (case sys_inb K port w of ((r, byt32), w') \<Rightarrow>
        if r \<noteq> 0 then ((1, old), w') else ((0, ucast byt32), w'))"

interpretation lab2_bytes: byte_access lab2_util_get_LSB lab2_util_get_MSB
  by unfold_locales (simp_all add: lab2_util_get_LSB_def lab2_util_get_MSB_def)

interpretation lab2_port: port_reader lab2_util_sys_inb
  by unfold_locales (simp_all add: lab2_util_sys_inb_def)

section \<open>\<open>timer.c\<close>\<close>

record lab2_timer =
  l2_tck_counter :: int
  l2_hook_id :: int

definition lab2_timer_init :: lab2_timer where
  "lab2_timer_init = \<lparr>l2_tck_counter = 0, l2_hook_id = 0\<rparr>"

definition lab2_timer_get_conf :: "'w kernel \<Rightarrow> u8 \<Rightarrow> u8 \<Rightarrow> 'w \<Rightarrow> (int \<times> u8) \<times> 'w" where
  "lab2_timer_get_conf K tmr st w =
     (if tmr > 2 \<or> tmr < 0 then ((1, st), w)
      else
        let rbc = TIMER_RB_CMD OR TIMER_RB_COUNT OR TIMER_RB_SEL tmr in
        case sys_outb K TIMER_CTRL rbc w of (_, w1) \<Rightarrow>
        let port = (if tmr = 0 then TIMER_0 else if tmr = 1 then TIMER_1
                    else if tmr = 2 then TIMER_2 else 0) in
        case lab2_util_sys_inb K port st w1 of ((r, st'), w2) \<Rightarrow>
          if r \<noteq> 0 then ((1, st'), w2) else ((0, st'), w2))"

text \<open>The \<open>switch\<close> on the timer: register and control word.\<close>

definition lab2_select :: "u8 \<Rightarrow> u8 \<Rightarrow> (int \<times> u8) option" where
  "lab2_select tmr last_bits =
     (if tmr = 0 then Some (TIMER_0, 0 OR TIMER_LSB_MSB OR last_bits)
      else if tmr = 1 then Some (TIMER_1, TIMER_SEL1 OR TIMER_LSB_MSB OR last_bits)
      else if tmr = 2 then Some (TIMER_2, TIMER_SEL2 OR TIMER_LSB_MSB OR last_bits)
      else None)"

definition lab2_timer_set_frequency :: "'w kernel \<Rightarrow> u8 \<Rightarrow> u32 \<Rightarrow> 'w \<Rightarrow> int \<times> 'w" where
  "lab2_timer_set_frequency K tmr freq w =
     (case lab2_timer_get_conf K tmr (indeterminate K w) w of ((r, status), w1) \<Rightarrow>
      if r \<noteq> 0 then (1, w1)
      else let last_bits = status AND 0x0F in
      if freq < 19 \<or> freq > TIMER_FREQ then (1, w1)
      else case lab2_select tmr last_bits of
        None \<Rightarrow> (1, w1)
      | Some (timeraddr, control_word) \<Rightarrow>
          let dv = (ucast (TIMER_FREQ div freq) :: u16);
              lsb = the (snd (lab2_util_get_LSB dv (Some (indeterminate K w1))));
              msb = the (snd (lab2_util_get_MSB dv (Some (indeterminate K w1))))
          in case sys_outb K TIMER_CTRL control_word w1 of (r1, w2) \<Rightarrow>
             if r1 \<noteq> 0 then (1, w2) else
             case sys_outb K timeraddr lsb w2 of (r2, w3) \<Rightarrow>
             if r2 \<noteq> 0 then (1, w3) else
             case sys_outb K timeraddr msb w3 of (r3, w4) \<Rightarrow>
             if r3 \<noteq> 0 then (1, w4) else (0, w4))"

text \<open>\<open>*bit_no\<close> gets the old value of \<open>hook_id\<close>, before the one for the kernel is stored there.\<close>

definition lab2_timer_subscribe_int :: "'w kernel \<Rightarrow> lab2_timer \<Rightarrow> 'w \<Rightarrow> (int \<times> u8 \<times> lab2_timer) \<times> 'w" where
  "lab2_timer_subscribe_int K t w =
     (let bit_no = word_of_int (l2_hook_id t); t1 = t\<lparr>l2_hook_id := TIMER0_IRQ\<rparr> in
      case sys_irqsetpolicy K TIMER0_IRQ IRQ_REENABLE (l2_hook_id t1) w of ((r, h), w') \<Rightarrow>
        ((if r \<noteq> OK then 1 else 0, bit_no, t1\<lparr>l2_hook_id := h\<rparr>), w'))"

definition lab2_timer_unsubscribe_int :: "'w kernel \<Rightarrow> lab2_timer \<Rightarrow> 'w \<Rightarrow> (int \<times> lab2_timer) \<times> 'w" where
  "lab2_timer_unsubscribe_int K t w =
     (case sys_irqrmpolicy K (l2_hook_id t) w of ((r, h), w') \<Rightarrow>
        ((if r \<noteq> OK then 1 else 0, t\<lparr>l2_hook_id := h\<rparr>), w'))"

definition lab2_timer_int_handler :: "lab2_timer \<Rightarrow> lab2_timer" where
  "lab2_timer_int_handler t = t\<lparr>l2_tck_counter := l2_tck_counter t + 1\<rparr>"

definition lab2_timer_display_conf :: "'w kernel \<Rightarrow> u8 \<Rightarrow> u8 \<Rightarrow> timer_status_field \<Rightarrow> 'w \<Rightarrow> int \<times> 'w" where
  "lab2_timer_display_conf K tmr st field w =
     (let val = (case field of
           tsf_all \<Rightarrow> Byte st
         | tsf_initial \<Rightarrow> In_mode (uint ((st AND BIT 5) OR drop_bit 4 (st AND BIT 4)))
         | tsf_mode \<Rightarrow> Count_mode ((st AND BIT 3) OR (st AND BIT 2) OR drop_bit 1 (st AND BIT 1))
         | tsf_base \<Rightarrow> (let aux = st AND BIT 0 in Bcd (if aux = 1 then True else False)))
      in case timer_print_config K tmr field val w of (r, w1) \<Rightarrow>
        if r \<noteq> 0 then (1, w1) else (0, w1))"

section \<open>\<open>lab2.c\<close>\<close>

text \<open>
  A failed \<open>malloc\<close> matters when \<open>timer_get_conf\<close> stores the status through the pointer, which is
  when it succeeds.
\<close>

definition timer_test_read_config :: "'w kernel \<Rightarrow> u8 \<Rightarrow> timer_status_field \<Rightarrow> 'w \<Rightarrow> (int \<times> 'w) result" where
  "timer_test_read_config K tmr field w =
     (case malloc K 1 w of (blk, w1) \<Rightarrow>
      let old = (case blk of None \<Rightarrow> 0 | Some f \<Rightarrow> f 0) in
      case lab2_timer_get_conf K tmr old w1 of ((r, status), w2) \<Rightarrow>
      if r \<noteq> 0 then Inr (1, w2)
      else if blk = None then Inl Out_Of_Bounds
      else case lab2_timer_display_conf K tmr status field w2 of (r2, w3) \<Rightarrow>
      if r2 \<noteq> 0 then Inr (1, w3) else Inr (0, w3))"

definition timer_test_time_base :: "'w kernel \<Rightarrow> u8 \<Rightarrow> u32 \<Rightarrow> 'w \<Rightarrow> int \<times> 'w" where
  "timer_test_time_base K tmr freq w =
     (case lab2_timer_set_frequency K tmr freq w of (r, w1) \<Rightarrow> if r \<noteq> 0 then (1, w1) else (0, w1))"

text \<open>The body of the loop of \<open>timer_test_int\<close>, and the test.\<close>

definition timer_test_int_irq :: "'w kernel \<Rightarrow> message \<Rightarrow> lab2_timer \<times> 'w \<Rightarrow> (lab2_timer \<times> 'w) run" where
  "timer_test_int_irq K msg st =
     (case st of (t, w) \<Rightarrow>
      if interrupts msg AND IRQ_SETPOLICY \<noteq> 0 then
        let t1 = lab2_timer_int_handler t in
        Some (Inr (t1, if l2_tck_counter t1 mod 60 = 0 then timer_print_elapsed_time K w else w))
      else Some (Inr (t, w)))"

definition timer_test_int :: "'w kernel \<Rightarrow> u8 \<Rightarrow> lab2_timer \<Rightarrow> 'w \<Rightarrow> (int \<times> lab2_timer \<times> 'w) run" where
  "timer_test_int K time t w =
     (case lab2_timer_subscribe_int K t w of ((r, bit_no, t1), w1) \<Rightarrow>
      if r \<noteq> 0 then Some (Inr (1, t1, w1)) else
      let frequency = 60 in
      case lab2_timer_set_frequency K 0 (word_of_int frequency) w1 of (r2, w2) \<Rightarrow>
      if r2 \<noteq> 0 then
        (case lab2_timer_unsubscribe_int K t1 w2 of ((_, t2), w3) \<Rightarrow> Some (Inr (1, t2, w3)))
      else
        run_then (irq_loop K (\<lambda>s. l2_tck_counter s < uint time * frequency) (timer_test_int_irq K) (t1, w2))
          (\<lambda>(t2, w3).
            case lab2_timer_unsubscribe_int K t2 w3 of ((r3, t3), w4) \<Rightarrow>
            if r3 \<noteq> 0 then Some (Inr (2, t3, w4)) else Some (Inr (0, t3, w4))))"

section \<open>Reference definitions\<close>

text \<open>
  An observation of the world that counts the calls of \<open>timer_print_elapsed_time\<close>, which no other
  call of the test changes.
\<close>

definition elapsed_seen :: "'w kernel \<Rightarrow> ('w \<Rightarrow> nat) \<Rightarrow> bool" where
  "elapsed_seen K el \<longleftrightarrow>
     (\<forall>w. el (timer_print_elapsed_time K w) = Suc (el w)) \<and>
     (\<forall>w. el (snd (driver_receive K w)) = el w) \<and>
     (\<forall>p w. el (snd (sys_inb K p w)) = el w) \<and> (\<forall>p v w. el (snd (sys_outb K p v w)) = el w) \<and>
     (\<forall>i p h w. el (snd (sys_irqsetpolicy K i p h w)) = el w) \<and>
     (\<forall>h w. el (snd (sys_irqrmpolicy K h w)) = el w)"

text \<open>The calls of the test succeed.\<close>

definition calls_succeed :: "'w kernel \<Rightarrow> bool" where
  "calls_succeed K \<longleftrightarrow>
     (\<forall>p w. fst (fst (sys_inb K p w)) = 0) \<and> (\<forall>p v w. fst (sys_outb K p v w) = 0) \<and>
     (\<forall>i p h w. fst (fst (sys_irqsetpolicy K i p h w)) = 0) \<and>
     (\<forall>h w. fst (fst (sys_irqrmpolicy K h w)) = 0)"

definition tick_inv :: "'w kernel \<Rightarrow> ('w \<Rightarrow> nat) \<Rightarrow> nat \<Rightarrow> ('w \<Rightarrow> nat) \<Rightarrow> nat \<Rightarrow> u8 \<Rightarrow> lab2_timer \<times> 'w \<Rightarrow> bool" where
  "tick_inv K el e0 ticks n0 time st \<longleftrightarrow>
     elapsed_seen K el \<and> irqs_seen K 1 ticks \<and> int (ticks (snd st)) = int n0 + l2_tck_counter (fst st) \<and> 0 \<le> l2_tck_counter (fst st) \<and> l2_tck_counter (fst st) \<le> uint time * 60 \<and>
     int (el (snd st)) = int e0 + l2_tck_counter (fst st) div 60"

text \<open>A timer that ticks and a log of the elapsed times.\<close>

definition clock_kernel :: "sim kernel" where
  "clock_kernel = alternating (sim_kernel\<lparr>sys_inb := (\<lambda>p w. ((0, 0x36), w)),
     timer_print_elapsed_time := (\<lambda>w. w\<lparr>sim_rand := 0 # sim_rand w\<rparr>)\<rparr>)"

section \<open>The driver\<close>

lemma lab2_util_sys_inb_eq: "lab2_util_sys_inb = util_sys_inb"
  by (intro ext) (simp add: lab2_util_sys_inb_def util_sys_inb_def)

lemma lab2_timer_get_conf_eq: "lab2_timer_get_conf = timer_get_conf"
  by (intro ext) (simp add: lab2_timer_get_conf_def timer_get_conf_def lab2_util_sys_inb_eq Let_def)


lemma lab2_timer_set_frequency_eq: "lab2_timer_set_frequency K tmr freq w = timer_set_frequency K tmr freq w"
proof (cases "tmr \<le> 2")
  case True
  then show ?thesis
    by (cases rule: tmr_cases)
      (simp_all add: lab2_timer_set_frequency_def timer_set_frequency_def lab2_timer_get_conf_eq lab2_select_def
        Let_def split_beta lab2_bytes.lsb_store lab2_bytes.msb_store proj_bytes.lsb_store proj_bytes.msb_store)
next
  case False
  then have "tmr > 2" by simp
  then show ?thesis
    by (simp add: lab2_timer_set_frequency_def timer_set_frequency_def lab2_timer_get_conf_eq timer_get_conf_def)
qed

text \<open>The timer driver of \<open>lab2\<close> computes what the project's driver computes; only the bit number that the subscription
  returns differs: it is the previous hook in \<open>lab2\<close> and always 0, the line of the timer, in the project.\<close>

lemma lab2_driver_agrees:
  "lab2_timer_set_frequency K tm freq w = timer_set_frequency K tm freq w \<and>
   lab2_timer_get_conf K tm st w = timer_get_conf K tm st w \<and>
   lab2_timer_display_conf K tm st field w = timer_display_conf K tm st field w \<and>
   (\<exists>r h w'. timer_subscribe_int K t w = ((r, 0, t\<lparr>hook_id2 := h\<rparr>), w') \<and>
     lab2_timer_subscribe_int K t2 w = ((r, word_of_int (l2_hook_id t2), t2\<lparr>l2_hook_id := h\<rparr>), w'))"
proof -
  have "lab2_timer_display_conf K tm st field w = timer_display_conf K tm st field w"
    by (cases field) (simp_all add: lab2_timer_display_conf_def timer_display_conf_def timer_field_value_def Let_def)
  moreover obtain r h w' where "sys_irqsetpolicy K TIMER0_IRQ IRQ_REENABLE TIMER0_IRQ w = ((r, h), w')"
    by (metis prod.exhaust)
  then have "timer_subscribe_int K t w = ((if r \<noteq> OK then 1 else 0, 0, t\<lparr>hook_id2 := h\<rparr>), w') \<and>
     lab2_timer_subscribe_int K t2 w = ((if r \<noteq> OK then 1 else 0, word_of_int (l2_hook_id t2), t2\<lparr>l2_hook_id := h\<rparr>), w')"
    by (simp add: timer_subscribe_int_def lab2_timer_subscribe_int_def Let_def TIMER0_IRQ_def)
  ultimately show ?thesis
    by (blast intro: lab2_timer_set_frequency_eq lab2_timer_get_conf_eq [THEN fun_cong, THEN fun_cong, THEN fun_cong, THEN fun_cong])
qed

section \<open>The interrupt test\<close>

lemma elapsed_seenD:
  assumes "elapsed_seen K el"
  shows "el (timer_print_elapsed_time K w) = Suc (el w)" "el (snd (driver_receive K w)) = el w"
    "el (snd (sys_inb K p w)) = el w" "el (snd (sys_outb K p v w)) = el w"
    "el (snd (sys_irqsetpolicy K i q h w)) = el w" "el (snd (sys_irqrmpolicy K h w)) = el w"
  using assms by (simp_all add: elapsed_seen_def)

lemma irqs_seenD:
  assumes "irqs_seen K line seen"
  shows "driver_receive K w = (m, w1) \<Longrightarrow> seen w1 = (if on_line line m then Suc (seen w) else seen w)"
    "seen (snd (sys_inb K p w)) = seen w" "seen (snd (sys_outb K p v w)) = seen w"
    "seen (snd (sys_irqsetpolicy K i q h w)) = seen w" "seen (snd (sys_irqrmpolicy K h w)) = seen w"
    "seen (timer_print_elapsed_time K w) = seen w"
  using assms by (auto simp: irqs_seen_def ports_quiet_def dest: spec [of _ w])

lemma tick_progress:
  assumes inv: "tick_inv K el e0 ticks n0 time (t, w)" and "l2_tck_counter t < uint time * 60"
    and d: "driver_receive K w = (m, w1)" and m: "on_line 1 m"
  shows "\<exists>t' w'. timer_test_int_irq K (fst (snd m)) (t, w1) = Some (Inr (t', w')) \<and> tick_inv K el e0 ticks n0 time (t', w') \<and>
    nat (uint time * 60 - l2_tck_counter t') < nat (uint time * 60 - l2_tck_counter t)"
proof -
  let ?c = "l2_tck_counter t + 1"
  let ?w = "if ?c mod 60 = 0 then timer_print_elapsed_time K w1 else w1"
  have el: "elapsed_seen K el" and n: "irqs_seen K 1 ticks" and c: "0 \<le> l2_tck_counter t"
    and e: "int (el w) = int e0 + l2_tck_counter t div 60" and k: "int (ticks w) = int n0 + l2_tck_counter t"
    using inv by (simp_all add: tick_inv_def)
  have "el w1 = el w" using elapsed_seenD(2) [OF el, of w] d by simp
  then have "int (el ?w) = int e0 + ?c div 60"
    using e div_step [of 60 "l2_tck_counter t"] by (cases "?c mod 60 = 0") (simp_all add: elapsed_seenD(1) [OF el])
  moreover have "ticks ?w = Suc (ticks w)" using irqs_seenD(1) [OF n d] irqs_seenD(6) [OF n] m by simp
  ultimately have "tick_inv K el e0 ticks n0 time (t\<lparr>l2_tck_counter := ?c\<rparr>, ?w)"
    using el n c k assms(2) by (simp add: tick_inv_def)
  moreover have "timer_test_int_irq K (fst (snd m)) (t, w1) = Some (Inr (t\<lparr>l2_tck_counter := ?c\<rparr>, ?w))"
    using m by (simp add: on_line_def timer_test_int_irq_def lab2_timer_int_handler_def IRQ_SETPOLICY_def Let_def)
  ultimately show ?thesis using assms(2) by (intro exI conjI) (assumption, simp_all)
qed

interpretation lab2_seconds: counted_loop K "\<lambda>s. l2_tck_counter s < uint time * 60" "timer_test_int_irq K"
    1 "\<lambda>s. nat (uint time * 60 - l2_tck_counter s)" "tick_inv K el e0 ticks n0 time"
  for K :: "'w kernel" and time :: u8 and el :: "'w \<Rightarrow> nat" and e0 :: nat and ticks :: "'w \<Rightarrow> nat" and n0 :: nat
proof unfold_locales
  show "tick_inv K el e0 ticks n0 time (s, w1)"
    if "tick_inv K el e0 ticks n0 time (s, w)" "driver_receive K w = (m, w1)" "\<not> on_line 1 m" for s w m w1
    using that elapsed_seenD(2) [of K el w] irqs_seenD(1) [of K 1 ticks w m w1] by (simp add: tick_inv_def)
  show "timer_test_int_irq K (fst (snd m)) (s, w1) = Some (Inr (s, w1))" if "hardware_notify m" "\<not> on_line 1 m" for m s w1
    using that by (simp add: timer_test_int_irq_def on_line_def IRQ_SETPOLICY_def)
qed (rule tick_progress)

lemma set_frequency_quiet:
  assumes "calls_succeed K" and "elapsed_seen K el" and "irqs_seen K line ticks"
  shows "\<exists>w'. lab2_timer_set_frequency K 0 60 w = (0, w') \<and> el w' = el w \<and> ticks w' = ticks w"
  using assms
  by (auto simp: lab2_timer_set_frequency_def lab2_timer_get_conf_def lab2_util_sys_inb_def lab2_select_def Let_def
      split_beta calls_succeed_def elapsed_seenD irqs_seenD TIMER_FREQ_def)

text \<open>C32: When the timer keeps interrupting and the kernel calls succeed, \<open>timer_test_int\<close> returns 0 after
  exactly \<open>60 * time\<close> messages with the interrupt bit of the timer, counted where the kernel delivers them, whatever
  other messages arrive between them; the tick counter has that value, and the elapsed time has been printed
  exactly \<open>time\<close> times.\<close>

lemma timer_test_int_counts:
  assumes "keeps_interrupting K 1" and ok: "calls_succeed K" and el: "elapsed_seen K el" and n: "irqs_seen K 1 ticks"
    and "l2_tck_counter t = 0"
  shows "\<exists>t' w'. timer_test_int K time t w = Some (Inr (0, t', w')) \<and> ticks w' = ticks w + 60 * unat time \<and>
    l2_tck_counter t' = 60 * uint time \<and> el w' = el w + unat time"
proof -
  obtain h w1 where s: "sys_irqsetpolicy K TIMER0_IRQ IRQ_REENABLE TIMER0_IRQ w = ((0, h), w1)"
    using ok unfolding calls_succeed_def by (metis prod.exhaust_sel)
  let ?t = "t\<lparr>l2_hook_id := h\<rparr>"
  obtain w2 where f: "lab2_timer_set_frequency K 0 60 w1 = (0, w2)" "el w2 = el w1" "ticks w2 = ticks w1"
    using set_frequency_quiet [OF ok el n] by blast
  have "el w1 = el w" "ticks w1 = ticks w" using elapsed_seenD(5) [OF el] irqs_seenD(4) [OF n] s by (metis snd_conv)+
  then have "tick_inv K el (el w) ticks (ticks w) time (?t, w2)" using el n f(2,3) assms(5) by (simp add: tick_inv_def)
  from lab2_seconds.loop_returns [OF assms(1) this] obtain t3 w3
    where l: "irq_loop K (\<lambda>s. l2_tck_counter s < uint time * 60) (timer_test_int_irq K) (?t, w2) = Some (Inr (t3, w3))"
      and inv: "tick_inv K el (el w) ticks (ticks w) time (t3, w3)" and "\<not> l2_tck_counter t3 < uint time * 60" by blast
  then have c: "l2_tck_counter t3 = 60 * uint time" by (simp add: tick_inv_def)
  obtain h' w4 where u: "sys_irqrmpolicy K (l2_hook_id t3) w3 = ((0, h'), w4)"
    using ok unfolding calls_succeed_def by (metis prod.exhaust_sel)
  have "timer_test_int K time t w = Some (Inr (0, t3\<lparr>l2_hook_id := h'\<rparr>, w4))"
    by (simp add: timer_test_int_def lab2_timer_subscribe_int_def lab2_timer_unsubscribe_int_def s f(1) l u OK_def)
  moreover have "int (el w3) = int (el w) + int (unat time)" "int (ticks w3) = int (ticks w) + 60 * int (unat time)"
    using inv c by (simp_all add: tick_inv_def)
  then have "el w3 = el w + unat time" "ticks w3 = ticks w + 60 * unat time" by linarith+
  then have "el w4 = el w + unat time" "ticks w4 = ticks w + 60 * unat time"
    using elapsed_seenD(6) [OF el, of "l2_hook_id t3" w3] irqs_seenD(5) [OF n, of "l2_hook_id t3" w3] u by simp_all
  ultimately show ?thesis using c by auto
qed

theorem timer_test_int_counts_witness:
  "\<exists>t' w'. timer_test_int clock_kernel 2 lab2_timer_init sim0 = Some (Inr (0, t', w')) \<and>
    length (sim_in w') div 2 = 120 \<and> l2_tck_counter t' = 120 \<and> length (sim_rand w') = Suc (Suc 0)"
proof -
  have "keeps_interrupting clock_kernel 1" unfolding clock_kernel_def by (rule alternating_interrupts)
  moreover have "calls_succeed clock_kernel"
    by (simp add: calls_succeed_def clock_kernel_def alternating_def sim_kernel_def)
  moreover have "elapsed_seen clock_kernel (\<lambda>w. length (sim_rand w))"
    by (simp add: elapsed_seen_def clock_kernel_def alternating_def sim_kernel_def)
  moreover have "irqs_seen clock_kernel 1 (\<lambda>w. length (sim_in w) div 2)"
    unfolding clock_kernel_def by (rule alternating_seen) (simp_all add: ports_quiet_def sim_kernel_def)
  ultimately show ?thesis
    using timer_test_int_counts [of clock_kernel "\<lambda>w. length (sim_rand w)" "\<lambda>w. length (sim_in w) div 2" lab2_timer_init 2 sim0]
    by (simp add: lab2_timer_init_def sim0_def)
qed

end
