(* ===== verification/Lab4.thy ===== *)
theory Lab4
  imports Mouse_Driver Lab2
begin

text \<open>
  \<open>lab4\<close>: the mouse driver's first version and its four tests.  \<open>utils.c\<close> and \<open>timer.c\<close> are the
  files of \<open>lab2\<close>, and the command and byte-reading functions of \<open>mouse.c\<close> are those of the
  project's \<open>mouse.c\<close>, so their definitions are used; the subscription (hook 1) and the packet
  routine, which prints each packet, are defined here, and the tests of \<open>lab4.c\<close>.
\<close>

unbundle bit_operations_syntax

section \<open>\<open>mouse.c\<close>\<close>

definition lab4_kbc_subscribe :: "'w kernel \<Rightarrow> mouse_driver \<Rightarrow> 'w \<Rightarrow> (int \<times> mouse_driver) \<times> 'w" where
  "lab4_kbc_subscribe K d w =
     (let d1 = d\<lparr>hook_id_mouse := 1\<rparr> in
      case sys_irqsetpolicy K IRQ12 (IRQ_REENABLE OR IRQ_EXCLUSIVE) (hook_id_mouse d1) w of ((r, h), w') \<Rightarrow>
        ((if r \<noteq> 0 then 1 else 0, d1\<lparr>hook_id_mouse := h\<rparr>), w'))"

definition lab4_kbc_unsubscribe :: "'w kernel \<Rightarrow> mouse_driver \<Rightarrow> 'w \<Rightarrow> (int \<times> mouse_driver) \<times> 'w" where
  "lab4_kbc_unsubscribe K d w =
     (case sys_irqrmpolicy K (hook_id_mouse d) w of ((r, h), w') \<Rightarrow>
        ((if r \<noteq> OK then 1 else 0, d\<lparr>hook_id_mouse := h\<rparr>), w'))"

definition lab4_print_mouse_packet :: "'w kernel \<Rightarrow> mouse_driver \<Rightarrow> 'w \<Rightarrow> mouse_driver \<times> 'w" where
  "lab4_print_mouse_packet K d w =
     (if \<not> is_sync d \<and> read_packet d AND 0x08 = 0 then (d, w)
      else let d1 = (if \<not> is_sync d then d\<lparr>is_sync := True\<rparr> else d) in
        if counter d1 = 0 then ((store_byte d1 0)\<lparr>counter := counter d1 + 1\<rparr>, w)
        else if counter d1 = 1 then ((store_byte d1 1)\<lparr>counter := counter d1 + 1\<rparr>, w)
        else
          let d2 = (if counter d1 = 2 then
                      (let d2 = (store_byte d1 2)\<lparr>counter := 0\<rparr> in
                       d2\<lparr>packet1 := parse_packet (packet1 d2), total_packets := total_packets d2 + 1\<rparr>)
                    else d1)
          in (d2, mouse_print_packet K (packet1 d2) w))"

section \<open>\<open>lab4.c\<close>\<close>

text \<open>
  The globals.  What every test does with a mouse byte: the handler, and unless it reported an
  error the packet routine; \<open>Skip_Iteration\<close> is the \<open>continue\<close> of the tests.
\<close>

record lab4 =
  l4_mouse :: mouse_driver
  l4_timer :: lab2_timer
  x_displacement :: int

definition lab4_init :: lab4 where
  "lab4_init = \<lparr>l4_mouse = mouse_driver_init, l4_timer = lab2_timer_init, x_displacement = 0\<rparr>"

definition lab4_mouse_byte :: "'w kernel \<Rightarrow> lab4 \<Rightarrow> 'w \<Rightarrow> (mouse_event \<times> lab4 \<times> 'w) option" where
  "lab4_mouse_byte K s w =
     (case mouse_ih K (l4_mouse s) w of None \<Rightarrow> None
      | Some (d, w1) \<Rightarrow>
        if reading_error d \<and> counter d \<noteq> 2 then Some (Skip_Iteration, s\<lparr>l4_mouse := d\<rparr>, w1)
        else if reading_error d \<and> counter d = 2 then
          Some (Error_Cleared, s\<lparr>l4_mouse := d\<lparr>reading_error := False\<rparr>\<rparr>, w1)
        else (case lab4_print_mouse_packet K d w1 of (d2, w2) \<Rightarrow>
          Some (Byte_Accepted, s\<lparr>l4_mouse := d2\<rparr>, w2)))"

definition lab4_subscribe :: "'w kernel \<Rightarrow> lab4 \<Rightarrow> 'w \<Rightarrow> lab4 \<times> 'w" where
  "lab4_subscribe K s w =
     (case lab4_kbc_subscribe K (l4_mouse s) w of ((_, d), w1) \<Rightarrow> (s\<lparr>l4_mouse := d\<rparr>, w1))"

definition lab4_unsubscribe :: "'w kernel \<Rightarrow> lab4 \<Rightarrow> 'w \<Rightarrow> lab4 \<times> 'w" where
  "lab4_unsubscribe K s w =
     (case lab4_kbc_unsubscribe K (l4_mouse s) w of ((_, d), w1) \<Rightarrow> (s\<lparr>l4_mouse := d\<rparr>, w1))"

text \<open>The bit \<open>BIT(1)\<close> of the mouse and \<open>BIT(IRQ0)\<close> of the timer in a notification.\<close>

definition irq_set_mouse :: u32 where "irq_set_mouse = push_bit 1 1"
definition irq_set_timer :: u32 where "irq_set_timer = push_bit (nat IRQ0) 1"

definition mouse_test_packet_irq :: "'w kernel \<Rightarrow> message \<Rightarrow> lab4 \<times> 'w \<Rightarrow> (lab4 \<times> 'w) run" where
  "mouse_test_packet_irq K msg st =
     (case st of (s, w) \<Rightarrow>
      if interrupts msg AND irq_set_mouse \<noteq> 0 then
        (case lab4_mouse_byte K s w of None \<Rightarrow> None | Some (_, s1, w1) \<Rightarrow> Some (Inr (s1, w1)))
      else Some (Inr (s, w)))"

text \<open>What two of the tests do after their loop.\<close>

definition lab4_finish :: "'w kernel \<Rightarrow> lab4 \<times> 'w \<Rightarrow> (int \<times> lab4 \<times> 'w) run" where
  "lab4_finish K st =
     (case lab4_unsubscribe K (fst st) (snd st) of (s1, w1) \<Rightarrow>
      case disable_mouse_data K w1 of None \<Rightarrow> None
      | Some (r, w2) \<Rightarrow> Some (Inr (if r \<noteq> 0 then 1 else 0, s1, w2)))"

definition mouse_test_packet :: "'w kernel \<Rightarrow> u32 \<Rightarrow> lab4 \<Rightarrow> 'w \<Rightarrow> (int \<times> lab4 \<times> 'w) run" where
  "mouse_test_packet K cnt s w =
     (case enable_mouse_data K w of None \<Rightarrow> None
      | Some (r, w1) \<Rightarrow>
        if r \<noteq> 0 then Some (Inr (1, s, w1)) else
        run_then (irq_loop K (\<lambda>s. total_packets (l4_mouse s) < cnt) (mouse_test_packet_irq K) (lab4_subscribe K s w1))
          (lab4_finish K))"

text \<open>\<open>mouse_test_async\<close>: a mouse interrupt resets the tick counter; \<open>continue\<close> skips the timer part.\<close>

definition mouse_test_async_irq :: "'w kernel \<Rightarrow> message \<Rightarrow> lab4 \<times> 'w \<Rightarrow> (lab4 \<times> 'w) run" where
  "mouse_test_async_irq K msg st =
     (case (case st of (s, w) \<Rightarrow>
         if interrupts msg AND irq_set_mouse \<noteq> 0 then
           lab4_mouse_byte K (s\<lparr>l4_timer := (l4_timer s)\<lparr>l2_tck_counter := 0\<rparr>\<rparr>) w
         else Some (Byte_Accepted, s, w)) of
        None \<Rightarrow> None
      | Some (ev, s1, w1) \<Rightarrow>
          if ev \<noteq> Skip_Iteration \<and> interrupts msg AND irq_set_timer \<noteq> 0
          then Some (Inr (s1\<lparr>l4_timer := lab2_timer_int_handler (l4_timer s1)\<rparr>, w1))
          else Some (Inr (s1, w1)))"

definition mouse_test_async :: "'w kernel \<Rightarrow> u8 \<Rightarrow> lab4 \<Rightarrow> 'w \<Rightarrow> (int \<times> lab4 \<times> 'w) run" where
  "mouse_test_async K idle_time s w =
     (case enable_mouse_data K w of None \<Rightarrow> None
      | Some (r, w1) \<Rightarrow>
        if r \<noteq> 0 then Some (Inr (1, s, w1)) else
        case lab4_subscribe K s w1 of (s2, w2) \<Rightarrow>
        case lab2_timer_subscribe_int K (l4_timer s2) w2 of ((_, _, t), w3) \<Rightarrow>
        run_then (irq_loop K (\<lambda>s. l2_tck_counter (l4_timer s) < uint idle_time * 60)
            (mouse_test_async_irq K) (s2\<lparr>l4_timer := t\<rparr>, w3)) (\<lambda>(s4, w4).
        case lab4_unsubscribe K s4 w4 of (s5, w5) \<Rightarrow>
        case disable_mouse_data K w5 of None \<Rightarrow> None
        | Some (_, w6) \<Rightarrow>
        case lab2_timer_unsubscribe_int K (l4_timer s5) w6 of ((_, t6), w7) \<Rightarrow>
        Some (Inr (0, s5\<lparr>l4_timer := t6\<rparr>, w7))))"

text \<open>
  \<open>mouse_test_gesture\<close>: the chain of conditions on a complete packet, over the local \<open>counter_exit\<close>
  (which hides the global of that name) and the global \<open>x_displacement\<close>.
\<close>

definition gesture_step :: "u8 \<Rightarrow> u8 \<Rightarrow> packet \<Rightarrow> int \<times> int \<Rightarrow> int \<times> int" where
  "gesture_step x_len tolerance p st =
     (case st of (counter_exit, disp) \<Rightarrow>
      if lb p \<and> counter_exit = 0 then (1, disp)
      else if lb p \<and> delta_x p + uint tolerance \<ge> 0 \<and> delta_y p + uint tolerance \<ge> 0 \<and> counter_exit = 1 then
        let disp = disp + delta_x p in (if disp \<ge> uint x_len then 2 else counter_exit, disp)
      else if counter_exit = 1 then (0, 0)
      else if \<not> lb p \<and> counter_exit = 2 then (3, 0)
      else if rb p \<and> counter_exit = 3 then (4, disp)
      else if rb p \<and> delta_x p + uint tolerance \<ge> 0 \<and> delta_y p - uint tolerance \<le> 0 \<and> counter_exit = 4 then
        let disp = disp + delta_x p in (if disp \<ge> uint x_len then 5 else counter_exit, disp)
      else if counter_exit = 4 then (0, 0)
      else if \<not> rb p \<and> counter_exit = 5 then (6, disp)
      else if counter_exit = 5 then (0, disp)
      else (counter_exit, disp))"

definition mouse_test_gesture_irq ::
  "'w kernel \<Rightarrow> u8 \<Rightarrow> u8 \<Rightarrow> message \<Rightarrow> (int \<times> lab4) \<times> 'w \<Rightarrow> ((int \<times> lab4) \<times> 'w) run" where
  "mouse_test_gesture_irq K x_len tolerance msg st =
     (case st of ((counter_exit, s), w) \<Rightarrow>
      if interrupts msg AND irq_set_mouse \<noteq> 0 then
        (case lab4_mouse_byte K s w of None \<Rightarrow> None
         | Some (ev, s1, w1) \<Rightarrow>
             if ev = Byte_Accepted \<and> counter (l4_mouse s1) = 0 then
               (case gesture_step x_len tolerance (packet1 (l4_mouse s1)) (counter_exit, x_displacement s1) of
                  (ce, disp) \<Rightarrow> Some (Inr ((ce, s1\<lparr>x_displacement := disp\<rparr>), w1)))
             else Some (Inr ((counter_exit, s1), w1)))
      else Some (Inr ((counter_exit, s), w)))"

definition mouse_test_gesture :: "'w kernel \<Rightarrow> u8 \<Rightarrow> u8 \<Rightarrow> lab4 \<Rightarrow> 'w \<Rightarrow> (int \<times> lab4 \<times> 'w) run" where
  "mouse_test_gesture K x_len tolerance s w =
     (case enable_mouse_data K w of None \<Rightarrow> None
      | Some (r, w1) \<Rightarrow>
        if r \<noteq> 0 then Some (Inr (1, s, w1)) else
        case lab4_subscribe K s w1 of (s2, w2) \<Rightarrow>
        run_then (irq_loop K (\<lambda>(counter_exit, _). counter_exit \<noteq> 6)
            (mouse_test_gesture_irq K x_len tolerance) ((0, s2), w2))
          (\<lambda>((_, s3), w3). lab4_finish K (s3, w3)))"

text \<open>\<open>mouse_test_remote\<close>: three bytes per request, by polling.\<close>

partial_function (option) remote_bytes :: "'w kernel \<Rightarrow> int \<Rightarrow> lab4 \<Rightarrow> 'w \<Rightarrow> (lab4 \<times> 'w) option" where
  "remote_bytes K count s w =
     (if count \<noteq> 3 then
        (case lab4_mouse_byte K s w of None \<Rightarrow> None
         | Some (ev, s1, w1) \<Rightarrow>
             remote_bytes K (if ev = Skip_Iteration then count else count + 1) s1 w1)
      else Some (s, w))"

partial_function (option) remote_packets :: "'w kernel \<Rightarrow> u16 \<Rightarrow> u8 \<Rightarrow> lab4 \<Rightarrow> 'w \<Rightarrow> (lab4 \<times> 'w) option" where
  "remote_packets K period cnt s w =
     (if total_packets (l4_mouse s) < ucast cnt then
        (case write_argument_to_mouse K READ_DATA_MOUSE w of None \<Rightarrow> None
         | Some (_, w1) \<Rightarrow>
           (case remote_bytes K 0 s w1 of None \<Rightarrow> None
            | Some (s2, w2) \<Rightarrow>
                remote_packets K period cnt s2
                  (tickdelay K (micros_to_ticks K (word_of_int (uint period * 1000))) w2)))
      else Some (s, w))"

partial_function (option) restore_command :: "'w kernel \<Rightarrow> 'w \<Rightarrow> (int \<times> 'w) option" where
  "restore_command K w =
     (case lab2_util_sys_inb K STATUS_REGISTER (indeterminate K w) w of ((r, status), w1) \<Rightarrow>
        if r \<noteq> 0 then Some (1, w1)
        else if in_free status then
          Some (case sys_outb K INPUT_BUFFER_COMMANDS WRITE_COMMAND w1 of (ro, w2) \<Rightarrow> (if ro \<noteq> 0 then 1 else 0, w2))
        else restore_command K w1)"

partial_function (option) restore_argument :: "'w kernel \<Rightarrow> 'w \<Rightarrow> (int \<times> 'w) option" where
  "restore_argument K w =
     (case lab2_util_sys_inb K STATUS_REGISTER (indeterminate K w) w of ((r, status), w1) \<Rightarrow>
        if r \<noteq> 0 then Some (1, w1)
        else if in_free status then
          Some (case minix_get_dflt_kbc_cmd_byte K w1 of (b, w2) \<Rightarrow>
                case sys_outb K INPUT_BUFFER_ARGUMENTS b w2 of (ro, w3) \<Rightarrow> (if ro \<noteq> 0 then 1 else 0, w3))
        else restore_argument K w1)"

definition mouse_test_remote :: "'w kernel \<Rightarrow> u16 \<Rightarrow> u8 \<Rightarrow> lab4 \<Rightarrow> 'w \<Rightarrow> (int \<times> lab4 \<times> 'w) option" where
  "mouse_test_remote K period cnt s w =
     (case write_argument_to_mouse K DISABLE_MOUSE_DATA w of None \<Rightarrow> None | Some (_, w1) \<Rightarrow>
      case write_argument_to_mouse K SET_REMOTE_MODE w1 of None \<Rightarrow> None | Some (_, w2) \<Rightarrow>
      case remote_packets K period cnt s w2 of None \<Rightarrow> None | Some (s3, w3) \<Rightarrow>
      case disable_mouse_data K w3 of None \<Rightarrow> None | Some (r4, w4) \<Rightarrow>
      if r4 \<noteq> 0 then Some (1, s3, w4) else
      case restore_command K w4 of None \<Rightarrow> None | Some (r5, w5) \<Rightarrow>
      if r5 \<noteq> 0 then Some (1, s3, w5) else
      case restore_argument K w5 of None \<Rightarrow> None | Some (r6, w6) \<Rightarrow>
      if r6 \<noteq> 0 then Some (1, s3, w6) else Some (0, s3, w6))"

section \<open>The contracts\<close>

interpretation lab4_mouse_line: irq_line "\<lambda>K d w. apfst (\<lambda>(r, d'). (r, 1, d')) (lab4_kbc_subscribe K d w)"
    lab4_kbc_unsubscribe hook_id_mouse "\<lambda>h. hook_id_mouse_update (\<lambda>_. h)" IRQ12 "IRQ_REENABLE OR IRQ_EXCLUSIVE" 1
  by unfold_locales (simp_all add: lab4_kbc_subscribe_def lab4_kbc_unsubscribe_def Let_def OK_def split_beta)

lemma print_mouse_packet_refines: "fst (lab4_print_mouse_packet K d w) = print_mouse_packet d"
  by (simp add: lab4_print_mouse_packet_def print_mouse_packet_def Let_def)

lemma lab4_mouse_byte_refines:
  "lab4_mouse_byte K s w = (case mouse_ih K (l4_mouse s) w of None \<Rightarrow> None
     | Some (d, w1) \<Rightarrow> (case mouse_dispatch d of (ev, d2) \<Rightarrow>
         Some (ev, s\<lparr>l4_mouse := d2\<rparr>, if ev = Byte_Accepted then snd (lab4_print_mouse_packet K d w1) else w1)))"
  by (simp add: lab4_mouse_byte_def mouse_dispatch_def print_mouse_packet_refines split_beta split: option.splits)

interpretation restore_cmd: kbc_poller K id in_free "restore_command K"
    "\<lambda>_ w. Some (case sys_outb K INPUT_BUFFER_COMMANDS WRITE_COMMAND w of (ro, w2) \<Rightarrow> (if ro \<noteq> 0 then 1 else 0, w2))"
    "\<lambda>w. (1, w)" for K
  by unfold_locales
    (subst restore_command.simps, simp only: STATUS_REGISTER_def lab2_util_sys_inb_eq util_status_case id_apply)

interpretation restore_arg: kbc_poller K id in_free "restore_argument K"
    "\<lambda>_ w. Some (case minix_get_dflt_kbc_cmd_byte K w of (b, w2) \<Rightarrow>
        case sys_outb K INPUT_BUFFER_ARGUMENTS b w2 of (ro, w3) \<Rightarrow> (if ro \<noteq> 0 then 1 else 0, w3))"
    "\<lambda>w. (1, w)" for K
  by unfold_locales
    (subst restore_argument.simps, simp only: STATUS_REGISTER_def lab2_util_sys_inb_eq util_status_case id_apply)

section \<open>The gesture\<close>

text \<open>
  The packets of the two strokes, and a stroke that reaches the required length with its last
  packet, from the displacement 0.
\<close>

definition upward :: "u8 \<Rightarrow> packet \<Rightarrow> bool" where
  "upward tolerance p \<longleftrightarrow> lb p \<and> delta_x p + uint tolerance \<ge> 0 \<and> delta_y p + uint tolerance \<ge> 0"

definition downward :: "u8 \<Rightarrow> packet \<Rightarrow> bool" where
  "downward tolerance p \<longleftrightarrow> rb p \<and> delta_x p + uint tolerance \<ge> 0 \<and> delta_y p - uint tolerance \<le> 0"

fun completes :: "int \<Rightarrow> int \<Rightarrow> packet list \<Rightarrow> bool" where
  "completes x_len disp [] \<longleftrightarrow> False"
| "completes x_len disp (p # ps) \<longleftrightarrow>
     (if disp + delta_x p \<ge> x_len then ps = [] else completes x_len (disp + delta_x p) ps)"

lemma stroke_fold:
  assumes "completes (uint x_len) disp ps"
    and "\<And>p d. p \<in> set ps \<Longrightarrow> gesture_step x_len tol p (c, d) =
      (if d + delta_x p \<ge> uint x_len then c' else c, d + delta_x p)"
  shows "\<exists>d. fold (gesture_step x_len tol) ps (c, disp) = (c', d)"
  using assms
proof (induction ps arbitrary: disp)
  case (Cons p ps)
  then show ?case by (cases "disp + delta_x p \<ge> uint x_len") auto
qed simp

lemma upward_fold:
  assumes "completes (uint x_len) disp ps" and "\<forall>p\<in>set ps. upward tol p"
  shows "\<exists>d. fold (gesture_step x_len tol) ps (1, disp) = (2, d)"
  using assms by (intro stroke_fold) (auto simp: gesture_step_def upward_def)

lemma downward_fold:
  assumes "completes (uint x_len) disp ps" and "\<forall>p\<in>set ps. downward tol p"
  shows "\<exists>d. fold (gesture_step x_len tol) ps (4, disp) = (5, d)"
  using assms by (intro stroke_fold) (auto simp: gesture_step_def downward_def)

lemma waiting_fold:
  assumes "\<forall>p\<in>set ps. gesture_step x_len tol p st = st"
  shows "fold (gesture_step x_len tol) ps st = st"
  using assms by (induction ps) auto

lemma gesture_advance: "fst (gesture_step x_len tol p (c, d)) \<in> {0, c, c + 1}"
  by (auto simp: gesture_step_def Let_def)

text \<open>
  The whole gesture: the left button goes down, an upward stroke with it down, the button held and
  released, any packets without the right button, the right button down, a downward stroke, and
  its release.
\<close>

definition is_gesture :: "u8 \<Rightarrow> u8 \<Rightarrow> packet list \<Rightarrow> bool" where
  "is_gesture x_len tol ps \<longleftrightarrow>
     (\<exists>a ups holds b idles c downs e. ps = a # ups @ holds @ b # idles @ c # downs @ [e] \<and>
        lb a \<and> completes (uint x_len) 0 ups \<and> (\<forall>p\<in>set ups. upward tol p) \<and> (\<forall>p\<in>set holds. lb p) \<and> \<not> lb b \<and>
        (\<forall>p\<in>set idles. \<not> rb p) \<and> rb c \<and> completes (uint x_len) 0 downs \<and> (\<forall>p\<in>set downs. downward tol p) \<and> \<not> rb e)"

lemma gesture_recognised:
  assumes "is_gesture x_len tol ps"
  shows "fst (fold (gesture_step x_len tol) ps (0, 0)) = 6"
proof -
  let ?g = "gesture_step x_len tol"
  from assms obtain a ups holds b idles c downs e where ps: "ps = a # ups @ holds @ b # idles @ c # downs @ [e]"
    and g: "lb a" "completes (uint x_len) 0 ups" "\<forall>p\<in>set ups. upward tol p" "\<forall>p\<in>set holds. lb p" "\<not> lb b"
      "\<forall>p\<in>set idles. \<not> rb p" "rb c" "completes (uint x_len) 0 downs" "\<forall>p\<in>set downs. downward tol p" "\<not> rb e"
    unfolding is_gesture_def by blast
  obtain d1 where up: "fold ?g ups (1, 0) = (2, d1)" using upward_fold [OF g(2,3)] by blast
  obtain d2 where dn: "fold ?g downs (4, 0) = (5, d2)" using downward_fold [OF g(8,9)] by blast
  have "fold ?g holds (2, d1) = (2, d1)" and "fold ?g idles (3, 0) = (3, 0)"
    using g(4,6) by (auto intro!: waiting_fold simp: gesture_step_def)
  moreover have "?g a (0, 0) = (1, 0)" "?g b (2, d1) = (3, 0)" "?g c (3, 0) = (4, 0)" "?g e (5, d2) = (6, d2)"
    using g(1,5,7,10) by (simp_all add: gesture_step_def)
  ultimately show ?thesis using up dn by (simp add: ps)
qed

text \<open>
  One mouse byte read without error, as the loop of the test processes it, and the packet of an
  event as the recogniser sees it.
\<close>

definition gesture_feed :: "u8 \<Rightarrow> u8 \<Rightarrow> u8 \<Rightarrow> int \<times> lab4 \<Rightarrow> int \<times> lab4" where
  "gesture_feed x_len tol b st =
     (case st of (ce, s) \<Rightarrow>
      let s1 = s\<lparr>l4_mouse := accept_byte b (l4_mouse s)\<rparr> in
      if counter (l4_mouse s1) = 0 then
        (case gesture_step x_len tol (packet1 (l4_mouse s1)) (ce, x_displacement s1) of
           (ce', disp) \<Rightarrow> (ce', s1\<lparr>x_displacement := disp\<rparr>))
      else (ce, s1))"

definition event_packet :: "ps2_event \<Rightarrow> packet" where
  "event_packet e = decoded e packet_zero"

text \<open>An interrupt that reads a good byte does what \<open>gesture_feed\<close> says.\<close>

lemma gesture_irq_feeds:
  assumes "interrupts msg AND irq_set_mouse \<noteq> 0" and "\<not> reading_error (l4_mouse s)"
    and "mouse_ih K (l4_mouse s) w = Some ((l4_mouse s)\<lparr>read_packet := b\<rparr>, w1)"
  shows "\<exists>w2. mouse_test_gesture_irq K x_len tol msg ((ce, s), w) = Some (Inr (gesture_feed x_len tol b (ce, s), w2))"
proof -
  have "mouse_dispatch ((l4_mouse s)\<lparr>read_packet := b\<rparr>) = (Byte_Accepted, accept_byte b (l4_mouse s))"
    using assms(2) by (simp add: mouse_dispatch_def accept_byte_def)
  then show ?thesis
    using assms(1,3)
    by (simp add: mouse_test_gesture_irq_def lab4_mouse_byte_refines gesture_feed_def Let_def split_beta)
qed

text \<open>Interrupts of the mouse, each in the world in which it arrives, and worlds in which the driver reads given bytes.\<close>

primrec gesture_irqs :: "'w kernel \<Rightarrow> u8 \<Rightarrow> u8 \<Rightarrow> message \<Rightarrow> 'w list \<Rightarrow> int \<times> lab4 \<Rightarrow> (int \<times> lab4) run" where
  "gesture_irqs K x_len tol msg [] st = Some (Inr st)"
| "gesture_irqs K x_len tol msg (w # ws) st =
     run_then (mouse_test_gesture_irq K x_len tol msg (st, w)) (\<lambda>(st', _). gesture_irqs K x_len tol msg ws st')"

definition reads_byte :: "'w kernel \<Rightarrow> u8 \<Rightarrow> 'w \<Rightarrow> bool" where
  "reads_byte K b w \<longleftrightarrow> (\<forall>d. \<not> reading_error d \<longrightarrow> (\<exists>w1. mouse_ih K d w = Some (d\<lparr>read_packet := b\<rparr>, w1)))"

lemma accept_byte_no_error: "\<not> reading_error d \<Longrightarrow> \<not> reading_error (accept_byte b d)"
  by (simp add: accept_byte_def mouse_dispatch_def print_mouse_packet_def store_byte_def Let_def split: if_splits)

lemma gesture_irqs_feed:
  assumes "interrupts msg AND irq_set_mouse \<noteq> 0" and "list_all2 (reads_byte K) bs ws" and "\<not> reading_error (l4_mouse (snd st))"
  shows "gesture_irqs K x_len tol msg ws st = Some (Inr (fold (gesture_feed x_len tol) bs st))"
  using assms(2,3)
proof (induction bs ws arbitrary: st rule: list_all2_induct)
  case (Cons b bs w ws)
  obtain ce s where st: "st = (ce, s)" by (metis prod.exhaust)
  obtain w1 where "mouse_ih K (l4_mouse s) w = Some ((l4_mouse s)\<lparr>read_packet := b\<rparr>, w1)"
    using Cons.hyps(1) Cons.prems by (auto simp: reads_byte_def st)
  then obtain w2 where "mouse_test_gesture_irq K x_len tol msg (st, w) = Some (Inr (gesture_feed x_len tol b st, w2))"
    using gesture_irq_feeds [OF assms(1), of s K w b w1 x_len tol ce] Cons.prems by (auto simp: st)
  moreover have "\<not> reading_error (l4_mouse (snd (gesture_feed x_len tol b st)))"
    using accept_byte_no_error Cons.prems by (simp add: st gesture_feed_def Let_def split_beta)
  ultimately show ?case using Cons.IH [of "gesture_feed x_len tol b st"] by simp
qed simp

lemma gesture_step_cong:
  assumes "lb p = lb q" "rb p = rb q" "delta_x p = delta_x q" "delta_y p = delta_y q"
  shows "gesture_step x_len tol p = gesture_step x_len tol q"
  unfolding gesture_step_def assms ..

lemma gesture_step_decoded: "gesture_step x_len tol (decoded e p) = gesture_step x_len tol (event_packet e)"
  by (rule gesture_step_cong) (simp_all add: event_packet_def decoded_def)

lemma counters_of_packet:
  assumes "assembling d" and "counter d = 0" and "b0 AND 0x08 \<noteq> 0"
  shows "counter (accept_byte b0 d) = 1" and "counter (accept_byte b1 (accept_byte b0 d)) = 2"
  using assms
  by (simp_all add: assembling_def accept_byte_def mouse_dispatch_def print_mouse_packet_def store_byte_def Let_def)

lemma gesture_feed_event:
  assumes "assembling (l4_mouse s)" and "counter (l4_mouse s) = 0" and "in_range e"
  shows "\<exists>s'. fold (gesture_feed x_len tol) (ps2_packet e) (ce, s) =
      (fst (gesture_step x_len tol (event_packet e) (ce, x_displacement s)), s') \<and>
    x_displacement s' = snd (gesture_step x_len tol (event_packet e) (ce, x_displacement s)) \<and>
    assembling (l4_mouse s') \<and> counter (l4_mouse s') = 0"
proof -
  let ?h = "ps2_header (ev_l e) (ev_r e) (ev_m e) (ev_dx e) (ev_dy e)"
  let ?b1 = "word_of_int (ev_dx e)" and ?b2 = "word_of_int (ev_dy e)"
  let ?d = "accept_byte ?b2 (accept_byte ?b1 (accept_byte ?h (l4_mouse s)))"
  have "?d = (l4_mouse s)\<lparr>read_packet := ?b2, is_sync := True,
      packet1 := decoded e (packet1 (l4_mouse s)), total_packets := total_packets (l4_mouse s) + 1\<rparr>"
    using one_event [OF assms] by (simp add: ps2_packet_def)
  then have d: "counter ?d = 0" "packet1 ?d = decoded e (packet1 (l4_mouse s))" using assms(2) by simp_all
  have "assembling ?d" using assms(1) by (intro accept_assembling)
  with d counters_of_packet [OF assms(1,2) header_bits(1)] show ?thesis
    by (simp add: ps2_packet_def gesture_feed_def Let_def split_beta gesture_step_decoded)
qed

lemma gesture_feed_events:
  assumes "assembling (l4_mouse s)" and "counter (l4_mouse s) = 0" and "\<forall>e\<in>set es. in_range e"
  shows "fst (fold (gesture_feed x_len tol) (concat (map ps2_packet es)) (ce, s)) =
    fst (fold (gesture_step x_len tol) (map event_packet es) (ce, x_displacement s))"
  using assms
proof (induction es arbitrary: ce s)
  case (Cons e es)
  let ?g = "gesture_step x_len tol (event_packet e) (ce, x_displacement s)"
  obtain s' where s': "fold (gesture_feed x_len tol) (ps2_packet e) (ce, s) = (fst ?g, s')"
    "x_displacement s' = snd ?g" "assembling (l4_mouse s')" "counter (l4_mouse s') = 0"
    using gesture_feed_event [of s e x_len tol ce] Cons.prems by auto
  with Cons.IH [of s' "fst ?g"] Cons.prems(3) show ?case by simp
qed simp

text \<open>C33: \<open>mouse_test_gesture\<close> recognises the gesture in the bytes the mouse sends: when a sequence of movement
  packets forms the gesture (left button down, an upward stroke to the right within the tolerance
  that reaches \<open>x_len\<close>, release, right button down, a downward stroke, release), feeding their bytes
  brings \<open>counter_exit\<close> to 6, which ends the loop, and so do the interrupts of the test in which \<open>mouse_ih\<close> reads these
  bytes without an error; and no packet moves the recogniser further than to its next state or back to the start.\<close>

lemma gesture_accepts:
  assumes "is_gesture x_len tol (map event_packet es)" and "\<forall>e\<in>set es. in_range e"
    and "assembling (l4_mouse s)" and "counter (l4_mouse s) = 0" and "x_displacement s = 0"
  shows "fst (fold (gesture_feed x_len tol) (concat (map ps2_packet es)) (0, s)) = 6 \<and>
    (interrupts msg AND irq_set_mouse \<noteq> 0 \<and> list_all2 (reads_byte K) (concat (map ps2_packet es)) ws \<longrightarrow>
      (\<exists>s'. gesture_irqs K x_len tol msg ws (0, s) = Some (Inr (6, s')))) \<and>
    (\<forall>p n d. fst (gesture_step x_len tol p (n, d)) \<in> {0, n, n + 1})"
proof -
  let ?f = "fold (gesture_feed x_len tol) (concat (map ps2_packet es)) (0, s)"
  have 6: "fst ?f = 6"
    using gesture_feed_events [OF assms(3,4,2), of x_len tol 0] gesture_recognised [OF assms(1)] assms(5) by metis
  then have "?f = (6, snd ?f)" by (metis prod.collapse)
  moreover have "\<not> reading_error (l4_mouse s)" using assms(3) by (simp add: assembling_def)
  ultimately show ?thesis using 6 gesture_irqs_feed [of msg K _ ws "(0, s)" x_len tol] gesture_advance by auto
qed

text \<open>A gesture of six packets.\<close>

definition event :: "bool \<Rightarrow> bool \<Rightarrow> int \<Rightarrow> int \<Rightarrow> ps2_event" where
  "event l r dx dy = \<lparr>ev_l = l, ev_r = r, ev_m = False, ev_dx = dx, ev_dy = dy\<rparr>"

definition sample_gesture :: "ps2_event list" where
  "sample_gesture = [event True False 0 0, event True False 20 18, event True False 15 (-2), event False False 0 0,
     event False True 0 0, event False True 31 (-40), event False False 0 0]"

text \<open>A world in which the output buffer is full, without an error, and holds the byte.\<close>

definition byte_world :: "u8 \<Rightarrow> sim" where
  "byte_world b = sim0\<lparr>sim_in := [(0, 1), (0, ucast b)]\<rparr>"

lemma byte_world_reads: "reads_byte sim_kernel b (byte_world b)"
proof -
  have "out_full 1" "line_ok 1" by code_simp+
  then show ?thesis
    unfolding reads_byte_def
    by (subst mouse_ih.simps) (simp add: byte_world_def sim0_def sim_kernel_simps util_sys_inb_def mouse_ih_byte_def Let_def)
qed

theorem gesture_accepts_witness:
  "\<exists>s'. gesture_irqs sim_kernel 30 5 \<lparr>m_source = HARDWARE, interrupts = irq_set_mouse\<rparr>
     (map byte_world (concat (map ps2_packet sample_gesture))) (0, lab4_init) = Some (Inr (6, s'))"
proof -
  let ?p = "\<lambda>l r dx dy. event_packet (event l r dx dy)"
  have "is_gesture 30 5 (map event_packet sample_gesture)"
    unfolding is_gesture_def sample_gesture_def
    by (rule exI [of _ "?p True False 0 0"], rule exI [of _ "[?p True False 20 18, ?p True False 15 (-2)]"],
        rule exI [of _ "[]"], rule exI [of _ "?p False False 0 0"], rule exI [of _ "[]"],
        rule exI [of _ "?p False True 0 0"], rule exI [of _ "[?p False True 31 (-40)]"],
        rule exI [of _ "?p False False 0 0"])
      (simp add: event_packet_def decoded_def event_def upward_def downward_def)
  moreover have "\<forall>e\<in>set sample_gesture. in_range e" by (simp add: sample_gesture_def in_range_def event_def)
  moreover have "assembling (l4_mouse lab4_init)" "counter (l4_mouse lab4_init) = 0" "x_displacement lab4_init = 0"
    by (simp_all add: lab4_init_def mouse_driver_init_def packet_zero_def assembling_def)
  moreover have "list_all2 (reads_byte sim_kernel) bs (map byte_world bs)" for bs
    by (simp add: list_all2_conv_all_nth byte_world_reads)
  moreover have "interrupts \<lparr>m_source = HARDWARE, interrupts = irq_set_mouse\<rparr> AND irq_set_mouse \<noteq> 0"
    by (simp add: irq_set_mouse_def)
  ultimately show ?thesis using gesture_accepts by blast
qed

section \<open>The idle time-out\<close>

text \<open>A mouse that sends nothing, and the state of the test between two ticks.\<close>

definition no_mouse :: "message \<Rightarrow> bool" where
  "no_mouse msg \<longleftrightarrow> interrupts msg AND irq_set_mouse = 0"

definition mouse_silent :: "'w kernel \<Rightarrow> bool" where
  "mouse_silent K \<longleftrightarrow> (\<forall>w. no_mouse (fst (snd (fst (driver_receive K w)))))"

definition idle_inv :: "'w kernel \<Rightarrow> u8 \<Rightarrow> mouse_driver \<Rightarrow> ('w \<Rightarrow> nat) \<Rightarrow> nat \<Rightarrow> lab4 \<times> 'w \<Rightarrow> bool" where
  "idle_inv K idle_time d ticks n0 st \<longleftrightarrow>
     mouse_silent K \<and> irqs_seen K 1 ticks \<and> l4_mouse (fst st) = d \<and> 0 \<le> l2_tck_counter (l4_timer (fst st)) \<and>
     l2_tck_counter (l4_timer (fst st)) \<le> uint idle_time * 60 \<and>
     int (ticks (snd st)) = int n0 + l2_tck_counter (l4_timer (fst st))"

lemma async_tick:
  assumes "mouse_silent K" and "driver_receive K w = (m, w1)"
  shows "mouse_test_async_irq K (fst (snd m)) (s, w1) =
    Some (Inr (if interrupts (fst (snd m)) AND 1 \<noteq> 0 then s\<lparr>l4_timer := lab2_timer_int_handler (l4_timer s)\<rparr> else s, w1))"
proof -
  have "no_mouse (fst (snd m))" using assms by (metis fst_conv mouse_silent_def)
  then show ?thesis by (simp add: mouse_test_async_irq_def no_mouse_def irq_set_timer_def IRQ0_def)
qed

interpretation idle_count: counted_loop K "\<lambda>s. l2_tck_counter (l4_timer s) < uint idle_time * 60" "mouse_test_async_irq K"
    1 "\<lambda>s. nat (uint idle_time * 60 - l2_tck_counter (l4_timer s))" "idle_inv K idle_time d ticks n0"
  for K :: "'w kernel" and idle_time :: u8 and d :: mouse_driver and ticks :: "'w \<Rightarrow> nat" and n0 :: nat
  by unfold_locales
    (auto simp: idle_inv_def async_tick irqs_seenD(1) on_line_def lab2_timer_int_handler_def)

text \<open>C34: With a mouse that sends nothing, a keyboard controller that accepts every command and whose mouse
  acknowledges it, and a timer that keeps interrupting, \<open>mouse_test_async\<close> returns 0 after exactly \<open>60 * idle_time\<close>
  messages with the interrupt bit of the timer, counted where the kernel delivers them, whatever other messages arrive
  between them; the tick counter has that value, and the mouse driver's packets are untouched.\<close>

lemma mouse_test_async_times_out:
  assumes "keeps_interrupting K 1" and "mouse_silent K" and K: "kbc_responsive K" "io_traced K tr" and n: "irqs_seen K 1 ticks"
    and "l2_tck_counter (l4_timer s) = 0"
  shows "\<exists>s' w'. mouse_test_async K idle_time s w = Some (Inr (0, s', w')) \<and> ticks w' = ticks w + 60 * unat idle_time \<and>
    l2_tck_counter (l4_timer s') = 60 * uint idle_time \<and> packet1 (l4_mouse s') = packet1 (l4_mouse s) \<and>
    total_packets (l4_mouse s') = total_packets (l4_mouse s)"
proof -
  have q: "ports_quiet K ticks" using n by (simp add: irqs_seen_def)
  obtain w1 where w1: "enable_mouse_data K w = Some (0, w1)" using enable_responsive [OF K] by blast
  obtain r h w2 where h: "lab4_subscribe K s w1 = (s\<lparr>l4_mouse := (l4_mouse s)\<lparr>hook_id_mouse := h\<rparr>\<rparr>, w2)" "ticks w2 = ticks w1"
    by (simp add: lab4_subscribe_def lab4_kbc_subscribe_def irqs_seenD(4) [OF n] Let_def split_beta)
  let ?s2 = "s\<lparr>l4_mouse := (l4_mouse s)\<lparr>hook_id_mouse := h\<rparr>\<rparr>"
  obtain r3 b t w3 where t: "lab2_timer_subscribe_int K (l4_timer ?s2) w2 = ((r3, b, t), w3)" "l2_tck_counter t = 0" "ticks w3 = ticks w2"
    using assms(6) by (simp add: lab2_timer_subscribe_int_def irqs_seenD(4) [OF n] Let_def split_beta)
  have "ticks w3 = ticks w" using mouse_data_quiet(2) [OF q w1] h(2) t(3) by simp
  then have "idle_inv K idle_time (l4_mouse ?s2) ticks (ticks w) (?s2\<lparr>l4_timer := t\<rparr>, w3)" using assms(2) n t(2) by (simp add: idle_inv_def)
  from idle_count.loop_returns [OF assms(1) this] obtain s4 w4
    where l: "irq_loop K (\<lambda>s. l2_tck_counter (l4_timer s) < uint idle_time * 60) (mouse_test_async_irq K)
        (?s2\<lparr>l4_timer := t\<rparr>, w3) = Some (Inr (s4, w4))"
      and s4: "l4_mouse s4 = l4_mouse ?s2" "l2_tck_counter (l4_timer s4) = 60 * uint idle_time"
        "int (ticks w4) = int (ticks w) + 60 * int (unat idle_time)"
    by (auto simp: idle_inv_def)
  obtain h5 w5 where u: "lab4_unsubscribe K s4 w4 = (s4\<lparr>l4_mouse := (l4_mouse s4)\<lparr>hook_id_mouse := h5\<rparr>\<rparr>, w5)" "ticks w5 = ticks w4"
    by (simp add: lab4_unsubscribe_def lab4_kbc_unsubscribe_def irqs_seenD(5) [OF n] split_beta)
  obtain w6 where w6: "disable_mouse_data K w5 = Some (0, w6)" using disable_responsive [OF K] by blast
  have "ticks w6 = ticks w + 60 * unat idle_time" using mouse_data_quiet(1) [OF q w6] u(2) s4(3) by (simp; linarith)
  with w1 h t l u w6 s4 show ?thesis
    by (simp add: mouse_test_async_def lab2_timer_unsubscribe_int_def irqs_seenD(5) [OF n] split_beta)
qed

definition idle_kernel :: "sim kernel" where
  "idle_kernel = alternating ack_kernel"

theorem mouse_test_async_times_out_witness:
  "\<exists>s' w'. mouse_test_async idle_kernel 1 lab4_init sim0 = Some (Inr (0, s', w')) \<and>
    length (sim_in w') div 2 = 60 \<and> l2_tck_counter (l4_timer s') = 60"
proof -
  have "keeps_interrupting idle_kernel 1" unfolding idle_kernel_def by (rule alternating_interrupts)
  moreover have "mouse_silent idle_kernel"
    by (simp add: mouse_silent_def no_mouse_def idle_kernel_def alternating_receive notification_def irq_set_mouse_def)
  moreover have "kbc_responsive idle_kernel"
  proof -
    have "ready_after idle_kernel id in_free 0 w" for w
      by (simp add: idle_kernel_def alternating_def ack_kernel_def sim_kernel_def status_of_def in_free_def)
    then have "\<exists>n. ready_after idle_kernel id in_free n w" for w by blast
    then show ?thesis
      by (simp add: kbc_responsive_def) (simp add: idle_kernel_def alternating_def ack_kernel_def sim_kernel_def)
  qed
  moreover have "io_traced idle_kernel sim_out"
    by (simp add: io_traced_def idle_kernel_def alternating_def ack_kernel_def sim_kernel_def)
  moreover have "irqs_seen idle_kernel 1 (\<lambda>w. length (sim_in w) div 2)"
    unfolding idle_kernel_def by (rule alternating_seen) (simp_all add: ports_quiet_def ack_kernel_def sim_kernel_def)
  ultimately show ?thesis
    using mouse_test_async_times_out [of idle_kernel sim_out "\<lambda>w. length (sim_in w) div 2" lab4_init 1 sim0]
    by (auto simp: lab4_init_def lab2_timer_init_def sim0_def)
qed

end
