(* ===== verification/Lab5_Drivers.thy ===== *)
theory Lab5_Drivers
  imports Lab3 Timer_Driver
begin

text \<open>
  The drivers of \<open>lab5\<close>: \<open>utils.c\<close>, \<open>keyboard.c\<close> and \<open>timer.c\<close>.  The program is built with
  \<open>-DLAB5\<close>, so \<open>util_sys_inb\<close> does not count its calls.  The timer driver takes its constants from
  \<open>lab2/i8254.h\<close>.
\<close>

unbundle bit_operations_syntax

section \<open>\<open>utils.c\<close>\<close>

definition lab5_util_get_LSB :: "u16 \<Rightarrow> u8 option \<Rightarrow> int \<times> u8 option" where
  "lab5_util_get_LSB val lsb = (if lsb = None then (1, lsb) else (0, Some (ucast val)))"

definition lab5_util_get_MSB :: "u16 \<Rightarrow> u8 option \<Rightarrow> int \<times> u8 option" where
  "lab5_util_get_MSB val msb =
     (if msb = None then (1, msb) else let val = drop_bit 8 val in (0, Some (ucast val)))"

definition lab5_util_sys_inb :: "'w kernel \<Rightarrow> int \<Rightarrow> u8 \<Rightarrow> 'w \<Rightarrow> (int \<times> u8) \<times> 'w" where
  "lab5_util_sys_inb K port old w =
     (case sys_inb K port w of ((r, st), w') \<Rightarrow>
        if r \<noteq> 0 then ((1, old), w') else ((0, ucast st), w'))"

interpretation lab5_bytes: byte_access lab5_util_get_LSB lab5_util_get_MSB
  by unfold_locales (simp_all add: lab5_util_get_LSB_def lab5_util_get_MSB_def)

interpretation lab5_port: port_reader lab5_util_sys_inb
  by unfold_locales (simp_all add: lab5_util_sys_inb_def)

lemma lab5_util_sys_inb_eq: "lab5_util_sys_inb = util_sys_inb"
  by (intro ext) (simp add: lab5_util_sys_inb_def util_sys_inb_def)

section \<open>\<open>keyboard.c\<close>\<close>

record lab5_kbd =
  l5_hook_id_kbd :: int
  l5_scancode :: u8
  l5_scancodes :: "u8 list"

definition lab5_kbd_init :: lab5_kbd where
  "lab5_kbd_init = \<lparr>l5_hook_id_kbd = 0, l5_scancode = 0, l5_scancodes = [0, 0]\<rparr>"

definition lab5_kbc_subscribe :: "'w kernel \<Rightarrow> lab5_kbd \<Rightarrow> 'w \<Rightarrow> (int \<times> lab5_kbd) \<times> 'w" where
  "lab5_kbc_subscribe K k w =
     (let k1 = k\<lparr>l5_hook_id_kbd := IRQ1\<rparr> in
      case sys_irqsetpolicy K IRQ1 (IRQ_REENABLE OR IRQ_EXCLUSIVE) (l5_hook_id_kbd k1) w of ((r, h), w') \<Rightarrow>
        ((if r \<noteq> OK then 1 else 0, k1\<lparr>l5_hook_id_kbd := h\<rparr>), w'))"

definition lab5_kbc_unsubscribe :: "'w kernel \<Rightarrow> lab5_kbd \<Rightarrow> 'w \<Rightarrow> (int \<times> lab5_kbd) \<times> 'w" where
  "lab5_kbc_unsubscribe K k w =
     (case sys_irqrmpolicy K (l5_hook_id_kbd k) w of ((r, h), w') \<Rightarrow>
        ((if r \<noteq> OK then 1 else 0, k\<lparr>l5_hook_id_kbd := h\<rparr>), w'))"

text \<open>Once the output buffer is full: the return code of \<open>kbc_read\<close>; \<open>kbc_ih\<close> only prints messages.\<close>

definition lab5_kbc_byte :: "'w kernel \<Rightarrow> lab5_kbd \<Rightarrow> u8 \<Rightarrow> 'w \<Rightarrow> (int \<times> lab5_kbd) \<times> 'w" where
  "lab5_kbc_byte K k stat w =
     (case lab5_util_sys_inb K OUTPUT_BUFFER (l5_scancode k) w of ((r, sc), w1) \<Rightarrow>
        if r \<noteq> 0 then ((1, k), w1)
        else if stat AND (KBC_PAR_ERR OR KBC_TO_ERR) = 0 then ((0, k\<lparr>l5_scancode := sc\<rparr>), w1)
        else ((1, k\<lparr>l5_scancode := sc\<rparr>), w1))"

partial_function (option) lab5_kbc_ih :: "'w kernel \<Rightarrow> lab5_kbd \<Rightarrow> 'w \<Rightarrow> (lab5_kbd \<times> 'w) option" where
  "lab5_kbc_ih K k w =
     (case lab5_util_sys_inb K STATUS_REGISTER 0 w of ((r, stat), w1) \<Rightarrow>
        if r \<noteq> 0 then Some (k, w1)
        else if out_full stat then Some (case lab5_kbc_byte K k stat w1 of ((_, k1), w2) \<Rightarrow> (k1, w2))
        else lab5_kbc_ih K k (tickdelay K (micros_to_ticks K WAIT_KBC) w1))"

partial_function (option) lab5_kbc_read :: "'w kernel \<Rightarrow> lab5_kbd \<Rightarrow> 'w \<Rightarrow> ((int \<times> lab5_kbd) \<times> 'w) option" where
  "lab5_kbc_read K k w =
     (case lab5_util_sys_inb K STATUS_REGISTER 0 w of ((r, stat), w1) \<Rightarrow>
        if r \<noteq> 0 then Some ((1, k), w1)
        else if out_full stat then Some (lab5_kbc_byte K k stat w1)
        else lab5_kbc_read K k w1)"

definition lab5_kbc_print_scancode :: "'w kernel \<Rightarrow> lab5_kbd \<Rightarrow> 'w \<Rightarrow> lab5_kbd \<times> 'w" where
  "lab5_kbc_print_scancode K k w =
     (if l5_scancode k = 0xE0 then (k\<lparr>l5_scancodes := (l5_scancodes k)[0 := l5_scancode k]\<rparr>, w)
      else
        let makecode = (l5_scancode k AND 0x80 = 0);
            (k1, n_bytes) =
              (if l5_scancodes k ! 0 = 0xE0 then (k\<lparr>l5_scancodes := (l5_scancodes k)[1 := l5_scancode k]\<rparr>, 2)
               else (k\<lparr>l5_scancodes := (l5_scancodes k)[0 := l5_scancode k]\<rparr>, 1))
        in (k1\<lparr>l5_scancodes := (l5_scancodes k1)[0 := 0]\<rparr>,
            kbd_print_scancode K makecode n_bytes (l5_scancodes k1) w))"

interpretation lab5_ih_loop: kbc_poller K "tickdelay K (micros_to_ticks K WAIT_KBC)" out_full "lab5_kbc_ih K k"
    "\<lambda>stat w. Some (case lab5_kbc_byte K k stat w of ((_, k1), w2) \<Rightarrow> (k1, w2))" "\<lambda>w. (k, w)" for K k
  by unfold_locales
    (subst lab5_kbc_ih.simps, simp only: STATUS_REGISTER_def lab5_util_sys_inb_eq util_status_case)

interpretation lab5_read_loop: kbc_poller K id out_full "lab5_kbc_read K k"
    "\<lambda>stat w. Some (lab5_kbc_byte K k stat w)" "\<lambda>w. ((1, k), w)" for K k
  by unfold_locales
    (subst lab5_kbc_read.simps, simp only: STATUS_REGISTER_def lab5_util_sys_inb_eq util_status_case id_apply)

interpretation lab5_kbd_line: irq_line "\<lambda>K k w. apfst (\<lambda>(r, k'). (r, 1, k')) (lab5_kbc_subscribe K k w)"
    lab5_kbc_unsubscribe l5_hook_id_kbd "\<lambda>h. l5_hook_id_kbd_update (\<lambda>_. h)"
    IRQ1 "IRQ_REENABLE OR IRQ_EXCLUSIVE" 1
  by unfold_locales (simp_all add: lab5_kbc_subscribe_def lab5_kbc_unsubscribe_def Let_def OK_def IRQ1_def split_beta)

section \<open>\<open>timer.c\<close>\<close>

record lab5_timer =
  l5_hook_id_timer :: int
  l5_counter :: int

definition lab5_timer_init :: lab5_timer where
  "lab5_timer_init = \<lparr>l5_hook_id_timer = 0, l5_counter = 0\<rparr>"

text \<open>\<open>*bit_no\<close> is not assigned.\<close>

definition lab5_timer_subscribe_int :: "'w kernel \<Rightarrow> u8 \<Rightarrow> lab5_timer \<Rightarrow> 'w \<Rightarrow> (int \<times> u8 \<times> lab5_timer) \<times> 'w" where
  "lab5_timer_subscribe_int K bit_no t w =
     (let t1 = t\<lparr>l5_hook_id_timer := 0\<rparr>; policy = IRQ_REENABLE; IRQ_line = 0 in
      case sys_irqsetpolicy K IRQ_line policy (l5_hook_id_timer t1) w of ((r, h), w') \<Rightarrow>
        ((if r \<noteq> OK then 1 else OK, bit_no, t1\<lparr>l5_hook_id_timer := h\<rparr>), w'))"

definition lab5_timer_unsubscribe_int :: "'w kernel \<Rightarrow> lab5_timer \<Rightarrow> 'w \<Rightarrow> (int \<times> lab5_timer) \<times> 'w" where
  "lab5_timer_unsubscribe_int K t w =
     (case sys_irqrmpolicy K (l5_hook_id_timer t) w of ((r, h), w') \<Rightarrow>
        ((if r \<noteq> OK then 1 else OK, t\<lparr>l5_hook_id_timer := h\<rparr>), w'))"

definition lab5_timer_int_handler :: "lab5_timer \<Rightarrow> lab5_timer" where
  "lab5_timer_int_handler t = t\<lparr>l5_counter := l5_counter t + 1\<rparr>"

definition lab5_timer_get_conf :: "'w kernel \<Rightarrow> u8 \<Rightarrow> u8 \<Rightarrow> 'w \<Rightarrow> (int \<times> u8) \<times> 'w" where
  "lab5_timer_get_conf K tmr st w =
     (if tmr \<noteq> 0 \<and> tmr \<noteq> 1 \<and> tmr \<noteq> 2 then ((1, st), w)
      else
        let rbcmd = TIMER_RB_CMD OR TIMER_RB_COUNT OR TIMER_RB_SEL tmr in
        case sys_outb K TIMER_CTRL rbcmd w of (ro, w1) \<Rightarrow>
        if ro \<noteq> 0 then ((1, st), w1)
        else case lab5_util_sys_inb K (0x40 + uint tmr) st w1 of ((r, st'), w2) \<Rightarrow>
          if r = 0 then ((0, st'), w2) else ((1, st'), w2))"

text \<open>
  The rounded frequency is computed for a message only; its divisor is not 0, since
  \<open>freq \<le> TIMER_FREQ\<close>.  The results of the three port writes are ignored.
\<close>

definition lab5_timer_set_frequency :: "'w kernel \<Rightarrow> u8 \<Rightarrow> u32 \<Rightarrow> 'w \<Rightarrow> int \<times> 'w" where
  "lab5_timer_set_frequency K tmr freq w =
     (if freq < 19 \<or> freq > TIMER_FREQ then (1, w)
      else case lab5_timer_get_conf K tmr 0 w of ((r, st), w1) \<Rightarrow>
      if r \<noteq> 0 then (1, w1)
      else
        let last_bits = st AND 0x0F;
            control_word = TIMER_RB_SEL tmr OR TIMER_LSB_MSB OR last_bits;
            dv = (ucast (TIMER_FREQ div freq) :: u16);
            lsb = the (snd (lab5_util_get_LSB dv (Some (indeterminate K w1))));
            msb = the (snd (lab5_util_get_MSB dv (Some (indeterminate K w1))))
        in case sys_outb K TIMER_CTRL control_word w1 of (_, w2) \<Rightarrow>
           case sys_outb K (TIMER_0 + uint tmr) lsb w2 of (_, w3) \<Rightarrow>
           case sys_outb K (TIMER_0 + uint tmr) msb w3 of (_, w4) \<Rightarrow> (0, w4))"

interpretation lab5_timer_line: irq_line "\<lambda>K. lab5_timer_subscribe_int K 0" lab5_timer_unsubscribe_int
    l5_hook_id_timer "\<lambda>h. l5_hook_id_timer_update (\<lambda>_. h)" 0 IRQ_REENABLE 0
  by unfold_locales (simp_all add: lab5_timer_subscribe_int_def lab5_timer_unsubscribe_int_def
      Let_def OK_def split_beta)

section \<open>The control word\<close>

lemma lab5_get_conf_reads:
  assumes "tmr \<le> 2" and "fst (sys_outb K 0x43 (0xE0 OR BIT (unat tmr + 1)) w) = 0"
    and "sys_inb K (timer_port tmr) (snd (sys_outb K 0x43 (0xE0 OR BIT (unat tmr + 1)) w)) = ((0, st), w1)"
  shows "lab5_timer_get_conf K tmr old w = ((0, ucast st), w1)"
  using assms(2,3)
  by (cases rule: tmr_cases [OF assms(1)])
    (simp_all add: lab5_timer_get_conf_def Let_def split_beta lab5_util_sys_inb_def timer_port_def i8254_consts)

lemma lab5_control_word:
  assumes "tmr \<le> (2 :: u8)"
  shows "(TIMER_RB_SEL tmr OR TIMER_LSB_MSB OR (st AND 0x0F)) AND 0xC0 = (0 :: u8) \<and>
    (TIMER_RB_SEL tmr OR TIMER_LSB_MSB OR (st AND 0x0F) = timer_control_word tmr st) = (tmr = 0 \<and> st AND 2 \<noteq> 0)"
  using assms
proof (cases rule: tmr_cases)
  case 1
  show ?thesis unfolding 1 by (rule all_u8 [where b = st]) code_simp
next
  case 2
  show ?thesis unfolding 2 by (rule all_u8 [where b = st]) code_simp
next
  case 3
  show ?thesis unfolding 3 by (rule all_u8 [where b = st]) code_simp
qed

text \<open>The \<open>timer_set_frequency\<close> of \<open>lab5\<close> writes the two bytes of the right divisor to the port of
  the timer, but its control word takes the selection bits of the read-back command: it always
  selects timer 0, and it is the intended control word exactly for timer 0 with bit 1 of the
  status already set.\<close>

lemma lab5_set_frequency_control_word:
  assumes "tmr \<le> 2" and "19 \<le> freq" and "freq \<le> TIMER_FREQ" and tr: "io_traced K tr"
    and "fst (sys_outb K 0x43 (0xE0 OR BIT (unat tmr + 1)) w) = 0"
    and conf: "sys_inb K (timer_port tmr) (snd (sys_outb K 0x43 (0xE0 OR BIT (unat tmr + 1)) w)) = ((0, st), u)"
  shows "\<exists>w' cw lsb msb. lab5_timer_set_frequency K tmr freq w = (0, w') \<and>
    tr w' = tr w @ [(0x43, 0xE0 OR BIT (unat tmr + 1)), (0x43, cw), (timer_port tmr, lsb), (timer_port tmr, msb)] \<and>
    uint lsb + 256 * uint msb = 1193182 div uint freq \<and> cw AND 0xC0 = 0 \<and>
    (cw = timer_control_word tmr (ucast st)) = (tmr = 0 \<and> (ucast st :: u8) AND 2 \<noteq> 0)"
proof -
  let ?dv = "ucast (TIMER_FREQ div freq) :: u16"
  let ?lsb = "ucast ?dv :: u8" and ?msb = "ucast (drop_bit 8 ?dv) :: u8"
  let ?cw = "TIMER_RB_SEL tmr OR TIMER_LSB_MSB OR (ucast st AND 0x0F)"
  let ?w = "snd (sys_outb K (timer_port tmr) ?msb (snd (sys_outb K (timer_port tmr) ?lsb (snd (sys_outb K 0x43 ?cw u)))))"
  have "tr u = tr w @ [(0x43, 0xE0 OR BIT (unat tmr + 1))]"
    using io_tracedD(1,2) [OF tr] conf by (metis snd_conv)
  then have "tr ?w = tr w @ [(0x43, 0xE0 OR BIT (unat tmr + 1)), (0x43, ?cw), (timer_port tmr, ?lsb), (timer_port tmr, ?msb)]"
    using io_tracedD(1) [OF tr] by simp
  moreover have "lab5_timer_set_frequency K tmr freq w = (0, ?w)"
    using assms(2,3)
    by (simp add: lab5_timer_set_frequency_def lab5_get_conf_reads [OF assms(1,5) conf] Let_def split_beta
        lab5_bytes.lsb_store lab5_bytes.msb_store TIMER_CTRL_def TIMER_0_def timer_port_def not_less not_le)
  moreover have "uint ?lsb + 256 * uint ?msb = 1193182 div uint freq"
    unfolding divisor_fits [OF assms(2,3), symmetric]
    by (rule lab5_bytes.halves_recombine [OF lab5_bytes.lsb_store lab5_bytes.msb_store])
  ultimately show ?thesis
    using lab5_control_word [OF assms(1), of "ucast st"] by blast
qed

theorem lab5_set_frequency_control_word_witness:
  "\<exists>w' cw lsb msb. lab5_timer_set_frequency sim_kernel 1 60 (sim0\<lparr>sim_in := [(0, 0x76)]\<rparr>) = (0, w') \<and>
    sim_out w' = [(0x43, 0xE4), (0x43, cw), (0x41, lsb), (0x41, msb)] \<and> cw AND 0xC0 = 0"
proof -
  have "\<exists>w' cw lsb msb. lab5_timer_set_frequency sim_kernel 1 60 (sim0\<lparr>sim_in := [(0, 0x76)]\<rparr>) = (0, w') \<and>
    sim_out w' = sim_out (sim0\<lparr>sim_in := [(0, 0x76)]\<rparr>) @ [(0x43, 0xE0 OR BIT (unat (1 :: u8) + 1)), (0x43, cw),
      (timer_port 1, lsb), (timer_port 1, msb)] \<and>
    uint lsb + 256 * uint msb = 1193182 div uint (60 :: u32) \<and> cw AND 0xC0 = 0 \<and>
    (cw = timer_control_word 1 (ucast (0x76 :: u32))) = ((1 :: u8) = 0 \<and> (ucast (0x76 :: u32) :: u8) AND 2 \<noteq> 0)"
    by (rule lab5_set_frequency_control_word [OF _ _ _ sim_kernel_traced,
          where u = "sim0\<lparr>sim_out := [(0x43, 0xE4)]\<rparr>"])
      (simp_all add: sim_kernel_simps sim0_def i8254_consts timer_port_def)
  then show ?thesis by (auto simp: sim0_def timer_port_def BIT_def)
qed

section \<open>Scancode streams\<close>

text \<open>The printing routines fed byte by byte, as \<open>feed\<close> does for the project.\<close>

definition lab3_feed :: "'w kernel \<Rightarrow> u8 \<Rightarrow> lab3 \<times> 'w \<Rightarrow> lab3 \<times> 'w" where
  "lab3_feed K b = (\<lambda>(s, w). lab3_printSC K (s\<lparr>l3_scancode := b\<rparr>) w)"

definition lab5_feed :: "'w kernel \<Rightarrow> u8 \<Rightarrow> lab5_kbd \<times> 'w \<Rightarrow> lab5_kbd \<times> 'w" where
  "lab5_feed K b = (\<lambda>(k, w). lab5_kbc_print_scancode K (k\<lparr>l5_scancode := b\<rparr>) w)"

text \<open>
  The prefix seen is remembered in \<open>bytes\<close> by the project and in \<open>scancodes[0]\<close> by \<open>lab5\<close>.
\<close>

definition same_prefix :: "keyboard \<Rightarrow> lab5_kbd \<Rightarrow> bool" where
  "same_prefix k k5 \<longleftrightarrow> \<not> makecode k \<and> length (scancodes k) = 2 \<and> length (l5_scancodes k5) = 2 \<and>
     (if l5_scancodes k5 ! 0 = 0xE0 then bytes k = 2 \<and> scancodes k ! 0 = 0xE0 else bytes k = 1)"

text \<open>The framework reads only the announced number of bytes.\<close>

definition prints_prefix :: "'w kernel \<Rightarrow> bool" where
  "prints_prefix K \<longleftrightarrow> (\<forall>mk n a b w. take (unat n) a = take (unat n) b \<longrightarrow>
     kbd_print_scancode K mk n a w = kbd_print_scancode K mk n b w)"

lemma feed_same_prefix:
  assumes "same_prefix k k5" and "prints_prefix K"
  shows "same_prefix (fst (feed K b (k, w))) (fst (lab5_feed K b (k5, w))) \<and>
    snd (feed K b (k, w)) = snd (lab5_feed K b (k5, w))"
proof -
  obtain a0 a1 where a: "scancodes k = [a0, a1]"
    using assms(1) by (auto simp: same_prefix_def numeral_2_eq_2 length_Suc_conv)
  obtain c0 c1 where c: "l5_scancodes k5 = [c0, c1]"
    using assms(1) by (auto simp: same_prefix_def numeral_2_eq_2 length_Suc_conv)
  have "kbd_print_scancode K mk 1 [b, a1] w = kbd_print_scancode K mk 1 [b, c1] w" for mk w
    using assms(2) by (auto simp: prints_prefix_def)
  then show ?thesis
    using assms(1)
    by (auto simp: same_prefix_def feed_def lab5_feed_def printSC_def lab5_kbc_print_scancode_def Let_def a c
        split: if_splits)
qed

lemma lab3_feed_refines: "apfst lab3_keyboard (lab3_feed K b st) = feed K b (apfst lab3_keyboard st)"
proof -
  have "lab3_keyboard (s\<lparr>l3_scancode := b\<rparr>) = (lab3_keyboard s)\<lparr>scancode := b\<rparr>" for s
    by (simp add: lab3_keyboard_def)
  then show ?thesis
    by (cases st) (simp add: lab3_feed_def feed_def lab3_printSC_refines split_beta)
qed

lemma lab3_stream_refines: "apfst lab3_keyboard (fold (lab3_feed K) bs st) = fold (feed K) bs (apfst lab3_keyboard st)"
  by (induction bs arbitrary: st) (simp_all add: lab3_feed_refines)

lemma lab5_stream_agrees:
  assumes "same_prefix k k5" and "prints_prefix K"
  shows "snd (fold (lab5_feed K) bs (k5, w)) = snd (fold (feed K) bs (k, w))"
  using assms(1)
proof (induction bs arbitrary: k k5 w)
  case (Cons b bs)
  let ?p = "feed K b (k, w)" and ?q = "lab5_feed K b (k5, w)"
  have "same_prefix (fst ?p) (fst ?q)" "snd ?p = snd ?q"
    using feed_same_prefix [OF Cons.prems assms(2)] by auto
  moreover from this(2) have "?p = (fst ?p, snd ?q)" by (metis prod.collapse)
  ultimately show ?case using Cons.IH [of "fst ?p" "fst ?q" "snd ?q"] by simp
qed simp

text \<open>C38: The scancode printers of \<open>lab3\<close>, \<open>lab5\<close> and the project make the same calls for every stream of
  bytes, well-formed or not, although \<open>lab5\<close> recognises a two-byte scancode by the stored prefix and
  the others by a length variable.\<close>

lemma scancode_printers_agree:
  assumes "same_prefix (lab3_keyboard s) k5" and "prints_prefix K"
  shows "snd (fold (lab3_feed K) bs (s, w)) = snd (fold (feed K) bs (lab3_keyboard s, w)) \<and>
    snd (fold (lab5_feed K) bs (k5, w)) = snd (fold (feed K) bs (lab3_keyboard s, w))"
proof
  show "snd (fold (lab3_feed K) bs (s, w)) = snd (fold (feed K) bs (lab3_keyboard s, w))"
    using arg_cong [OF lab3_stream_refines [of K bs "(s, w)"], of snd] by simp
  show "snd (fold (lab5_feed K) bs (k5, w)) = snd (fold (feed K) bs (lab3_keyboard s, w))"
    using assms by (rule lab5_stream_agrees)
qed

theorem scancode_printers_agree_witness:
  "sim_out (snd (fold (lab5_feed printing_kernel) [0xE0, 0x48, 0x1C, 0xE0, 0xE0, 0xC8] (lab5_kbd_init, sim0))) =
     sim_out (snd (fold (feed printing_kernel) [0xE0, 0x48, 0x1C, 0xE0, 0xE0, 0xC8] (lab3_keyboard lab3_init, sim0))) \<and>
   sim_out (snd (fold (lab5_feed printing_kernel) [0xE0, 0x48, 0x1C, 0xE0, 0xE0, 0xC8] (lab5_kbd_init, sim0))) \<noteq> []"
proof -
  have "same_prefix (lab3_keyboard lab3_init) lab5_kbd_init" "prints_prefix printing_kernel"
    by (simp_all add: same_prefix_def prints_prefix_def lab3_keyboard_def lab3_init_def lab5_kbd_init_def printing_kernel_def)
  moreover have "sim_out (snd (fold (feed printing_kernel) [0xE0, 0x48, 0x1C, 0xE0, 0xE0, 0xC8] (lab3_keyboard lab3_init, sim0))) \<noteq> []"
    by code_simp
  ultimately show ?thesis using scancode_printers_agree [of lab3_init lab5_kbd_init printing_kernel "[0xE0, 0x48, 0x1C, 0xE0, 0xE0, 0xC8]" sim0] by simp
qed

end
