(* ===== verification/Lab5_Video.thy ===== *)
theory Lab5_Video
  imports Video
begin

text \<open>
  \<open>lab5/video_gr.c\<close>: the frame buffer the project's \<open>video.c\<close> grew out of.  Its pixel primitive and its
  copy to the video memory are simulated by the project's (\<open>as_video\<close> is the abstraction), so it
  is an instance of the pixel contract and the loops over rectangles and sprites are verified
  against it.
\<close>

unbundle bit_operations_syntax

record lab5_video =
  vmi_p :: vbe_mode_info
  l5_buffer :: "u8 list"
  l5_video_mem :: "u8 list"

text \<open>A \<open>for\<close> loop whose body is left with \<open>return 1\<close> when the call in it fails.\<close>

primrec for_ok :: "'i list \<Rightarrow> ('i \<Rightarrow> 's \<Rightarrow> (int \<times> 's) result) \<Rightarrow> 's \<Rightarrow> (int \<times> 's) result" where
  "for_ok [] body s = Inr (0, s)"
| "for_ok (i # is) body s =
     andthen (body i s) (\<lambda>(r, s'). if r \<noteq> 0 then Inr (1, s') else for_ok is body s')"

text \<open>\<open>False\<close> is the result \<open>NULL\<close>.\<close>

definition lab5_vg_init :: "'w kernel \<Rightarrow> u16 \<Rightarrow> lab5_video \<Rightarrow> 'w \<Rightarrow> (bool \<times> lab5_video \<times> 'w) result" where
  "lab5_vg_init K mode v w =
     (case vbe_get_mode_info K mode (vmi_p v) w of ((r, mi), w1) \<Rightarrow>
      let v1 = v\<lparr>vmi_p := mi\<rparr> in
      if r \<noteq> 0 then Inr (False, v1, w1)
      else
        let vram_base = PhysBasePtr mi;
            vram_size = nat (if BitsPerPixel mi = 15
                        then uint (XResolution mi) * uint (YResolution mi) * 2
                        else uint (XResolution mi) * uint (YResolution mi) * (uint (BitsPerPixel mi) div 8))
        in case malloc K vram_size w1 of (blk, w2) \<Rightarrow>
        let v2 = v1\<lparr>l5_buffer := fresh_block vram_size blk\<rparr> in
        case sys_privctl_add_mem K vram_base (vram_base + of_nat vram_size) w2 of (rp, w3) \<Rightarrow>
        if rp \<noteq> OK then Inl Panic
        else case vm_map_phys K vram_base vram_size w3 of (mem, w4) \<Rightarrow>
        let v3 = v2\<lparr>l5_video_mem := fresh_block vram_size mem\<rparr> in
        case sys_int86 K 0x4F02 (push_bit 14 1 OR mode) 0x10 w4 of (ri, w5) \<Rightarrow>
        if ri \<noteq> OK then Inr (False, v3, w5)
        else if mem = None then Inl Panic
        else Inr (True, v3, w5))"

definition lab5_vg_draw_pixel :: "u16 \<Rightarrow> u16 \<Rightarrow> u32 \<Rightarrow> lab5_video \<Rightarrow> (int \<times> lab5_video) result" where
  "lab5_vg_draw_pixel x y color v =
     (if x > XResolution (vmi_p v) \<or> y > YResolution (vmi_p v) then Inr (1, v)
      else
        let xr = uint (XResolution (vmi_p v));
            (off, n) = (if BitsPerPixel (vmi_p v) = 15 then (xr * uint y * 2 + uint x * 2, 2)
                        else (let n = uint (BitsPerPixel (vmi_p v)) div 8 in (xr * uint y * n + uint x * n, n)))
        in andthen (read_bytes (le_bytes color) 0 (nat n)) (\<lambda>src.
           andthen (memcpy_to (l5_buffer v) off src) (\<lambda>b. Inr (0, v\<lparr>l5_buffer := b\<rparr>))))"

definition vg_draw_hline :: "u16 \<Rightarrow> u16 \<Rightarrow> u16 \<Rightarrow> u32 \<Rightarrow> lab5_video \<Rightarrow> (int \<times> lab5_video) result" where
  "vg_draw_hline x y len color v =
     for_ok [0..uint len - 1] (\<lambda>i. lab5_vg_draw_pixel (word_of_int (uint x + i)) y color) v"

definition vg_draw_rectangle :: "u16 \<Rightarrow> u16 \<Rightarrow> u16 \<Rightarrow> u16 \<Rightarrow> u32 \<Rightarrow> lab5_video \<Rightarrow> (int \<times> lab5_video) result" where
  "vg_draw_rectangle x y wd ht color v =
     for_ok [0..uint ht - 1] (\<lambda>i. vg_draw_hline x (word_of_int (uint y + i)) wd color) v"

definition double_buffer :: "lab5_video \<Rightarrow> lab5_video result" where
  "double_buffer v =
     (let n = (if BitsPerPixel (vmi_p v) = 15
               then uint (XResolution (vmi_p v)) * uint (YResolution (vmi_p v)) * 2
               else uint (XResolution (vmi_p v)) * uint (YResolution (vmi_p v)) * (uint (BitsPerPixel (vmi_p v)) div 8))
      in andthen (read_bytes (l5_buffer v) 0 (nat n)) (\<lambda>src.
         andthen (memcpy_to (l5_video_mem v) 0 src) (\<lambda>mem. Inr (v\<lparr>l5_video_mem := mem\<rparr>))))"

text \<open>
  A call of the pixel primitive with its result ignored, and \<open>draw_sprite\<close>: the pointer \<open>sprite\<close>
  advances with every pixel.
\<close>

definition lab5_px :: "int \<Rightarrow> int \<Rightarrow> u32 \<Rightarrow> lab5_video \<Rightarrow> lab5_video result" where
  "lab5_px col line color v = map_sum id snd (lab5_vg_draw_pixel (word_of_int col) (word_of_int line) color v)"

definition sprite_pixel :: "u8 list \<Rightarrow> int \<Rightarrow> int \<Rightarrow> int \<Rightarrow> int \<times> lab5_video \<Rightarrow> (int \<times> lab5_video) result" where
  "sprite_pixel sprite x line j st =
     (case st of (ptr, v) \<Rightarrow>
        andthen (read_bytes sprite ptr 1) (\<lambda>c.
        andthen (lab5_px (x + j) line (ucast (hd c)) v) (\<lambda>v'. Inr (ptr + 1, v'))))"

definition draw_sprite :: "xpm_image \<Rightarrow> u8 list \<Rightarrow> int \<Rightarrow> int \<Rightarrow> lab5_video \<Rightarrow> lab5_video result" where
  "draw_sprite img sprite x y v =
     map_sum id snd
       (for_each [0..uint (height img) - 1] (\<lambda>i.
          for_each [0..uint (width img) - 1] (sprite_pixel sprite x (i + y))) (0, v))"

section \<open>Simulation by the project's frame buffer\<close>

definition as_video :: "lab5_video \<Rightarrow> video" where
  "as_video v = \<lparr>modeinfo = vmi_p v, buffer = l5_buffer v, video_mem = l5_video_mem v,
     imgDeck = \<lparr>width = 0, height = 0\<rparr>, spriteDeck = [],
     imgCardBack = \<lparr>width = 0, height = 0\<rparr>, spriteCardBack = []\<rparr>"

lemma as_video_sel [simp]:
  "modeinfo (as_video v) = vmi_p v" "buffer (as_video v) = l5_buffer v" "video_mem (as_video v) = l5_video_mem v"
  "xres (as_video v) = uint (XResolution (vmi_p v))" "yres (as_video v) = uint (YResolution (vmi_p v))"
  by (simp_all add: as_video_def xres_def yres_def)

lemma as_video_update [simp]:
  "as_video (v\<lparr>l5_buffer := b\<rparr>) = (as_video v)\<lparr>buffer := b\<rparr>"
  "as_video (v\<lparr>l5_video_mem := m\<rparr>) = (as_video v)\<lparr>video_mem := m\<rparr>"
  by (simp_all add: as_video_def)

lemma pixel_bytes_as_video:
  "pixel_bytes (as_video v) = (if BitsPerPixel (vmi_p v) = 15 then 2 else uint (BitsPerPixel (vmi_p v)) div 8)"
  by (simp add: pixel_bytes_def)

lemma map_sum_andthen: "map_sum id f (andthen m g) = andthen m (\<lambda>a. map_sum id f (g a))"
  by (cases m) simp_all

lemma draw_pixel_refines:
  "map_sum id (apsnd as_video) (lab5_vg_draw_pixel x y c v) = my_draw_pixel x y c (as_video v)"
  by (cases "BitsPerPixel (vmi_p v) = 15")
    (simp_all add: lab5_vg_draw_pixel_def my_draw_pixel_def pixel_bytes_as_video map_sum_andthen Let_def)

lemma double_buffer_refines: "map_sum id as_video (double_buffer v) = my_updateVideoMem (as_video v)"
  by (cases "BitsPerPixel (vmi_p v) = 15")
    (simp_all add: double_buffer_def my_updateVideoMem_def pixel_bytes_as_video map_sum_andthen ac_simps)

lemma lab5_px_refines: "map_sum id as_video (lab5_px x y c v) = draw_px x y c (as_video v)"
  by (simp add: lab5_px_def draw_px_def sum.map_comp draw_pixel_refines [symmetric] comp_def)

lemma map_sum_InrD: "map_sum id f r = Inr u \<Longrightarrow> \<exists>v. r = Inr v \<and> f v = u"
  by (cases r) auto

definition lab5_ok :: "lab5_video \<Rightarrow> bool" where
  "lab5_ok v \<longleftrightarrow> vid_ok (as_video v)"

definition lab5_same :: "lab5_video \<Rightarrow> lab5_video \<Rightarrow> bool" where
  "lab5_same v v' \<longleftrightarrow> same_mode (as_video v) (as_video v')"

definition lab5_pixel :: "lab5_video \<Rightarrow> int \<Rightarrow> int \<Rightarrow> u8 list" where
  "lab5_pixel v = pixel (as_video v)"

definition lab5_encode :: "lab5_video \<Rightarrow> u32 \<Rightarrow> u8 list" where
  "lab5_encode v = encode (as_video v)"

definition lab5_on_screen :: "lab5_video \<Rightarrow> int \<Rightarrow> int \<Rightarrow> bool" where
  "lab5_on_screen v = on_screen_px (as_video v)"

lemmas lab5_screen_defs = lab5_ok_def lab5_same_def lab5_pixel_def lab5_encode_def lab5_on_screen_def

interpretation lab5_screen: pixel_sink lab5_px lab5_pixel lab5_encode lab5_on_screen lab5_ok lab5_same
proof unfold_locales
  fix v x y c assume "lab5_ok v" and "lab5_on_screen v x y"
  then obtain u where u: "draw_px x y c (as_video v) = Inr u" "vid_ok u" "same_mode (as_video v) u"
    "\<forall>x' y'. on_screen_px (as_video v) x' y' \<longrightarrow> pixel u x' y' =
      (if x' = x \<and> y' = y then encode (as_video v) c else pixel (as_video v) x' y')"
    using screen.draw_inside [of "as_video v" x y c] by (auto simp: lab5_screen_defs)
  then obtain v' where "lab5_px x y c v = Inr v'" "as_video v' = u"
    using map_sum_InrD [of as_video "lab5_px x y c v" u] by (auto simp: lab5_px_refines)
  with u show "\<exists>v'. lab5_px x y c v = Inr v' \<and> lab5_ok v' \<and> lab5_same v v' \<and>
      (\<forall>x' y'. lab5_on_screen v x' y' \<longrightarrow>
        lab5_pixel v' x' y' = (if x' = x \<and> y' = y then lab5_encode v c else lab5_pixel v x' y'))"
    by (intro exI [of _ v']) (simp add: lab5_screen_defs)
qed (use screen.sim_refl screen.sim_trans screen.sim_inside screen.sim_enc in
    \<open>auto simp: lab5_screen_defs fun_eq_iff\<close>)

section \<open>Rectangles\<close>

lemma for_ok_rule:
  assumes "I [] s"
    and "\<And>pre x post t. xs = pre @ x # post \<Longrightarrow> I pre t \<Longrightarrow> \<exists>t'. body x t = Inr (0, t') \<and> I (pre @ [x]) t'"
  shows "\<exists>t. for_ok xs body s = Inr (0, t) \<and> I xs t"
proof -
  have "\<exists>t. for_ok post body s = Inr (0, t) \<and> I (pre @ post) t"
    if "xs = pre @ post" and "I pre s" for pre post s
    using that
  proof (induction post arbitrary: pre s)
    case (Cons x post)
    from assms(2) [OF Cons.prems] obtain t' where "body x s = Inr (0, t')" "I (pre @ [x]) t'" by blast
    with Cons.IH [of "pre @ [x]" t'] Cons.prems(1) show ?case by simp
  qed simp
  from this [of "[]" xs s] assms(1) show ?thesis by simp
qed

text \<open>A pixel on the screen is drawn with code 0.\<close>

lemma lab5_pixel_code:
  assumes "lab5_px x y c v = Inr v'" and "lab5_on_screen v x y"
  shows "lab5_vg_draw_pixel (word_of_int x) (word_of_int y) c v = Inr (0, v')"
proof -
  have "uint (word_of_int x :: u16) = x" "uint (word_of_int y :: u16) = y"
    using assms(2) uint_u16_bound [of "XResolution (vmi_p v)"] uint_u16_bound [of "YResolution (vmi_p v)"]
    by (simp_all add: lab5_on_screen_def on_screen_px_def uint_word_of_int)
  then have "\<not> word_of_int x > XResolution (vmi_p v)" "\<not> word_of_int y > YResolution (vmi_p v)"
    using assms(2) by (simp_all add: lab5_on_screen_def on_screen_px_def word_less_def)
  with assms(1) show ?thesis
    by (auto simp: lab5_px_def lab5_vg_draw_pixel_def Let_def andthen_def split: sum.splits if_splits)
qed

definition rect :: "int \<Rightarrow> int \<Rightarrow> int \<Rightarrow> int \<Rightarrow> (int \<times> int) set" where
  "rect x y wd ht = {x..<x + wd} \<times> {y..<y + ht}"

lemma lab5_sameD: "lab5_same v v' \<Longrightarrow> lab5_on_screen v' = lab5_on_screen v"
  by (simp add: lab5_screen.sim_inside)

lemma hline_paints:
  assumes p: "lab5_screen.painted v S f u" and "\<And>i. 0 \<le> i \<Longrightarrow> i < uint len \<Longrightarrow> lab5_on_screen v (uint x + i) y"
    and f: "\<And>i. 0 \<le> i \<Longrightarrow> i < uint len \<Longrightarrow> f (uint x + i) y = lab5_encode v c"
  shows "\<exists>u'. vg_draw_hline x (word_of_int y) len c u = Inr (0, u') \<and>
    lab5_screen.painted v (S \<union> {(uint x + i, y) | i. 0 \<le> i \<and> i < uint len}) f u'"
proof -
  let ?I = "\<lambda>pre. lab5_screen.painted v (S \<union> {(uint x + i, y) | i. i \<in> set pre}) f"
  have "\<exists>t. for_ok [0..uint len - 1] (\<lambda>i. lab5_vg_draw_pixel (word_of_int (uint x + i)) (word_of_int y) c) u =
      Inr (0, t) \<and> ?I [0..uint len - 1] t"
  proof (rule for_ok_rule)
    show "?I [] u" using p by simp
    fix pre i post t assume e: "[0..uint len - 1] = pre @ i # post" and t: "?I pre t"
    have "i \<in> set [0..uint len - 1]" by (simp only: e) simp
    then have i: "0 \<le> i" "i < uint len" by auto
    from lab5_screen.paint_one [OF t assms(2) [OF i], of c] f [OF i] obtain t'
      where t': "lab5_px (uint x + i) y c t = Inr t'"
        "lab5_screen.painted v (insert (uint x + i, y) (S \<union> {(uint x + i, y) | i. i \<in> set pre})) f t'" by auto
    have "lab5_on_screen t (uint x + i) y"
      using assms(2) [OF i] t lab5_sameD [of v t] by (simp add: lab5_screen.painted_def)
    moreover have "insert (uint x + i, y) (S \<union> {(uint x + i, y) | i. i \<in> set pre}) =
        S \<union> {(uint x + k, y) | k. k \<in> set (pre @ [i])}" by auto
    ultimately show "\<exists>t'. lab5_vg_draw_pixel (word_of_int (uint x + i)) (word_of_int y) c t = Inr (0, t') \<and> ?I (pre @ [i]) t'"
      using t' lab5_pixel_code [OF t'(1)] by auto
  qed
  moreover have "{(uint x + i, y) | i. i \<in> set [0..uint len - 1]} = {(uint x + i, y) | i. 0 \<le> i \<and> i < uint len}" by auto
  ultimately show ?thesis by (simp add: vg_draw_hline_def)
qed

lemma rectangle_paints:
  assumes "lab5_ok v" and "uint x + uint wd \<le> uint (XResolution (vmi_p v))"
    and "uint y + uint ht \<le> uint (YResolution (vmi_p v))"
  shows "\<exists>v'. vg_draw_rectangle x y wd ht c v = Inr (0, v') \<and>
    lab5_screen.painted v (rect (uint x) (uint y) (uint wd) (uint ht)) (\<lambda>_ _. lab5_encode v c) v'"
proof -
  let ?I = "\<lambda>pre. lab5_screen.painted v ({uint x..<uint x + uint wd} \<times> {uint y + i | i. i \<in> set pre}) (\<lambda>_ _. lab5_encode v c)"
  have "\<exists>t. for_ok [0..uint ht - 1] (\<lambda>i. vg_draw_hline x (word_of_int (uint y + i)) wd c) v =
      Inr (0, t) \<and> ?I [0..uint ht - 1] t"
  proof (rule for_ok_rule)
    show "?I [] v" using lab5_screen.painted_none [OF assms(1)] by simp
    fix pre i post t assume e: "[0..uint ht - 1] = pre @ i # post" and t: "?I pre t"
    have "i \<in> set [0..uint ht - 1]" by (simp only: e) simp
    then have i: "0 \<le> i" "i < uint ht" by auto
    have "\<exists>t'. vg_draw_hline x (word_of_int (uint y + i)) wd c t = Inr (0, t') \<and>
      lab5_screen.painted v ({uint x..<uint x + uint wd} \<times> {uint y + i | i. i \<in> set pre} \<union>
        {(uint x + k, uint y + i) | k. 0 \<le> k \<and> k < uint wd}) (\<lambda>_ _. lab5_encode v c) t'"
      using i assms(2,3) by (intro hline_paints [OF t]) (auto simp: lab5_on_screen_def on_screen_px_def)
    moreover have "{(uint x + k, uint y + i) | k. 0 \<le> k \<and> k < uint wd} = {uint x..<uint x + uint wd} \<times> {uint y + i}"
      by (auto intro: exI [of _ "_ - uint x"])
    moreover have "{uint x..<uint x + uint wd} \<times> {uint y + i | i. i \<in> set pre} \<union> {uint x..<uint x + uint wd} \<times> {uint y + i} =
        {uint x..<uint x + uint wd} \<times> {uint y + k | k. k \<in> set (pre @ [i])}" by auto
    ultimately show "\<exists>t'. vg_draw_hline x (word_of_int (uint y + i)) wd c t = Inr (0, t') \<and> ?I (pre @ [i]) t'"
      by simp
  qed
  moreover have "{uint x..<uint x + uint wd} \<times> {uint y + i | i. i \<in> set [0..uint ht - 1]} =
      rect (uint x) (uint y) (uint wd) (uint ht)"
    by (auto simp: rect_def intro: exI [of _ "_ - uint y"])
  ultimately show ?thesis by (simp add: vg_draw_rectangle_def)
qed

section \<open>Sprites\<close>

text \<open>The pixel of a sprite that lands on \<open>(px, py)\<close> when it is drawn at \<open>(x, y)\<close>.\<close>

definition sprite_at :: "xpm_image \<Rightarrow> u8 list \<Rightarrow> int \<Rightarrow> int \<Rightarrow> int \<Rightarrow> int \<Rightarrow> u8" where
  "sprite_at img sprite x y px py = sprite ! nat ((py - y) * uint (width img) + (px - x))"

definition fits :: "lab5_video \<Rightarrow> xpm_image \<Rightarrow> u8 list \<Rightarrow> int \<Rightarrow> int \<Rightarrow> bool" where
  "fits v img sprite x y \<longleftrightarrow> 0 \<le> x \<and> 0 \<le> y \<and>
     x + uint (width img) \<le> uint (XResolution (vmi_p v)) \<and> y + uint (height img) \<le> uint (YResolution (vmi_p v)) \<and>
     uint (width img) * uint (height img) \<le> int (length sprite)"

lemma sprite_index:
  assumes "0 \<le> r" "r < uint (height img)" "0 \<le> k" "k < uint (width img)" and "fits v img sprite x y"
  shows "0 \<le> r * uint (width img) + k" and "r * uint (width img) + k < int (length sprite)"
proof -
  have "r * uint (width img) + k < (r + 1) * uint (width img)" using assms(4) by (simp add: algebra_simps)
  also have "\<dots> \<le> uint (height img) * uint (width img)" using assms(2) by (intro mult_right_mono) auto
  finally show "r * uint (width img) + k < int (length sprite)" using assms(5) by (simp add: fits_def mult.commute)
qed (use assms in simp)

lemma read_one: "0 \<le> p \<Longrightarrow> p < int (length s) \<Longrightarrow> \<exists>c. read_bytes s p 1 = Inr c \<and> hd c = s ! nat p"
  by (auto simp: read_bytes_def hd_drop_conv_nth)

lemma sprite_row_paints:
  assumes p: "lab5_screen.painted v S f u" and r: "0 \<le> r" "r < uint (height img)" and fit: "fits v img sprite x y"
    and f: "f = (\<lambda>px py. lab5_encode v (ucast (sprite_at img sprite x y px py)))"
  shows "\<exists>u'. for_each [0..uint (width img) - 1] (sprite_pixel sprite x (r + y)) (r * uint (width img), u) =
      Inr ((r + 1) * uint (width img), u') \<and>
    lab5_screen.painted v (S \<union> {x..<x + uint (width img)} \<times> {r + y}) f u'"
proof -
  let ?w = "uint (width img)"
  let ?I = "\<lambda>pre (q, t). q = r * ?w + int (length pre) \<and>
    lab5_screen.painted v (S \<union> {(x + j, r + y) | j. j \<in> set pre}) f t"
  have "\<exists>st. for_each [0..?w - 1] (sprite_pixel sprite x (r + y)) (r * ?w, u) = Inr st \<and> ?I [0..?w - 1] st"
  proof (rule for_each_rule)
    show "?I [] (r * ?w, u)" using p by simp
    fix pre j post st assume e: "[0..?w - 1] = pre @ j # post" and "?I pre st"
    then obtain t where st: "st = (r * ?w + j, t)" and t: "lab5_screen.painted v (S \<union> {(x + j, r + y) | j. j \<in> set pre}) f t"
      using upto_split_nth [OF e] by (cases st) auto
    have "j \<in> set [0..?w - 1]" by (simp only: e) simp
    then have j: "0 \<le> j" "j < ?w" by auto
    obtain c where c: "read_bytes sprite (r * ?w + j) 1 = Inr c" "hd c = sprite ! nat (r * ?w + j)"
      using read_one sprite_index [OF r j fit] by blast
    have "lab5_on_screen v (x + j) (r + y)" using fit r j by (simp add: fits_def lab5_on_screen_def on_screen_px_def)
    moreover have "lab5_encode v (ucast (hd c)) = f (x + j) (r + y)" by (simp add: f sprite_at_def c)
    ultimately obtain t' where t': "lab5_px (x + j) (r + y) (ucast (hd c)) t = Inr t'"
        "lab5_screen.painted v (insert (x + j, r + y) (S \<union> {(x + j, r + y) | j. j \<in> set pre})) f t'"
      using lab5_screen.paint_one [OF t] by blast
    have "sprite_pixel sprite x (r + y) j st = Inr (r * ?w + j + 1, t')"
      by (simp add: sprite_pixel_def st c(1) t'(1) del: One_nat_def)
    moreover have "insert (x + j, r + y) (S \<union> {(x + j, r + y) | j. j \<in> set pre}) = S \<union> {(x + k, r + y) | k. k \<in> set (pre @ [j])}"
      by auto
    ultimately show "\<exists>s'. sprite_pixel sprite x (r + y) j st = Inr s' \<and> ?I (pre @ [j]) s'"
      using t'(2) upto_split_nth [OF e] by simp
  qed
  moreover have "{(x + j, r + y) | j. j \<in> set [0..?w - 1]} = {x..<x + ?w} \<times> {r + y}"
    by (auto intro: exI [of _ "_ - x"])
  ultimately show ?thesis by (auto simp: algebra_simps)
qed

lemma draw_sprite_paints:
  assumes "lab5_ok v" and fit: "fits v img sprite x y"
  shows "\<exists>v'. draw_sprite img sprite x y v = Inr v' \<and>
    lab5_screen.painted v (rect x y (uint (width img)) (uint (height img)))
      (\<lambda>px py. lab5_encode v (ucast (sprite_at img sprite x y px py))) v'"
proof -
  let ?w = "uint (width img)" and ?h = "uint (height img)"
  let ?f = "\<lambda>px py. lab5_encode v (ucast (sprite_at img sprite x y px py))"
  let ?I = "\<lambda>pre (q, t). q = int (length pre) * ?w \<and>
    lab5_screen.painted v ({x..<x + ?w} \<times> {r + y | r. r \<in> set pre}) ?f t"
  have "\<exists>st. for_each [0..?h - 1] (\<lambda>i. for_each [0..?w - 1] (sprite_pixel sprite x (i + y))) (0, v) = Inr st \<and> ?I [0..?h - 1] st"
  proof (rule for_each_rule)
    show "?I [] (0, v)" using lab5_screen.painted_none [OF assms(1)] by simp
    fix pre r post st assume e: "[0..?h - 1] = pre @ r # post" and "?I pre st"
    then obtain t where st: "st = (r * ?w, t)" and t: "lab5_screen.painted v ({x..<x + ?w} \<times> {r + y | r. r \<in> set pre}) ?f t"
      using upto_split_nth [OF e] by (cases st) auto
    have "r \<in> set [0..?h - 1]" by (simp only: e) simp
    then have r: "0 \<le> r" "r < ?h" by auto
    have "{x..<x + ?w} \<times> {r + y | r. r \<in> set pre} \<union> {x..<x + ?w} \<times> {r + y} = {x..<x + ?w} \<times> {k + y | k. k \<in> set (pre @ [r])}"
      by auto
    with sprite_row_paints [OF t r fit refl]
    show "\<exists>s'. for_each [0..?w - 1] (sprite_pixel sprite x (r + y)) st = Inr s' \<and> ?I (pre @ [r]) s'"
      using upto_split_nth [OF e] by (auto simp: st algebra_simps)
  qed
  moreover have "{x..<x + ?w} \<times> {r + y | r. r \<in> set [0..?h - 1]} = rect x y ?w ?h"
    by (auto simp: rect_def intro: exI [of _ "_ - y"])
  ultimately show ?thesis by (auto simp: draw_sprite_def)
qed

section \<open>The video memory\<close>

lemma double_buffer_copies:
  assumes "lab5_ok v"
  shows "double_buffer v = Inr (v\<lparr>l5_video_mem := l5_buffer v\<rparr>)"
proof -
  have "map_sum id as_video (double_buffer v) = Inr (as_video (v\<lparr>l5_video_mem := l5_buffer v\<rparr>))"
    using update_copies assms by (simp add: double_buffer_refines lab5_ok_def)
  moreover have "as_video u = as_video u' \<Longrightarrow> u = u'" for u u' :: lab5_video
    by (simp add: as_video_def)
  ultimately show ?thesis by (auto dest!: map_sum_InrD)
qed

lemma painted_same:
  assumes "lab5_screen.painted v S f v'"
  shows "lab5_ok v'" "vmi_p v' = vmi_p v" "lab5_encode v' = lab5_encode v" "l5_video_mem v' = l5_video_mem v"
    "lab5_on_screen v' = lab5_on_screen v"
proof -
  have s: "lab5_ok v'" "same_mode (as_video v) (as_video v')"
    using assms by (auto simp: lab5_screen.painted_def lab5_same_def)
  then show "lab5_ok v'" "vmi_p v' = vmi_p v" "lab5_encode v' = lab5_encode v" "l5_video_mem v' = l5_video_mem v"
    "lab5_on_screen v' = lab5_on_screen v"
    using same_mode_simps [OF s(2)] by (simp_all add: lab5_encode_def lab5_on_screen_def)
qed

lemma mem_only:
  "lab5_pixel (v\<lparr>l5_video_mem := m\<rparr>) = lab5_pixel v" "lab5_encode (v\<lparr>l5_video_mem := m\<rparr>) = lab5_encode v"
  "length m = length (l5_video_mem v) \<Longrightarrow> lab5_ok (v\<lparr>l5_video_mem := m\<rparr>) = lab5_ok v"
  by (simp_all add: lab5_screen_defs fun_eq_iff pixel_def encode_def vid_ok_def pixel_bytes_def xres_def yres_def)

text \<open>C36: A rectangle inside the screen is drawn by \<open>vg_draw_rectangle\<close> with code 0: its pixels get the
  colour, every other pixel stays, and \<open>double_buffer\<close> then makes the video memory equal to the
  buffer.\<close>

lemma lab5_rectangle_paints:
  assumes "lab5_ok v" and "uint x + uint wd \<le> uint (XResolution (vmi_p v))"
    and "uint y + uint ht \<le> uint (YResolution (vmi_p v))"
  shows "\<exists>v1. vg_draw_rectangle x y wd ht c v = Inr (0, v1) \<and>
    (\<forall>px py. lab5_on_screen v px py \<longrightarrow> lab5_pixel v1 px py =
       (if (px, py) \<in> rect (uint x) (uint y) (uint wd) (uint ht) then lab5_encode v c else lab5_pixel v px py)) \<and>
    double_buffer v1 = Inr (v1\<lparr>l5_video_mem := l5_buffer v1\<rparr>)"
proof -
  obtain v1 where v1: "vg_draw_rectangle x y wd ht c v = Inr (0, v1)"
    "lab5_screen.painted v (rect (uint x) (uint y) (uint wd) (uint ht)) (\<lambda>_ _. lab5_encode v c) v1"
    using rectangle_paints [OF assms] by blast
  with double_buffer_copies [OF painted_same(1) [OF v1(2)]] show ?thesis
    by (auto simp: lab5_screen.painted_def)
qed

text \<open>A screen of 6 by 5 pixels of one byte.\<close>

definition small_screen :: lab5_video where
  "small_screen = \<lparr>vmi_p = \<lparr>XResolution = 6, YResolution = 5, BitsPerPixel = 8, RedMaskSize = 0,
     RedFieldPosition = 0, GreenMaskSize = 0, GreenFieldPosition = 0, BlueMaskSize = 0,
     BlueFieldPosition = 0, PhysBasePtr = 0\<rparr>, l5_buffer = replicate 30 0, l5_video_mem = replicate 30 0\<rparr>"

lemma small_screen_ok: "lab5_ok small_screen"
  by (simp add: lab5_ok_def vid_ok_def pixel_bytes_as_video) (simp add: small_screen_def)

theorem lab5_rectangle_paints_witness:
  "\<exists>v1. vg_draw_rectangle 1 2 3 2 7 small_screen = Inr (0, v1) \<and>
    lab5_pixel v1 2 3 = lab5_encode small_screen 7 \<and> lab5_pixel v1 0 0 = lab5_pixel small_screen 0 0"
proof -
  have "lab5_on_screen small_screen 2 3" "lab5_on_screen small_screen 0 0"
    by (simp_all add: lab5_on_screen_def on_screen_px_def small_screen_def)
  then show ?thesis
    using lab5_rectangle_paints [OF small_screen_ok, of 1 3 2 2 7]
    by (auto simp: small_screen_def rect_def)
qed

end
