(* ===== verification/Lab5.thy ===== *)
theory Lab5
  imports Lab5_Drivers Lab5_Video
begin

text \<open>
  \<open>lab5/lab5.c\<close>: the tests of the graphics card, over the drivers of \<open>lab5\<close>.  Every test but the
  first ends with the same loop, which waits for the break code of the escape key.
\<close>

unbundle bit_operations_syntax

record lab5 =
  l5_kbd :: lab5_kbd
  l5_timer :: lab5_timer
  l5_video :: lab5_video

text \<open>\<open>BIT(IRQ1)\<close> and \<open>BIT(IRQ0)\<close>.\<close>

definition lab5_irq_kbd :: u32 where "lab5_irq_kbd = push_bit (nat IRQ1) 1"
definition lab5_irq_timer :: u32 where "lab5_irq_timer = push_bit (nat IRQ0) 1"

definition video_test_init :: "'w kernel \<Rightarrow> u16 \<Rightarrow> u8 \<Rightarrow> lab5 \<Rightarrow> 'w \<Rightarrow> (int \<times> lab5 \<times> 'w) result" where
  "video_test_init K mode delay s w =
     andthen (lab5_vg_init K mode (l5_video s) w) (\<lambda>(ok, v, w1).
     if \<not> ok then Inr (1, s\<lparr>l5_video := v\<rparr>, w1)
     else let w2 = sleep K (ucast delay) w1 in
     case vg_exit K w2 of (_, w3) \<Rightarrow> Inr (0, s\<lparr>l5_video := v\<rparr>, w3))"

text \<open>The loop of the tests that draw once, and what follows it.\<close>

definition escape_irq :: "'w kernel \<Rightarrow> message \<Rightarrow> lab5 \<times> 'w \<Rightarrow> (lab5 \<times> 'w) run" where
  "escape_irq K msg st =
     (case st of (s, w) \<Rightarrow>
      if interrupts msg AND lab5_irq_kbd \<noteq> 0 then
        (case lab5_kbc_ih K (l5_kbd s) w of None \<Rightarrow> None | Some (k, w1) \<Rightarrow> Some (Inr (s\<lparr>l5_kbd := k\<rparr>, w1)))
      else Some (Inr (s, w)))"

definition wait_for_escape :: "'w kernel \<Rightarrow> lab5 \<times> 'w \<Rightarrow> (int \<times> lab5 \<times> 'w) run" where
  "wait_for_escape K st =
     run_then (irq_loop K (\<lambda>s. l5_scancode (l5_kbd s) \<noteq> ESCAPE) (escape_irq K) st) (\<lambda>(s, w).
     case lab5_kbc_unsubscribe K (l5_kbd s) w of ((_, k), w1) \<Rightarrow>
     case vg_exit K w1 of (_, w2) \<Rightarrow> Some (Inr (0, s\<lparr>l5_kbd := k\<rparr>, w2)))"

definition video_test_rectangle ::
  "'w kernel \<Rightarrow> u16 \<Rightarrow> u16 \<Rightarrow> u16 \<Rightarrow> u16 \<Rightarrow> u16 \<Rightarrow> u32 \<Rightarrow> lab5 \<Rightarrow> 'w \<Rightarrow> (int \<times> lab5 \<times> 'w) run" where
  "video_test_rectangle K mode x y wd ht color s w =
     (case lab5_kbc_subscribe K (l5_kbd s) w of ((r, k), w1) \<Rightarrow>
      let s1 = s\<lparr>l5_kbd := k\<rparr> in
      if r \<noteq> 0 then Some (Inr (1, s1, w1)) else
      run_then (Some (lab5_vg_init K mode (l5_video s1) w1)) (\<lambda>(ok, v, w2).
      if \<not> ok then Some (Inr (1, s1\<lparr>l5_video := v\<rparr>, w2)) else
      run_then (Some (vg_draw_rectangle x y wd ht color v)) (\<lambda>(rd, v2).
      if rd \<noteq> 0 then Some (Inr (1, s1\<lparr>l5_video := v2\<rparr>, w2)) else
      run_then (Some (double_buffer v2)) (\<lambda>v3.
      wait_for_escape K (s1\<lparr>l5_video := v3\<rparr>, w2)))))"

text \<open>
  \<open>video_test_pattern\<close>.  The components of the first colour are assigned in four modes only and
  not used in mode \<open>0x105\<close>; \<open>None\<close> stands for the unassigned variables.
\<close>

definition color_fields :: "u32 \<Rightarrow> u32 \<Rightarrow> u32 \<Rightarrow> vbe_mode_info \<Rightarrow> u32 \<Rightarrow> u16 \<times> u16 \<times> u16" where
  "color_fields red green blue vmi first =
     (ucast (drop_bit (unat (RedFieldPosition vmi)) (first AND red)),
      ucast (drop_bit (unat (GreenFieldPosition vmi)) (first AND green)),
      ucast (drop_bit (unat (BlueFieldPosition vmi)) (first AND blue)))"

definition first_color :: "u16 \<Rightarrow> vbe_mode_info \<Rightarrow> u32 \<Rightarrow> (u16 \<times> u16 \<times> u16) option" where
  "first_color mode vmi first =
     (if mode = 0x105 then None
      else if mode = 0x110 then Some (color_fields 0x7C00 0x03E0 0x1F vmi first)
      else if mode = 0x115 then Some (color_fields 0xFF0000 0xFF00 0xFF vmi first)
      else if mode = 0x11A then Some (color_fields 0xF800 0x07E0 0x1F vmi first)
      else if mode = 0x14C then Some (color_fields 0xFF0000 0xFF00 0xFF vmi first)
      else None)"

definition pattern_color ::
  "u16 \<Rightarrow> vbe_mode_info \<Rightarrow> u8 \<Rightarrow> u32 \<Rightarrow> u8 \<Rightarrow> int \<Rightarrow> int \<Rightarrow> u32 result" where
  "pattern_color mode vmi no_rectangles first step i j =
     (if mode = 0x105 then
        let m = push_bit (unat (BitsPerPixel vmi)) 1 in
        if m = 0 then Inl Division_By_Zero
        else Inr ((first + word_of_int ((i * uint no_rectangles + j) * uint step)) mod m)
      else case first_color mode vmi first of
        None \<Rightarrow> Inl Uninitialised
      | Some (R_first, G_first, B_first) \<Rightarrow>
          let R = (uint R_first + j * uint step) mod 2 ^ unat (RedMaskSize vmi);
              G = (uint G_first + i * uint step) mod 2 ^ unat (GreenMaskSize vmi);
              B = (uint B_first + (j + i) * uint step) mod 2 ^ unat (BlueMaskSize vmi)
          in Inr (word_of_int (push_bit (unat (RedFieldPosition vmi)) R
               OR push_bit (unat (GreenFieldPosition vmi)) G OR push_bit (unat (BlueFieldPosition vmi)) B)))"

text \<open>The row loop is left when a row starts below the screen.\<close>

primrec pattern_rows ::
  "int list \<Rightarrow> (int \<Rightarrow> int \<Rightarrow> u32 result) \<Rightarrow> int \<Rightarrow> int \<Rightarrow> int \<Rightarrow> lab5_video \<Rightarrow> lab5_video result" where
  "pattern_rows [] color n xr yr v = Inr v"
| "pattern_rows (i # is) color n xr yr v =
     andthen (for_each [0..n - 1] (\<lambda>j v.
         andthen (color i j) (\<lambda>c.
         map_sum id snd (vg_draw_rectangle (word_of_int (j * xr)) (word_of_int (i * yr)) (word_of_int xr) (word_of_int yr) c v))) v)
       (\<lambda>v1. if i * yr > uint (YResolution (vmi_p v1)) then Inr v1 else pattern_rows is color n xr yr v1)"

definition draw_pattern :: "u16 \<Rightarrow> u8 \<Rightarrow> u32 \<Rightarrow> u8 \<Rightarrow> lab5_video \<Rightarrow> lab5_video result" where
  "draw_pattern mode no_rectangles first step v =
     (if no_rectangles = 0 then Inl Division_By_Zero
      else
        let n = uint no_rectangles;
            x_rectangle = uint (XResolution (vmi_p v)) div n;
            y_rectangle = uint (YResolution (vmi_p v)) div n
        in pattern_rows [0..n - 1] (pattern_color mode (vmi_p v) no_rectangles first step) n x_rectangle y_rectangle v)"

definition video_test_pattern ::
  "'w kernel \<Rightarrow> u16 \<Rightarrow> u8 \<Rightarrow> u32 \<Rightarrow> u8 \<Rightarrow> lab5 \<Rightarrow> 'w \<Rightarrow> (int \<times> lab5 \<times> 'w) run" where
  "video_test_pattern K mode no_rectangles first step s w =
     run_then (Some (lab5_vg_init K mode (l5_video s) w)) (\<lambda>(_, v, w1).
     case lab5_kbc_subscribe K (l5_kbd s) w1 of ((r, k), w2) \<Rightarrow>
     let s2 = s\<lparr>l5_kbd := k, l5_video := v\<rparr> in
     if r \<noteq> 0 then Some (Inr (1, s2, w2)) else
     run_then (Some (draw_pattern mode no_rectangles first step v)) (\<lambda>v2.
     run_then (Some (double_buffer v2)) (\<lambda>v3.
     wait_for_escape K (s2\<lparr>l5_video := v3\<rparr>, w2))))"

definition video_test_xpm ::
  "'w kernel \<Rightarrow> xpm_map \<Rightarrow> u16 \<Rightarrow> u16 \<Rightarrow> lab5 \<Rightarrow> 'w \<Rightarrow> (int \<times> lab5 \<times> 'w) run" where
  "video_test_xpm K xpm x y s w =
     run_then (Some (lab5_vg_init K 0x105 (l5_video s) w)) (\<lambda>(_, v, w1).
     case lab5_kbc_subscribe K (l5_kbd s) w1 of ((r, k), w2) \<Rightarrow>
     let s2 = s\<lparr>l5_kbd := k, l5_video := v\<rparr> in
     if r \<noteq> 0 then Some (Inr (1, s2, w2)) else
     case xpm_load K xpm XPM_INDEXED w2 of ((sprite, img), w3) \<Rightarrow>
     run_then (Some (draw_sprite img sprite (uint x) (uint y) v)) (\<lambda>v2.
     run_then (Some (double_buffer v2)) (\<lambda>v3.
     wait_for_escape K (s2\<lparr>l5_video := v3\<rparr>, w3))))"

section \<open>The moving sprite\<close>

text \<open>
  The locals of \<open>video_test_move\<close> that change, and one axis moved by \<open>by\<close> pixels, back to the final
  coordinate when it has been passed.
\<close>

record mover =
  xi :: u16
  yi :: u16
  done_moving :: bool

definition move_axis :: "int \<Rightarrow> u16 \<Rightarrow> u16 \<Rightarrow> u16" where
  "move_axis by p pf = (let p = word_of_int (uint p + by) in if p > pf then pf else p)"

text \<open>The body of each of the four branches: erase, move, draw, and stop at the end.\<close>

definition redraw ::
  "xpm_image \<Rightarrow> u8 list \<Rightarrow> mover \<Rightarrow> bool \<Rightarrow> mover \<times> lab5_video \<Rightarrow> (mover \<times> lab5_video) result" where
  "redraw img sprite m1 arrived st =
     (case st of (m, v) \<Rightarrow>
      andthen (vg_draw_rectangle (xi m) (yi m) (width img) (height img) 0 v) (\<lambda>(_, v1).
      andthen (draw_sprite img sprite (uint (xi m1)) (uint (yi m1)) v1) (\<lambda>v2.
      Inr (if arrived then m1\<lparr>done_moving := True\<rparr> else m1, v2))))"

definition move_by ::
  "int \<Rightarrow> u16 \<Rightarrow> u16 \<Rightarrow> xpm_image \<Rightarrow> u8 list \<Rightarrow> mover \<times> lab5_video \<Rightarrow> (mover \<times> lab5_video) result" where
  "move_by by xf yf img sprite st =
     (let m = fst st in
      if xi m = xf then
        (let m1 = m\<lparr>yi := move_axis by (yi m) yf\<rparr> in redraw img sprite m1 (yi m1 = yf) st)
      else if yi m = yf then
        (let m1 = m\<lparr>xi := move_axis by (xi m) xf\<rparr> in redraw img sprite m1 (xi m1 = xf) st)
      else Inr st)"

text \<open>The timer part; \<open>speed\<close> is an \<open>int16_t\<close>.\<close>

definition move_tick ::
  "u16 \<Rightarrow> u16 \<Rightarrow> u16 \<Rightarrow> xpm_image \<Rightarrow> u8 list \<Rightarrow> int \<Rightarrow> mover \<times> lab5_video \<Rightarrow> (mover \<times> lab5_video) result" where
  "move_tick speed xf yf img sprite counter st =
     (if \<not> done_moving (fst st) then
        andthen (if sint speed < 0 \<and> counter mod (- sint speed) = 0 then move_by 1 xf yf img sprite st
                 else if sint speed > 0 then move_by (sint speed) xf yf img sprite st
                 else Inr st)
          (\<lambda>(m, v). andthen (double_buffer v) (\<lambda>v1. Inr (m, v1)))
      else Inr st)"

definition video_test_move_irq ::
  "'w kernel \<Rightarrow> u16 \<Rightarrow> u16 \<Rightarrow> u16 \<Rightarrow> xpm_image \<Rightarrow> u8 list \<Rightarrow> message \<Rightarrow> (mover \<times> lab5) \<times> 'w
    \<Rightarrow> ((mover \<times> lab5) \<times> 'w) run" where
  "video_test_move_irq K speed xf yf img sprite msg st =
     (case st of ((m, s), w) \<Rightarrow>
      run_then (escape_irq K msg (s, w)) (\<lambda>(s1, w1).
      if interrupts msg AND lab5_irq_timer \<noteq> 0 then
        let t = lab5_timer_int_handler (l5_timer s1) in
        run_then (Some (move_tick speed xf yf img sprite (l5_counter t) (m, l5_video s1))) (\<lambda>(m1, v1).
        Some (Inr ((m1, s1\<lparr>l5_timer := t, l5_video := v1\<rparr>), w1)))
      else Some (Inr ((m, s1), w1))))"

definition video_test_move ::
  "'w kernel \<Rightarrow> xpm_map \<Rightarrow> u16 \<Rightarrow> u16 \<Rightarrow> u16 \<Rightarrow> u16 \<Rightarrow> u16 \<Rightarrow> u8 \<Rightarrow> lab5 \<Rightarrow> 'w \<Rightarrow> (int \<times> lab5 \<times> 'w) run" where
  "video_test_move K xpm x0 y0 xf yf speed fr_rate s w =
     (case lab5_timer_set_frequency K 0 (ucast fr_rate) w of (_, w1) \<Rightarrow>
      run_then (Some (lab5_vg_init K 0x105 (l5_video s) w1)) (\<lambda>(_, v, w2).
      case lab5_timer_subscribe_int K (word_of_int IRQ0) (l5_timer s) w2 of ((r, _, t), w3) \<Rightarrow>
      let s3 = s\<lparr>l5_timer := t, l5_video := v\<rparr> in
      if r \<noteq> 0 then Some (Inr (1, s3, w3)) else
      case lab5_kbc_subscribe K (l5_kbd s3) w3 of ((r4, k), w4) \<Rightarrow>
      let s4 = s3\<lparr>l5_kbd := k\<rparr> in
      if r4 \<noteq> 0 then Some (Inr (1, s4, w4)) else
      case xpm_load K xpm XPM_INDEXED w4 of ((sprite, img), w5) \<Rightarrow>
      run_then (Some (draw_sprite img sprite (uint x0) (uint y0) v)) (\<lambda>v5.
      run_then (Some (double_buffer v5)) (\<lambda>v6.
      run_then (irq_loop K (\<lambda>(_, s). l5_scancode (l5_kbd s) \<noteq> ESCAPE)
          (video_test_move_irq K speed xf yf img sprite)
          ((\<lparr>xi = x0, yi = y0, done_moving = False\<rparr>, s4\<lparr>l5_video := v6\<rparr>), w5)) (\<lambda>((_, s7), w7).
      case lab5_timer_unsubscribe_int K (l5_timer s7) w7 of ((_, t8), w8) \<Rightarrow>
      case lab5_kbc_unsubscribe K (l5_kbd s7) w8 of ((_, k9), w9) \<Rightarrow>
      case vg_exit K w9 of (_, w10) \<Rightarrow>
      Some (Inr (0, s7\<lparr>l5_timer := t8, l5_kbd := k9\<rparr>, w10)))))))"

section \<open>Reference definitions\<close>

text \<open>
  The pixels a sprite has moved after \<open>n\<close> ticks from the tick count \<open>c\<close>; the sprite shown at a place,
  in the buffer and in the video memory; and \<open>n\<close> ticks in a row.
\<close>

definition travelled :: "u16 \<Rightarrow> int \<Rightarrow> nat \<Rightarrow> int" where
  "travelled speed c n =
     (if sint speed > 0 then int n * sint speed else (c + int n) div (- sint speed) - c div (- sint speed))"

definition shown :: "lab5_video \<Rightarrow> xpm_image \<Rightarrow> u8 list \<Rightarrow> int \<Rightarrow> int \<Rightarrow> bool" where
  "shown v img sprite x y \<longleftrightarrow> l5_video_mem v = l5_buffer v \<and>
     (\<forall>px py. (px, py) \<in> rect x y (uint (width img)) (uint (height img)) \<longrightarrow>
        lab5_pixel v px py = lab5_encode v (ucast (sprite_at img sprite x y px py)))"

primrec move_ticks ::
  "u16 \<Rightarrow> u16 \<Rightarrow> u16 \<Rightarrow> xpm_image \<Rightarrow> u8 list \<Rightarrow> int \<Rightarrow> nat \<Rightarrow> mover \<times> lab5_video \<Rightarrow> (mover \<times> lab5_video) result" where
  "move_ticks speed xf yf img sprite c 0 st = Inr st"
| "move_ticks speed xf yf img sprite c (Suc n) st =
     andthen (move_ticks speed xf yf img sprite c n st) (move_tick speed xf yf img sprite (c + int n + 1))"

section \<open>Lemmas\<close>

lemma move_axis_exact:
  assumes "0 \<le> by" and "uint p + by < 65536"
  shows "uint (move_axis by p pf) = min (uint pf) (uint p + by)"
proof -
  define q where "q = (word_of_int (uint p + by) :: u16)"
  have "uint q = uint p + by"
    unfolding q_def by (subst uint_word_of_int) (use assms in simp)
  moreover have "move_axis by p pf = (if q > pf then pf else q)"
    by (simp only: move_axis_def Let_def q_def)
  ultimately show ?thesis by (simp add: word_less_def min_def)
qed

lemma travelled_0: "travelled speed c 0 = 0"
  by (simp add: travelled_def)

lemma travelled_Suc:
  assumes "sint speed \<noteq> 0"
  shows "travelled speed c (Suc n) = travelled speed c n +
    (if sint speed > 0 then sint speed else if (c + int n + 1) mod (- sint speed) = 0 then 1 else 0)"
  using assms div_step [of "- sint speed" "c + int n"]
  by (simp add: travelled_def algebra_simps)

lemma travelled_nonneg: "sint speed \<noteq> 0 \<Longrightarrow> 0 \<le> travelled speed c n"
  by (induction n) (auto simp: travelled_0 travelled_Suc)

lemma fits_cong: "vmi_p v' = vmi_p v \<Longrightarrow> fits v' = fits v"
  by (simp add: fits_def fun_eq_iff)

lemma redraw_shows:
  assumes "lab5_ok v" and "fits v img sprite (uint (xi m)) (uint (yi m))"
    and "fits v img sprite (uint (xi m1)) (uint (yi m1))"
  shows "\<exists>v2. redraw img sprite m1 arrived (m, v) = Inr (if arrived then m1\<lparr>done_moving := True\<rparr> else m1, v2) \<and>
    lab5_ok v2 \<and> vmi_p v2 = vmi_p v \<and> lab5_encode v2 = lab5_encode v \<and> shown (v2\<lparr>l5_video_mem := l5_buffer v2\<rparr>) img sprite (uint (xi m1)) (uint (yi m1))"
proof -
  obtain v1 where v1: "vg_draw_rectangle (xi m) (yi m) (width img) (height img) 0 v = Inr (0, v1)"
    and p1: "lab5_screen.painted v (rect (uint (xi m)) (uint (yi m)) (uint (width img)) (uint (height img))) (\<lambda>_ _. lab5_encode v 0) v1"
    using rectangle_paints [OF assms(1)] assms(2) unfolding fits_def by blast
  note s1 = painted_same [OF p1]
  obtain v2 where v2: "draw_sprite img sprite (uint (xi m1)) (uint (yi m1)) v1 = Inr v2"
    and p2: "lab5_screen.painted v1 (rect (uint (xi m1)) (uint (yi m1)) (uint (width img)) (uint (height img)))
      (\<lambda>px py. lab5_encode v1 (ucast (sprite_at img sprite (uint (xi m1)) (uint (yi m1)) px py))) v2"
    using draw_sprite_paints [OF s1(1)] assms(3) fits_cong [OF s1(2)] by metis
  note s2 = painted_same [OF p2]
  have "lab5_on_screen v1 px py" if "(px, py) \<in> rect (uint (xi m1)) (uint (yi m1)) (uint (width img)) (uint (height img))" for px py
    using that assms(3) s1(2)
    by (auto simp: rect_def fits_def lab5_on_screen_def on_screen_px_def
        intro: order_trans [of 0 "uint (xi m1)"] order_trans [of 0 "uint (yi m1)"])
  then have "shown (v2\<lparr>l5_video_mem := l5_buffer v2\<rparr>) img sprite (uint (xi m1)) (uint (yi m1))"
    using p2 s2(3) by (simp add: shown_def lab5_screen.painted_def mem_only)
  then show ?thesis using s1 s2 by (simp add: redraw_def v1 v2)
qed

text \<open>The state of the test after some ticks: the position follows the distance travelled.\<close>

definition moving_down :: "u16 \<Rightarrow> u16 \<Rightarrow> u16 \<Rightarrow> xpm_image \<Rightarrow> u8 list \<Rightarrow> vbe_mode_info \<Rightarrow> int \<Rightarrow> mover \<times> lab5_video \<Rightarrow> bool" where
  "moving_down xf y0 yf img sprite vmi d st \<longleftrightarrow>
     (case st of (m, v) \<Rightarrow>
        xi m = xf \<and> uint (yi m) = min (uint yf) (uint y0 + d) \<and>
        done_moving m = (1 \<le> d \<and> uint yf \<le> uint y0 + d) \<and>
        lab5_ok v \<and> vmi_p v = vmi \<and> shown v img sprite (uint xf) (uint (yi m)))"

lemma move_by_down:
  assumes st: "moving_down xf y0 yf img sprite (vmi_p v) d (m, v)" and "\<not> done_moving m" and "0 \<le> d"
    and fit: "fits v img sprite (uint xf) (uint yf)" and y: "y0 \<le> yf" and b: "1 \<le> by" "uint yf + by < 65536"
  shows "\<exists>st'. andthen (move_by by xf yf img sprite (m, v)) (\<lambda>(m, v). andthen (double_buffer v) (\<lambda>v1. Inr (m, v1))) = Inr st' \<and>
    moving_down xf y0 yf img sprite (vmi_p v) (d + by) st'"
proof -
  let ?m1 = "m\<lparr>yi := move_axis by (yi m) yf\<rparr>"
  let ?a = "yi ?m1 = yf"
  from st have m: "xi m = xf" "uint (yi m) = min (uint yf) (uint y0 + d)" and ok: "lab5_ok v"
    by (auto simp: moving_down_def)
  have y1: "uint (yi ?m1) = min (uint yf) (uint y0 + (d + by))"
    using move_axis_exact [of "by" "yi m" yf] m(2) b by auto
  have a: "?a = (uint yf \<le> uint y0 + (d + by))"
    using y1 by (simp add: word_uint_eq_iff min_def)
  have f: "fits v img sprite (uint (xi m)) (uint (yi m))" "fits v img sprite (uint (xi ?m1)) (uint (yi ?m1))"
    using fit y1 m assms(3) b(1) uint_u16_bound [of y0] by (auto simp: fits_def)
  obtain v2 where v2: "redraw img sprite ?m1 ?a (m, v) = Inr (if ?a then ?m1\<lparr>done_moving := True\<rparr> else ?m1, v2)"
    "lab5_ok v2" "vmi_p v2 = vmi_p v" "shown (v2\<lparr>l5_video_mem := l5_buffer v2\<rparr>) img sprite (uint (xi ?m1)) (uint (yi ?m1))"
    using redraw_shows [OF ok f, of ?a] by blast
  have len: "length (l5_buffer v2) = length (l5_video_mem v2)"
    using v2(2) by (simp add: lab5_ok_def vid_ok_def)
  let ?st = "(if ?a then ?m1\<lparr>done_moving := True\<rparr> else ?m1, v2\<lparr>l5_video_mem := l5_buffer v2\<rparr>)"
  have "andthen (move_by by xf yf img sprite (m, v)) (\<lambda>(m, v). andthen (double_buffer v) (\<lambda>v1. Inr (m, v1))) = Inr ?st"
    using v2(1) double_buffer_copies [OF v2(2)] by (simp add: move_by_def m(1) Let_def)
  moreover have "moving_down xf y0 yf img sprite (vmi_p v) (d + by) ?st"
    using v2 y1 a m(1) assms(2,3) b(1) mem_only(3) [OF len]
    by (cases ?a) (simp_all add: moving_down_def min_def)
  ultimately show ?thesis by blast
qed

lemma move_tick_down:
  assumes st: "moving_down xf y0 yf img sprite (vmi_p v) (travelled speed c n) (m, v)" and s0: "sint speed \<noteq> 0"
    and fit: "fits v img sprite (uint xf) (uint yf)" and y: "y0 \<le> yf" and b: "uint yf + max 1 (sint speed) < 65536"
  shows "\<exists>st'. move_tick speed xf yf img sprite (c + int n + 1) (m, v) = Inr st' \<and>
    moving_down xf y0 yf img sprite (vmi_p v) (travelled speed c (Suc n)) st'"
proof (cases "done_moving m")
  case True
  then have "1 \<le> travelled speed c n" "uint yf \<le> uint y0 + travelled speed c n" "uint (yi m) = uint yf"
    using st by (auto simp: moving_down_def)
  moreover have "travelled speed c n \<le> travelled speed c (Suc n)" using s0 by (simp add: travelled_Suc)
  ultimately have "moving_down xf y0 yf img sprite (vmi_p v) (travelled speed c (Suc n)) (m, v)"
    using st True by (auto simp: moving_down_def)
  then show ?thesis using True by (simp add: move_tick_def)
next
  case False
  note mv = move_by_down [OF st False travelled_nonneg [OF s0] fit y]
  have ok: "lab5_ok v" "v\<lparr>l5_video_mem := l5_buffer v\<rparr> = v"
    using st by (auto simp: moving_down_def shown_def)
  consider "sint speed > 0" | "sint speed < 0" "(c + int n + 1) mod (- sint speed) = 0"
    | "sint speed < 0" "(c + int n + 1) mod (- sint speed) \<noteq> 0" using s0 by linarith
  then show ?thesis
  proof cases
    case 1
    then show ?thesis using mv [of "sint speed"] b False by (simp add: move_tick_def travelled_Suc)
  next
    case 2
    then show ?thesis using mv [of 1] b False by (simp add: move_tick_def travelled_Suc)
  next
    case 3
    then show ?thesis
      using st False double_buffer_copies [OF ok(1)] ok(2) by (simp add: move_tick_def travelled_Suc)
  qed
qed

text \<open>C35: A sprite sent down by \<open>video_test_move\<close> is, after any number of timer ticks, exactly the distance
  from its start that the speed asks for (\<open>speed\<close> pixels a tick, or one pixel every \<open>-speed\<close> ticks),
  but never below its goal; it is shown there in the video memory, and the test stops moving it
  when it has arrived.\<close>

lemma video_test_move_arrives:
  assumes "lab5_ok v" and "shown v img sprite (uint xf) (uint y0)" and "fits v img sprite (uint xf) (uint yf)"
    and "y0 \<le> yf" and "sint speed \<noteq> 0" and "uint yf + max 1 (sint speed) < 65536"
  shows "\<exists>m v'. move_ticks speed xf yf img sprite c n (\<lparr>xi = xf, yi = y0, done_moving = False\<rparr>, v) = Inr (m, v') \<and>
    xi m = xf \<and> uint (yi m) = min (uint yf) (uint y0 + travelled speed c n) \<and>
    done_moving m = (1 \<le> travelled speed c n \<and> uint yf \<le> uint y0 + travelled speed c n) \<and>
    shown v' img sprite (uint xf) (uint (yi m))"
proof -
  have "\<exists>st. move_ticks speed xf yf img sprite c n (\<lparr>xi = xf, yi = y0, done_moving = False\<rparr>, v) = Inr st \<and>
    moving_down xf y0 yf img sprite (vmi_p v) (travelled speed c n) st"
  proof (induction n)
    case 0
    then show ?case using assms by (simp add: moving_down_def travelled_0 word_le_def)
  next
    case (Suc n)
    then obtain m u where u: "move_ticks speed xf yf img sprite c n (\<lparr>xi = xf, yi = y0, done_moving = False\<rparr>, v) = Inr (m, u)"
      and st: "moving_down xf y0 yf img sprite (vmi_p v) (travelled speed c n) (m, u)" by auto
    then have vm: "vmi_p u = vmi_p v" by (simp add: moving_down_def)
    have "fits u img sprite (uint xf) (uint yf)" using assms(3) fits_cong [OF vm] by simp
    with move_tick_down [of xf y0 yf img sprite u speed c n m] st assms(4-6) show ?case by (simp add: u vm)
  qed
  then show ?thesis by (auto simp: moving_down_def)
qed

text \<open>A sprite of 2 by 1 pixels on the small screen.\<close>

theorem video_test_move_arrives_witness:
  "\<exists>m v'. move_ticks 2 1 4 \<lparr>width = 2, height = 1\<rparr> [0, 0] 0 2 (\<lparr>xi = 1, yi = 1, done_moving = False\<rparr>, small_screen) = Inr (m, v') \<and>
    uint (yi m) = 4 \<and> done_moving m"
proof -
  have "fits small_screen \<lparr>width = 2, height = 1\<rparr> [0, 0] (uint (1 :: u16)) (uint (4 :: u16))"
    by (simp add: fits_def small_screen_def)
  moreover have "rect 1 1 2 1 = {(1, 1), (2, 1)}" by (auto simp: rect_def)
  then have "shown small_screen \<lparr>width = 2, height = 1\<rparr> [0, 0] (uint (1 :: u16)) (uint (1 :: u16))"
    by (auto simp: shown_def small_screen_def lab5_pixel_def lab5_encode_def pixel_def encode_def
        pixel_bytes_def as_video_def xres_def sprite_at_def le_bytes_def)
  ultimately show ?thesis
    using video_test_move_arrives [OF small_screen_ok, of "\<lparr>width = 2, height = 1\<rparr>" "[0, 0]" 1 1 4 2 0 2]
    by (auto simp: travelled_def)
qed

section \<open>The pattern\<close>

text \<open>The colour of a pixel in the pattern: that of the cell it lies in.\<close>

definition cell_color :: "lab5_video \<Rightarrow> (int \<Rightarrow> int \<Rightarrow> u32) \<Rightarrow> int \<Rightarrow> int \<Rightarrow> int \<Rightarrow> int \<Rightarrow> u8 list" where
  "cell_color v c xr yr px py = lab5_encode v (c (py div yr) (px div xr))"

lemma cell_inside:
  fixes j n d m :: int
  assumes "0 \<le> j" and "j < n" and "0 \<le> d" and "n * d \<le> m"
  shows "0 \<le> j * d" and "j * d + d \<le> m"
proof -
  have "(j + 1) * d \<le> n * d" using assms by (intro mult_right_mono) auto
  with assms show "0 \<le> j * d" "j * d + d \<le> m" by (auto simp: algebra_simps)
qed

lemma pattern_row_paints:
  assumes p: "lab5_screen.painted v S (cell_color v c xr yr) u" and i: "0 \<le> i" "i < n"
    and xr: "0 \<le> xr" "n * xr \<le> uint (XResolution (vmi_p v))" and yr: "0 \<le> yr" "n * yr \<le> uint (YResolution (vmi_p v))"
    and col: "\<And>j. 0 \<le> j \<Longrightarrow> j < n \<Longrightarrow> color i j = Inr (c i j)"
  shows "\<exists>u'. for_each [0..n - 1] (\<lambda>j v. andthen (color i j) (\<lambda>c.
      map_sum id snd (vg_draw_rectangle (word_of_int (j * xr)) (word_of_int (i * yr)) (word_of_int xr) (word_of_int yr) c v))) u = Inr u' \<and>
    lab5_screen.painted v (S \<union> {0..<n * xr} \<times> {i * yr..<i * yr + yr}) (cell_color v c xr yr) u'"
proof -
  let ?body = "\<lambda>j v. andthen (color i j) (\<lambda>c.
      map_sum id snd (vg_draw_rectangle (word_of_int (j * xr)) (word_of_int (i * yr)) (word_of_int xr) (word_of_int yr) c v))"
  let ?I = "\<lambda>pre. lab5_screen.painted v (S \<union> {0..<int (length pre) * xr} \<times> {i * yr..<i * yr + yr}) (cell_color v c xr yr)"
  have "\<exists>t. for_each [0..n - 1] ?body u = Inr t \<and> ?I [0..n - 1] t"
  proof (rule for_each_rule)
    show "?I [] u" using p by simp
    fix pre j post t assume e: "[0..n - 1] = pre @ j # post" and t: "?I pre t"
    have "j \<in> set [0..n - 1]" by (simp only: e) simp
    then have j: "0 \<le> j" "j < n" by auto
    have len: "int (length pre) = j" using upto_split_nth [OF e] by simp
    note b = cell_inside [OF j xr] cell_inside [OF i yr]
    have w: "uint (word_of_int (j * xr) :: u16) = j * xr" "uint (word_of_int (i * yr) :: u16) = i * yr"
      "uint (word_of_int xr :: u16) = xr" "uint (word_of_int yr :: u16) = yr"
      using b xr(1) yr(1) uint_u16_bound [of "XResolution (vmi_p v)"] uint_u16_bound [of "YResolution (vmi_p v)"]
      by (intro uint_u16; linarith)+
    note s = painted_same [OF t]
    obtain t' where t': "vg_draw_rectangle (word_of_int (j * xr)) (word_of_int (i * yr)) (word_of_int xr) (word_of_int yr) (c i j) t = Inr (0, t')"
      and pt: "lab5_screen.painted t (rect (j * xr) (i * yr) xr yr) (\<lambda>_ _. lab5_encode t (c i j)) t'"
      using rectangle_paints [OF s(1), of "word_of_int (j * xr)" "word_of_int xr" "word_of_int (i * yr)" "word_of_int yr" "c i j"] b
      unfolding w s(2) by blast
    have "cell_color v c xr yr x y = lab5_encode t (c i j)" if "(x, y) \<in> rect (j * xr) (i * yr) xr yr" for x y
      using that b cell_index [of x j xr] cell_index [of y i yr] by (auto simp: rect_def cell_color_def s(3))
    from lab5_screen.painted_join [OF t pt, OF this [symmetric]]
    have "lab5_screen.painted v (S \<union> {0..<j * xr} \<times> {i * yr..<i * yr + yr} \<union> rect (j * xr) (i * yr) xr yr) (cell_color v c xr yr) t'"
      by (simp add: len)
    moreover have "S \<union> {0..<j * xr} \<times> {i * yr..<i * yr + yr} \<union> rect (j * xr) (i * yr) xr yr =
        S \<union> {0..<int (length (pre @ [j])) * xr} \<times> {i * yr..<i * yr + yr}"
      using b(1) xr(1) by (auto simp: rect_def len algebra_simps)
    ultimately show "\<exists>s'. ?body j t = Inr s' \<and> ?I (pre @ [j]) s'" using t' col [OF j] by simp
  qed
  moreover have "int (length [0..n - 1]) = n" using i by simp
  ultimately show ?thesis by simp
qed

lemma pattern_rows_paint:
  assumes xr: "0 \<le> xr" "n * xr \<le> uint (XResolution (vmi_p v))" and yr: "0 \<le> yr" "n * yr \<le> uint (YResolution (vmi_p v))"
    and col: "\<And>i j. 0 \<le> i \<Longrightarrow> i < n \<Longrightarrow> 0 \<le> j \<Longrightarrow> j < n \<Longrightarrow> color i j = Inr (c i j)"
    and "0 \<le> k" and "k \<le> n" and "lab5_screen.painted v ({0..<n * xr} \<times> {0..<k * yr}) (cell_color v c xr yr) u"
  shows "\<exists>u'. pattern_rows [k..n - 1] color n xr yr u = Inr u' \<and>
    lab5_screen.painted v ({0..<n * xr} \<times> {0..<n * yr}) (cell_color v c xr yr) u'"
  using assms(6-8)
proof (induction "nat (n - k)" arbitrary: k u)
  case 0
  then show ?case by simp
next
  case (Suc m)
  then have k: "0 \<le> k" "k < n" by auto
  obtain u1 where u1: "for_each [0..n - 1] (\<lambda>j v. andthen (color k j) (\<lambda>c.
      map_sum id snd (vg_draw_rectangle (word_of_int (j * xr)) (word_of_int (k * yr)) (word_of_int xr) (word_of_int yr) c v))) u = Inr u1"
    and p1: "lab5_screen.painted v ({0..<n * xr} \<times> {0..<k * yr} \<union> {0..<n * xr} \<times> {k * yr..<k * yr + yr}) (cell_color v c xr yr) u1"
    using pattern_row_paints [where color = color and c = c, OF Suc.prems(3) k xr yr col [OF k]] by blast
  note b = cell_inside [OF k yr]
  have "{0..<n * xr} \<times> {0..<k * yr} \<union> {0..<n * xr} \<times> {k * yr..<k * yr + yr} = {0..<n * xr} \<times> {0..<(k + 1) * yr}"
    using b(1) yr(1) by (auto simp: algebra_simps)
  with p1 have p2: "lab5_screen.painted v ({0..<n * xr} \<times> {0..<(k + 1) * yr}) (cell_color v c xr yr) u1" by simp
  have "[k..n - 1] = k # [k + 1..n - 1]" using k by (simp add: upto_rec1)
  moreover have "\<not> k * yr > uint (YResolution (vmi_p u1))" using b yr painted_same(2) [OF p1] by simp
  ultimately have "pattern_rows [k..n - 1] color n xr yr u = pattern_rows [k + 1..n - 1] color n xr yr u1"
    by (simp only: pattern_rows.simps u1 andthen_Inr if_False)
  moreover have "m = nat (n - (k + 1))" "0 \<le> k + 1" "k + 1 \<le> n" using Suc.hyps(2) k by auto
  ultimately show ?case using Suc.hyps(1) p2 by metis
qed

section \<open>The colours of the pattern\<close>

text \<open>
  The colour of the cell in row \<open>i\<close> and column \<open>j\<close> in integer arithmetic: in the indexed mode the number of the cell
  times \<open>step\<close> further than the first colour; in the direct modes each component on its own, red by the column, green by the
  row and blue by both.  \<open>mode_layout\<close> has the position and the width of red, green and blue in the VBE modes, and
  \<open>mode_matches\<close> says that the mode information of the card agrees with it.
\<close>

definition mode_layout :: "u16 \<Rightarrow> ((nat \<times> nat) \<times> (nat \<times> nat) \<times> (nat \<times> nat)) option" where
  "mode_layout mode =
     (if mode = 0x110 then Some ((10, 5), (5, 5), (0, 5))
      else if mode = 0x115 \<or> mode = 0x14C then Some ((16, 8), (8, 8), (0, 8))
      else if mode = 0x11A then Some ((11, 5), (5, 6), (0, 5))
      else None)"

definition mode_matches :: "u16 \<Rightarrow> vbe_mode_info \<Rightarrow> bool" where
  "mode_matches mode vmi \<longleftrightarrow>
     (case mode_layout mode of
        None \<Rightarrow> mode = 0x105 \<and> BitsPerPixel vmi = 8
      | Some l \<Rightarrow> l = ((unat (RedFieldPosition vmi), unat (RedMaskSize vmi)), (unat (GreenFieldPosition vmi), unat (GreenMaskSize vmi)),
          (unat (BlueFieldPosition vmi), unat (BlueMaskSize vmi))))"

definition component :: "nat \<times> nat \<Rightarrow> u32 \<Rightarrow> int \<Rightarrow> int" where
  "component l first d = (case l of (pos, bits) \<Rightarrow> (uint first div 2 ^ pos mod 2 ^ bits + d) mod 2 ^ bits)"

definition pattern_spec :: "u16 \<Rightarrow> int \<Rightarrow> u32 \<Rightarrow> int \<Rightarrow> int \<Rightarrow> int \<Rightarrow> u32" where
  "pattern_spec mode n first step i j =
     (case mode_layout mode of
        None \<Rightarrow> word_of_int ((uint first + (i * n + j) * step) mod 256)
      | Some (red, green, blue) \<Rightarrow> word_of_int (component red first (j * step) * 2 ^ fst red +
          component green first (i * step) * 2 ^ fst green + component blue first ((i + j) * step) * 2 ^ fst blue))"

lemma field_of:
  assumes "s \<le> 16"
  shows "uint (ucast (drop_bit p (first AND push_bit p (mask s))) :: u16) = uint (first :: u32) div 2 ^ p mod 2 ^ s"
proof -
  have "drop_bit p (first AND push_bit p (mask s)) = take_bit s (drop_bit p first)"
    by (rule bit_word_eqI) (auto simp: bit_simps dest: bit_imp_le_length)
  moreover have "uint first mod 4294967296 = uint first" using unsigned_less [of first, where ?'a = int] by simp
  ultimately show ?thesis
    using assms by (simp add: unsigned_ucast_eq unsigned_take_bit_eq unsigned_drop_bit_eq take_bit_take_bit)
      (simp add: take_bit_eq_mod drop_bit_eq_div)
qed

lemma fields_of:
  "uint (ucast (drop_bit 10 (first AND 0x7C00)) :: u16) = uint (first :: u32) div 2 ^ 10 mod 2 ^ 5"
  "uint (ucast (drop_bit 5 (first AND 0x3E0)) :: u16) = uint first div 2 ^ 5 mod 2 ^ 5"
  "uint (ucast (drop_bit 0 (first AND 0x1F)) :: u16) = uint first div 2 ^ 0 mod 2 ^ 5"
  "uint (ucast (drop_bit 16 (first AND 0xFF0000)) :: u16) = uint first div 2 ^ 16 mod 2 ^ 8"
  "uint (ucast (drop_bit 8 (first AND 0xFF00)) :: u16) = uint first div 2 ^ 8 mod 2 ^ 8"
  "uint (ucast (drop_bit 0 (first AND 0xFF)) :: u16) = uint first div 2 ^ 0 mod 2 ^ 8"
  "uint (ucast (drop_bit 11 (first AND 0xF800)) :: u16) = uint first div 2 ^ 11 mod 2 ^ 5"
  "uint (ucast (drop_bit 5 (first AND 0x7E0)) :: u16) = uint first div 2 ^ 5 mod 2 ^ 6"
proof -
  have m: "push_bit 10 (mask 5) = (0x7C00 :: u32)" "push_bit 5 (mask 5) = (0x3E0 :: u32)" "push_bit 0 (mask 5) = (0x1F :: u32)"
    "push_bit 16 (mask 8) = (0xFF0000 :: u32)" "push_bit 8 (mask 8) = (0xFF00 :: u32)" "push_bit 0 (mask 8) = (0xFF :: u32)"
    "push_bit 11 (mask 5) = (0xF800 :: u32)" "push_bit 5 (mask 6) = (0x7E0 :: u32)"
    by (simp_all add: mask_eq_exp_minus_1)
  show "uint (ucast (drop_bit 10 (first AND 0x7C00)) :: u16) = uint first div 2 ^ 10 mod 2 ^ 5"
    "uint (ucast (drop_bit 5 (first AND 0x3E0)) :: u16) = uint first div 2 ^ 5 mod 2 ^ 5"
    "uint (ucast (drop_bit 0 (first AND 0x1F)) :: u16) = uint first div 2 ^ 0 mod 2 ^ 5"
    "uint (ucast (drop_bit 16 (first AND 0xFF0000)) :: u16) = uint first div 2 ^ 16 mod 2 ^ 8"
    "uint (ucast (drop_bit 8 (first AND 0xFF00)) :: u16) = uint first div 2 ^ 8 mod 2 ^ 8"
    "uint (ucast (drop_bit 0 (first AND 0xFF)) :: u16) = uint first div 2 ^ 0 mod 2 ^ 8"
    "uint (ucast (drop_bit 11 (first AND 0xF800)) :: u16) = uint first div 2 ^ 11 mod 2 ^ 5"
    "uint (ucast (drop_bit 5 (first AND 0x7E0)) :: u16) = uint first div 2 ^ 5 mod 2 ^ 6"
    unfolding m [symmetric] by (rule field_of; simp)+
qed

lemma fields_disjoint:
  fixes R G B :: int
  assumes "0 \<le> G" "G < 2 ^ g" "0 \<le> B" "B < 2 ^ b"
  shows "push_bit (b + g) R OR push_bit b G OR push_bit 0 B = R * 2 ^ (b + g) + G * 2 ^ b + B * 2 ^ 0"
proof -
  have tB: "take_bit b B = B" using assms by (simp add: take_bit_int_eq_self)
  have x: "push_bit b G OR B = B + push_bit b G" using concat_bit_eq [of b B G] concat_bit_def [of b B G] tB by (simp add: or.commute)
  have "(G + 1) * 2 ^ b \<le> 2 ^ g * 2 ^ b" using assms by (intro mult_right_mono) auto
  then have "take_bit (b + g) (B + push_bit b G) = B + push_bit b G"
    using assms by (intro take_bit_int_eq_self) (auto simp: push_bit_eq_mult power_add algebra_simps)
  then have "push_bit (b + g) R OR (B + push_bit b G) = B + push_bit b G + push_bit (b + g) R"
    using concat_bit_eq [of "b + g" "B + push_bit b G" R] concat_bit_def [of "b + g" "B + push_bit b G" R] by (simp add: or.commute)
  then show ?thesis using x by (simp add: push_bit_eq_mult or.assoc)
qed

lemma indexed_color:
  "((first :: u32) + word_of_int x) mod 256 = word_of_int ((uint first + x) mod 256)"
proof (rule word_uint_eqI)
  have "(uint first + x) mod 2 ^ 32 mod 256 = (uint first + x) mod 256" by (rule mod_mod_cancel) simp
  then have "uint ((first + word_of_int x) mod 256) = (uint first + x) mod 256"
    by (simp add: uint_mod uint_word_ariths(1) uint_word_of_int mod_add_right_eq)
  moreover have "0 \<le> (uint first + x) mod 256" "(uint first + x) mod 256 < 256" by simp_all
  ultimately show "uint ((first + word_of_int x) mod 256) = uint (word_of_int ((uint first + x) mod 256) :: u32)"
    by (simp add: uint_word_of_int)
qed

lemma pattern_direct:
  assumes "mode \<noteq> 0x105" and "first_color mode vmi first = Some (r, g, b)"
    and "((unat (RedFieldPosition vmi), unat (RedMaskSize vmi)), (unat (GreenFieldPosition vmi), unat (GreenMaskSize vmi)),
      (unat (BlueFieldPosition vmi), unat (BlueMaskSize vmi))) = ((rp, rn), (gp, gn), (bp, bn))"
  shows "pattern_color mode vmi no_rectangles first step i j = Inr (word_of_int (push_bit rp ((uint r + j * uint step) mod 2 ^ rn)
    OR push_bit gp ((uint g + i * uint step) mod 2 ^ gn) OR push_bit bp ((uint b + (i + j) * uint step) mod 2 ^ bn)))"
  using assms by (simp add: pattern_color_def Let_def add.commute)

lemma pattern_color_spec:
  assumes "mode_matches mode vmi"
  shows "pattern_color mode vmi no_rectangles first step i j = Inr (pattern_spec mode (uint no_rectangles) first (uint step) i j)"
proof (cases "mode_layout mode")
  case None
  then have m: "mode = 0x105" "BitsPerPixel vmi = 8" using assms by (simp_all add: mode_matches_def)
  then show ?thesis using None by (simp add: pattern_color_def pattern_spec_def indexed_color [symmetric] Let_def)
next
  case (Some l)
  then have f: "l = ((unat (RedFieldPosition vmi), unat (RedMaskSize vmi)), (unat (GreenFieldPosition vmi), unat (GreenMaskSize vmi)),
      (unat (BlueFieldPosition vmi), unat (BlueMaskSize vmi)))" using assms by (simp add: mode_matches_def)
  have d5: "push_bit 10 R OR push_bit 5 (G mod 2 ^ 5) OR push_bit 0 (B mod 2 ^ 5) = R * 2 ^ 10 + G mod 2 ^ 5 * 2 ^ 5 + B mod 2 ^ 5 * 2 ^ 0"
    and d8: "push_bit 16 R OR push_bit 8 (G mod 2 ^ 8) OR push_bit 0 (B mod 2 ^ 8) = R * 2 ^ 16 + G mod 2 ^ 8 * 2 ^ 8 + B mod 2 ^ 8 * 2 ^ 0"
    and d6: "push_bit 11 R OR push_bit 5 (G mod 2 ^ 6) OR push_bit 0 (B mod 2 ^ 5) = R * 2 ^ 11 + G mod 2 ^ 6 * 2 ^ 5 + B mod 2 ^ 5 * 2 ^ 0"
    for R G B :: int
    using fields_disjoint [of "G mod 2 ^ 5" 5 "B mod 2 ^ 5" 5 R] fields_disjoint [of "G mod 2 ^ 8" 8 "B mod 2 ^ 8" 8 R]
      fields_disjoint [of "G mod 2 ^ 6" 6 "B mod 2 ^ 5" 5 R] by simp_all
  consider "mode = 0x110" | "mode = 0x115 \<or> mode = 0x14C" | "mode = 0x11A" using Some by (auto simp: mode_layout_def split: if_splits)
  then show ?thesis
  proof cases
    case 1
    then have l: "l = ((10, 5), (5, 5), (0, 5))" using Some by (simp add: mode_layout_def)
    have fc: "first_color mode vmi first = Some (ucast (drop_bit 10 (first AND 0x7C00)), ucast (drop_bit 5 (first AND 0x3E0)), ucast (drop_bit 0 (first AND 0x1F)))"
      using 1 f l by (simp only: first_color_def color_fields_def prod.inject) simp
    have "mode \<noteq> 0x105" using 1 by simp
    from pattern_direct [OF this fc f [symmetric, unfolded l]] show ?thesis
      by (simp only: pattern_spec_def Some l component_def option.case prod.case fst_conv fields_of d5)
  next
    case 2
    then have l: "l = ((16, 8), (8, 8), (0, 8))" using Some by (auto simp: mode_layout_def)
    have fc: "first_color mode vmi first = Some (ucast (drop_bit 16 (first AND 0xFF0000)), ucast (drop_bit 8 (first AND 0xFF00)), ucast (drop_bit 0 (first AND 0xFF)))"
      using 2 f l by (simp only: first_color_def color_fields_def prod.inject) auto
    have "mode \<noteq> 0x105" using 2 by auto
    from pattern_direct [OF this fc f [symmetric, unfolded l]] show ?thesis
      by (simp only: pattern_spec_def Some l component_def option.case prod.case fst_conv fields_of d8)
  next
    case 3
    then have l: "l = ((11, 5), (5, 6), (0, 5))" using Some by (simp add: mode_layout_def)
    have fc: "first_color mode vmi first = Some (ucast (drop_bit 11 (first AND 0xF800)), ucast (drop_bit 5 (first AND 0x7E0)), ucast (drop_bit 0 (first AND 0x1F)))"
      using 3 f l by (simp only: first_color_def color_fields_def prod.inject) simp
    have "mode \<noteq> 0x105" using 3 by simp
    from pattern_direct [OF this fc f [symmetric, unfolded l]] show ?thesis
      by (simp only: pattern_spec_def Some l component_def option.case prod.case fst_conv fields_of d6)
  qed
qed

lemma pattern_tiles:
  assumes "lab5_ok v" and "no_rectangles \<noteq> 0"
    and "\<And>i j. 0 \<le> i \<Longrightarrow> i < uint no_rectangles \<Longrightarrow> 0 \<le> j \<Longrightarrow> j < uint no_rectangles \<Longrightarrow>
      pattern_color mode (vmi_p v) no_rectangles first step i j = Inr (c i j)"
  shows "\<exists>v'. draw_pattern mode no_rectangles first step v = Inr v' \<and>
    (let n = uint no_rectangles; xr = uint (XResolution (vmi_p v)) div n; yr = uint (YResolution (vmi_p v)) div n in
     \<forall>px py. lab5_on_screen v px py \<longrightarrow> lab5_pixel v' px py =
       (if px < n * xr \<and> py < n * yr then lab5_encode v (c (py div yr) (px div xr)) else lab5_pixel v px py))"
proof -
  let ?n = "uint no_rectangles"
  let ?xr = "uint (XResolution (vmi_p v)) div ?n" and ?yr = "uint (YResolution (vmi_p v)) div ?n"
  have n: "0 < ?n" using assms(2) by (metis linorder_not_less order_antisym uint_0_iff uint_ge_0)
  have "?n * ?xr \<le> uint (XResolution (vmi_p v))" "?n * ?yr \<le> uint (YResolution (vmi_p v))" "0 \<le> ?xr" "0 \<le> ?yr"
    using n by (simp_all add: pos_imp_zdiv_nonneg_iff flip: minus_mod_eq_mult_div)
  then obtain v' where "pattern_rows [0..?n - 1] (pattern_color mode (vmi_p v) no_rectangles first step) ?n ?xr ?yr v = Inr v'"
    and "lab5_screen.painted v ({0..<?n * ?xr} \<times> {0..<?n * ?yr}) (cell_color v c ?xr ?yr) v'"
    using pattern_rows_paint [of ?xr ?n v ?yr "pattern_color mode (vmi_p v) no_rectangles first step" c 0 v]
      lab5_screen.painted_none [OF assms(1)] assms(3) n by auto
  then show ?thesis
    using assms(2) by (auto simp: draw_pattern_def Let_def lab5_screen.painted_def cell_color_def lab5_on_screen_def on_screen_px_def)
qed

lemma pattern_uninitialised:
  assumes "no_rectangles \<noteq> 0" and "mode \<notin> {0x105, 0x110, 0x115, 0x11A, 0x14C}"
  shows "draw_pattern mode no_rectangles first step v = Inl Uninitialised"
proof -
  have "0 < uint no_rectangles" using assms(1) by (metis linorder_not_less order_antisym uint_0_iff uint_ge_0)
  then have "[0..uint no_rectangles - 1] = 0 # [1..uint no_rectangles - 1]" by (simp add: upto_rec1)
  moreover have "pattern_color mode (vmi_p v) no_rectangles first step 0 0 = Inl Uninitialised"
    using assms(2) by (simp add: pattern_color_def first_color_def)
  ultimately show ?thesis using assms(1) by (simp add: draw_pattern_def Let_def)
qed

text \<open>C39: The pattern of \<open>video_test_pattern\<close> tiles the screen: in a mode the test knows, with mode information of the
  card that agrees with the mode, and at least one rectangle per row, the drawing does not fault, every pixel gets the colour
  of its cell as the formula of the pattern gives it in integer arithmetic, and only the strips at the right and the bottom
  that the division leaves over keep what was there.  With no rectangles the division by zero traps, and in any other mode
  the components of the first colour are read uninitialised.\<close>

lemma pattern_tiles_screen:
  assumes "lab5_ok v" and "no_rectangles \<noteq> 0"
  shows "(mode_matches mode (vmi_p v) \<longrightarrow>
     (\<exists>v'. draw_pattern mode no_rectangles first step v = Inr v' \<and>
      (let n = uint no_rectangles; xr = uint (XResolution (vmi_p v)) div n; yr = uint (YResolution (vmi_p v)) div n in
       \<forall>px py. lab5_on_screen v px py \<longrightarrow> lab5_pixel v' px py =
         (if px < n * xr \<and> py < n * yr then lab5_encode v (pattern_spec mode n first (uint step) (py div yr) (px div xr))
          else lab5_pixel v px py)))) \<and>
    draw_pattern mode 0 first step v = Inl Division_By_Zero \<and>
    (mode \<notin> {0x105, 0x110, 0x115, 0x11A, 0x14C} \<longrightarrow> draw_pattern mode no_rectangles first step v = Inl Uninitialised)"
proof (intro conjI impI)
  show "\<exists>v'. draw_pattern mode no_rectangles first step v = Inr v' \<and>
      (let n = uint no_rectangles; xr = uint (XResolution (vmi_p v)) div n; yr = uint (YResolution (vmi_p v)) div n in
       \<forall>px py. lab5_on_screen v px py \<longrightarrow> lab5_pixel v' px py =
         (if px < n * xr \<and> py < n * yr then lab5_encode v (pattern_spec mode n first (uint step) (py div yr) (px div xr))
          else lab5_pixel v px py))" if "mode_matches mode (vmi_p v)"
    using pattern_tiles [OF assms pattern_color_spec [OF that]] by (simp add: Let_def)
qed (simp add: draw_pattern_def, rule pattern_uninitialised [OF assms(2)])

theorem pattern_tiles_screen_witness:
  "\<exists>v'. draw_pattern 0x105 2 3 1 small_screen = Inr v' \<and> lab5_pixel v' 4 3 = lab5_encode small_screen 6 \<and>
    lab5_pixel v' 4 4 = lab5_pixel small_screen 4 4"
proof -
  have "mode_matches 0x105 (vmi_p small_screen)" by (simp add: mode_matches_def mode_layout_def small_screen_def)
  with pattern_tiles_screen [OF small_screen_ok, of 2 "0x105" 3 1] obtain v' where "draw_pattern 0x105 2 3 1 small_screen = Inr v'"
    and "\<forall>px py. lab5_on_screen small_screen px py \<longrightarrow> lab5_pixel v' px py =
       (if px < 6 \<and> py < 4 then lab5_encode small_screen (pattern_spec 0x105 2 3 1 (py div 2) (px div 3)) else lab5_pixel small_screen px py)"
    by (auto simp: Let_def small_screen_def)
  moreover have "lab5_on_screen small_screen 4 3" "lab5_on_screen small_screen 4 4"
    by (simp_all add: lab5_on_screen_def on_screen_px_def small_screen_def)
  moreover have "pattern_spec 0x105 2 3 1 1 1 = 6" by (simp add: pattern_spec_def mode_layout_def)
  ultimately show ?thesis by auto
qed

end
