(* ===== verification/Spec2Isabelle.thy ===== *)
theory Spec2Isabelle
  imports Session Shutdown Animation Entry_Points Lab3 Lab4 Lab5
begin

text \<open>
  Verification of the LCOM programs for MINIX 3: the memory card game of \<open>proj/src\<close> and the device
  driver exercises \<open>lab2\<close> to \<open>lab5\<close> it grew out of.

  \<^bold>\<open>The programs.\<close>  The game drives the PC's devices from user space.  The keyboard (i8042), the
  mouse (PS/2 behind the i8042), the timer (i8254) and the real-time clock are accessed through
  ports; interrupts arrive as messages, which one loop receives and hands to the drivers; a VBE
  frame buffer is drawn in memory and copied to the card's.  The loop of \<open>proj.c\<close> runs a state
  machine (menu, game, pause, instructions, exit) at every timer tick.  Each lab is a program of its
  own with an earlier version of one driver and tests around the same kind of loop.

  \<^bold>\<open>Conventions.\<close>  \<open>uint8_t\<close>, \<open>uint16_t\<close> and \<open>uint32_t\<close> are words of their width, C \<open>int\<close> is \<open>int\<close>
  (coordinates and tick counters stay far from its limits; products of two 16-bit resolutions and
  the shifts by a mode's field positions are taken as in range).  Two of these counters have no bound in the code: the
  \<open>increaseWidth\<close> of a locked table, for which the theorem bounds the number of frames so that the \<open>int\<close> cannot overflow,
  and \<open>counter\<close> of the stopped mouse driver, which overflows after \<open>2^31\<close> read errors.  Undefined behaviour and panics are
  faults, values of the left side of a sum (\<open>result\<close>); code that may poll or wait forever returns an
  option, \<open>None\<close> when it does not return (\<open>run\<close>), and is defined by \<open>partial_function\<close>, so no fuel is
  needed anywhere.  The world \<open>'w\<close> is abstract: kernel calls, the LCOM framework and the C library
  are the fields of a record \<open>'w kernel\<close>, an argument of every definition that calls them.  What a
  theorem needs of them is a hypothesis (for instance that the controller answers after finitely
  many polls), and every witness runs the code in the scripted environment \<open>sim_kernel\<close> or a variant
  of it.  \<open>printf\<close> is left out.

  \<^bold>\<open>Shared theories.\<close>
  \<^item> \<open>Lcom_Prelude\<close>: types, faults, sequencing (\<open>andthen\<close>, \<open>run_then\<close>), \<open>for\<close> loops (\<open>for_each\<close>), byte
    blocks, the locales \<open>step_invariant\<close> and \<open>simulation\<close>, and the generic lemmas.
  \<^item> \<open>Kernel_Env\<close>: the environment, the macros of the MINIX and framework headers, the locale \<open>irq_line\<close>
    (a subscribed interrupt line), observations of the world (port traces, what port accesses leave alone), the scripted
    environment.
  \<^item> \<open>I8042\<close>: the controller's constants and the locale \<open>kbc_poller\<close>, the contract of a polling loop.
  \<^item> \<open>Pixels\<close>: the locale \<open>pixel_sink\<close>, the contract of a pixel primitive, with the loops over
    rectangles verified against it.
  \<^item> \<open>Irq_Loop\<close>: the loop of the lab tests (\<open>irq_loop\<close>) and the locale \<open>counted_loop\<close>, under which it
    returns, with the observation that counts the interrupts of one line where the kernel delivers them (\<open>irqs_seen\<close>).

  \<^bold>\<open>The game.\<close>
  \<^item> \<open>Utils\<close> (\<open>utils.c\<close>): halves of a 16-bit value and the byte-wide port read, with the locales
    \<open>byte_access\<close> and \<open>port_reader\<close> that every copy of the file satisfies.
  \<^item> \<open>Rtc\<close> (\<open>rtc.c\<close>): \<open>get_date\<close> reads the six registers; the BCD conversion is inverse to the chip's
    encoding.
  \<^item> \<open>Keyboard\<close> (\<open>keyboard.c\<close>): the scancode printer on streams of keys, the command sequence that
    enables interrupts, and a loop that never ends.
  \<^item> \<open>Mouse_Driver\<close> (\<open>mouse.c\<close>): commands are acknowledged, a stream of packets is decoded to the
    events the mouse sent, an error on the third byte stops the driver for good.
  \<^item> \<open>Timer_Driver\<close> (\<open>timer.c\<close>): the bytes \<open>timer_set_frequency\<close> writes, what it rejects, and which
    status fields are reported correctly.
  \<^item> \<open>Video\<close> (\<open>video.c\<close>): the frame buffer as an instance of \<open>pixel_sink\<close>; images, card faces and green
    areas change exactly their pixels; exactly when the pixel primitive leaves the buffer.
  \<^item> \<open>Game\<close> (\<open>game.c\<close>): dealing gives eight pairs in any order of the sixteen places and ends when the
    random generator does not repeat itself forever; flipping refines an abstract specification of
    the card states or divides by zero, completes in a bounded number of calls, or provably never; a click selects the
    card under the pointer; the bounds of the pointer.
  \<^item> \<open>Proj_Main\<close> (\<open>proj.c\<close>): set-up, one iteration of the loop (keyboard, mouse and timer part, five
    game states), the loop, shutdown.
  \<^item> \<open>Frames\<close>: which parts of the state each drawing and game step leaves alone.
  \<^item> \<open>Proj_Props\<close>: the invariant of the running game, the transitions between its states, the match of
    two or three open cards, leaving the loop, the interrupt masks.
  \<^item> \<open>Pixmaps\<close> (\<open>pixmap.h\<close>): the letters, the heart and the cursor row by row, the declared sizes of the
    nine large pictures, the XPM format and what \<open>xpm_load\<close> promises (\<open>xpm_loads\<close>).
  \<^item> \<open>Screens\<close>: with these images on the 800 by 600 display, words and the table at rest are drawn exactly,
    and outside the game no reachable state makes a tick fault while the cursor is on the display.
  \<^item> \<open>Outcome\<close>: the invariant of victory and defeat: matched cards come in pairs, victory means all of them,
    defeat a dead player.
  \<^item> \<open>Memory_Game\<close>, \<open>Session\<close>: the rules of the game as an abstract step relation on faces, found cards, lives
    and the screen shown, with its own invariant, and the refinement: in every reachable state one pass of the
    loop of \<open>proj.c\<close> is one abstract step or none, so that what holds of the abstract game holds of the program.
  \<^item> \<open>Shutdown\<close>: \<open>proj_main_loop\<close> as a whole over a ledger of the kernel's interrupt lines (\<open>irq_ledger\<close>): a run
    that returns 0 has released its lines, a start that fails keeps them, and the exit screen ends the
    program at the next timer interrupt.
  \<^item> \<open>Animation\<close>: one call of \<open>draw_game_cards\<close> with any cards in motion refines \<open>frame\<close>; a third card clicked
    in the tick in which the second one landed locks the table.
  \<^item> \<open>Entry_Points\<close>: the \<open>main\<close> functions of the five programs and \<open>hello.c\<close> over the framework's start and
    clean-up calls (the record \<open>framework\<close>).

  \<^bold>\<open>The labs.\<close>
  \<^item> \<open>Lab2\<close>: the first timer driver, equivalent to the project's; its interrupt test counts the
    seconds.  \<open>lab4\<close> has the same \<open>utils.c\<close> and \<open>timer.c\<close>.
  \<^item> \<open>Lab3\<close>: the first keyboard driver and its tests, a refinement of the project's driver.  Names that
    \<open>lab3.c\<close> uses and the lab does not define are fields of \<open>lab3_missing\<close>.
  \<^item> \<open>Lab4\<close>: subscription and packet printing of \<open>lab4/mouse.c\<close> (its other functions are those of the
    project) and its tests: the recogniser of the mouse gesture on the bytes of the mouse, the time-out of an idle one.
  \<^item> \<open>Lab5_Drivers\<close>, \<open>Lab5_Video\<close>, \<open>Lab5\<close>: the drivers, the frame buffer (simulated by the project's)
    and the tests of \<open>lab5\<close>; rectangles and sprites change exactly their pixels, the pattern
    tiles the screen with the colours of its formula, a moving sprite arrives, the scancode printers of three programs agree, the control word of the timer is wrong.

  \<^bold>\<open>Interfaces.\<close>  Each locale is interpreted on the programs' own definitions: \<open>irq_line\<close> on the keyboard,
  mouse and timer subscriptions of the project and the labs (not on the timer of \<open>lab2\<close>, whose bit
  number is another one), \<open>kbc_poller\<close> on the polling loops, \<open>byte_access\<close> and \<open>port_reader\<close> on the
  copies of \<open>utils.c\<close>, \<open>pixel_sink\<close> on both frame buffers, \<open>counted_loop\<close> on the interrupt test of
  \<open>lab2\<close> and the idle test of \<open>lab4\<close>, \<open>step_invariant\<close> three times on the main loop, on the abstract game and on the stopped mouse driver, \<open>simulation\<close> on the
  main loop over the abstract game.

  \<^bold>\<open>Not modelled.\<close>  The pixels of the nine large pictures of \<open>pixmap.h\<close> (an image is a name, and what
  \<open>xpm_load\<close> returns for it a parameter, of which the theorems use the declared size only); the messages
  the drivers and tests print with \<open>printf\<close>;
  the kernel, the framework and the C library.  The order of evaluation inside one expression is
  the order of the text, and memory freed or leaked is not tracked.
\<close>

end
